(* ===== verification/Prelude.thy ===== *)
theory Prelude
  imports Main "HOL-Library.Word" "HOL-Library.Monad_Syntax"
begin

text \<open>
  Shared vocabulary of the development: machine integers of the C sources, kernel
  computations that may fail, the weakest-precondition rules for them, and the generic
  facts on lists and words that the component theories use.

  A kernel operation is a function from the kernel state to an \<open>option\<close>. The value
  \<open>None\<close> stands for the two ways in which the C code does not return: a failed
  \<open>KASSERT\<close> (\<open>kernel/inc/kassert.h\<close>, an endless loop, or undefined behaviour when
  \<open>NDEBUG\<close> is set) and undefined behaviour of C (an array index out of range, a null
  pointer read, a shift by the width of the type). A loop that never ends has the value
  \<open>None\<close> too. Proving that an operation yields \<open>Some\<close> therefore proves that it returns
  and that it neither trips an assertion nor leaves its arrays.
\<close>

unbundle bit_operations_syntax

section \<open>Machine integers\<close>

type_synonym u8 = "8 word"
type_synonym u16 = "16 word"
type_synonym u32 = "32 word"
type_synonym u64 = "64 word"

section \<open>Assertions and computations that may fail\<close>

text \<open>The macro \<open>KASSERT\<close>: continue when the condition holds, hang otherwise.\<close>

definition KASSERT :: "bool \<Rightarrow> unit option" where
  "KASSERT expr = (if expr then Some () else None)"

text \<open>\<open>ok Q m\<close>: the computation \<open>m\<close> returns and its result satisfies \<open>Q\<close>.\<close>

definition ok :: "('a \<Rightarrow> bool) \<Rightarrow> 'a option \<Rightarrow> bool" where
  "ok Q m = (case m of None \<Rightarrow> False | Some x \<Rightarrow> Q x)"

named_theorems wp \<open>weakest-precondition equations\<close>

lemma ok_None [simp, wp]: "ok Q None \<longleftrightarrow> False"
  by (simp add: ok_def)

lemma ok_Some [simp, wp]: "ok Q (Some x) \<longleftrightarrow> Q x"
  by (simp add: ok_def)

lemma ok_bind [wp]: "ok Q (Option.bind m f) \<longleftrightarrow> ok (\<lambda>x. ok Q (f x)) m"
  by (cases m) simp_all

lemma ok_if [wp]: "ok Q (if b then m else n) \<longleftrightarrow> (if b then ok Q m else ok Q n)"
  by simp

lemma ok_KASSERT [wp]: "ok Q (KASSERT b) \<longleftrightarrow> b \<and> Q ()"
  by (simp add: KASSERT_def)

lemma ok_mono: "ok P m \<Longrightarrow> (\<And>x. P x \<Longrightarrow> Q x) \<Longrightarrow> ok Q m"
  by (cases m) simp_all

lemma ok_mono_pair: "ok P m \<Longrightarrow> (\<And>x y. P (x, y) \<Longrightarrow> Q (x, y)) \<Longrightarrow> ok Q m"
  by (cases m) auto

lemma ok_conj: "ok (\<lambda>x. P x \<and> Q x) m \<longleftrightarrow> ok P m \<and> ok Q m"
  by (cases m) simp_all

lemma okD: "ok Q m \<Longrightarrow> \<exists>x. m = Some x \<and> Q x"
  by (cases m) simp_all

lemma okI: "m = Some x \<Longrightarrow> Q x \<Longrightarrow> ok Q m"
  by simp

lemma ok_iff: "ok Q m \<longleftrightarrow> (\<exists>x. m = Some x \<and> Q x)"
  by (cases m) simp_all

section \<open>Lists\<close>

lemma nth_update_if:
  "i < length xs \<Longrightarrow> xs[i := v] ! j = (if i = j then v else xs ! j)"
  by (simp add: nth_list_update)

text \<open>The array loop \<open>for (i = from; i < to; i++) a[i] = f(i, a[i])\<close>.\<close>

definition array_loop :: "(nat \<Rightarrow> 'a \<Rightarrow> 'a) \<Rightarrow> nat \<Rightarrow> nat \<Rightarrow> 'a list \<Rightarrow> 'a list" where
  "array_loop f from to xs = fold (\<lambda>i xs. xs[i := f i (xs ! i)]) [from..<to] xs"

lemma length_array_loop [simp]: "length (array_loop f from to xs) = length xs"
proof -
  have "length (fold (\<lambda>i xs. xs[i := f i (xs ! i)]) is xs) = length xs" for "is"
    by (induction "is" arbitrary: xs) simp_all
  then show ?thesis by (simp add: array_loop_def)
qed

lemma nth_array_loop:
  assumes "k < length xs"
  shows "array_loop f from to xs ! k = (if from \<le> k \<and> k < to then f k (xs ! k) else xs ! k)"
proof -
  have "fold (\<lambda>i xs. xs[i := f i (xs ! i)]) is xs ! k
    = (if k \<in> set is then f k (xs ! k) else xs ! k)" if "distinct is" for "is"
    using that assms
  proof (induction "is" arbitrary: xs)
    case (Cons a as)
    then show ?case by (cases "a = k") simp_all
  qed simp
  from this [of "[from..<to]"] show ?thesis by (simp add: array_loop_def)
qed

section \<open>Word fields\<close>

text \<open>Extensionality of words, bit by bit, for words only.\<close>

lemma word_bits_eq_iff: "v = w \<longleftrightarrow> (\<forall>n < LENGTH('a). bit v n = bit w n)"
  for v w :: "'a::len word"
  by (auto intro: bit_word_eqI)

lemma unat_ucast_up:
  fixes a :: "'a::len word"
  assumes "LENGTH('a) \<le> LENGTH('b::len)"
  shows "unat (ucast a :: 'b word) = unat a"
proof -
  have "unat a < 2 ^ LENGTH('a)" by simp
  also have "(2 :: nat) ^ LENGTH('a) \<le> 2 ^ LENGTH('b)"
    using assms by (intro power_increasing) simp_all
  finally have "unat a < 2 ^ LENGTH('b)" .
  then show ?thesis
    by (simp add: unsigned_ucast_eq take_bit_nat_eq_self)
qed

lemma ucast_up_le_iff:
  fixes a b :: "'a::len word"
  assumes "LENGTH('a) \<le> LENGTH('b::len)"
  shows "(ucast a :: 'b word) \<le> ucast b \<longleftrightarrow> a \<le> b"
  by (simp add: word_le_nat_alt unat_ucast_up [OF assms])

lemma ucast_up_less_iff:
  fixes a b :: "'a::len word"
  assumes "LENGTH('a) \<le> LENGTH('b::len)"
  shows "(ucast a :: 'b word) < ucast b \<longleftrightarrow> a < b"
  by (simp add: word_less_nat_alt unat_ucast_up [OF assms])

lemma unat_succ:
  fixes c :: "'a::len word"
  assumes "c < e"
  shows "unat (c + 1) = unat c + 1"
proof -
  have "unat c < unat e" using assms by (simp add: word_less_nat_alt)
  also have "unat e < 2 ^ LENGTH('a)" by simp
  finally have "unat c + 1 < 2 ^ LENGTH('a)" using assms
    by (metis Suc_eq_plus1 Suc_lessI \<open>unat c < unat e\<close> \<open>unat e < 2 ^ LENGTH('a)\<close> not_less_eq)
  then show ?thesis by (simp add: unat_word_ariths)
qed

end
