(* ===== verification/Config.thy ===== *)
theory Config
  imports Prelude
begin

text \<open>
  The configuration the kernel is built with by default: \<open>kernel/s3k_conf.h\<close> on the
  platform \<open>qemu_virt4\<close> of \<open>kernel/Makefile\<close> (\<open>common/inc/plat/qemu_virt4.h\<close>), and
  the error codes of \<open>kernel/inc/error.h\<close>. The proofs use these constants only through
  the bounds listed at the end.
\<close>

section \<open>Build configuration\<close>

definition S3K_PROC_CNT :: nat where "S3K_PROC_CNT = 2"

definition S3K_CAP_CNT :: nat where "S3K_CAP_CNT = 32"

definition S3K_CHAN_CNT :: nat where "S3K_CHAN_CNT = 2"

definition S3K_SLOT_CNT :: nat where "S3K_SLOT_CNT = 32"

definition S3K_MIN_HART :: nat where "S3K_MIN_HART = 0"

definition S3K_MAX_HART :: nat where "S3K_MAX_HART = 3"

definition S3K_HART_CNT :: nat where "S3K_HART_CNT = S3K_MAX_HART - S3K_MIN_HART + 1"

definition SMP :: bool where "SMP \<longleftrightarrow> S3K_HART_CNT > 1"

definition S3K_PMP_CNT :: nat where "S3K_PMP_CNT = 8"

definition S3K_RTC_HZ :: u64 where "S3K_RTC_HZ = 1000000"

definition S3K_SLOT_LEN :: u64 where "S3K_SLOT_LEN = S3K_RTC_HZ div of_nat S3K_SLOT_CNT"

definition S3K_SCHED_TIME :: u64 where "S3K_SCHED_TIME = S3K_SLOT_LEN div 10"

section \<open>Error codes\<close>

datatype err_t = SUCCESS | ERR_EMPTY | ERR_SRC_EMPTY | ERR_DST_OCCUPIED
  | ERR_INVALID_INDEX | ERR_INVALID_DERIVATION | ERR_INVALID_MONITOR | ERR_INVALID_PID
  | ERR_INVALID_STATE | ERR_INVALID_PMP | ERR_INVALID_SLOT | ERR_INVALID_SOCKET
  | ERR_INVALID_SYSCALL | ERR_INVALID_REGISTER | ERR_INVALID_CAPABILITY
  | ERR_NO_RECEIVER | ERR_PREEMPTED | ERR_TIMEOUT | ERR_SUSPENDED | CONTINUE

text \<open>The value that a 64-bit register holds after the enumeration is stored in it.\<close>

primrec err_code :: "err_t \<Rightarrow> u64" where
  "err_code SUCCESS = 0"
| "err_code ERR_EMPTY = 1"
| "err_code ERR_SRC_EMPTY = 2"
| "err_code ERR_DST_OCCUPIED = 3"
| "err_code ERR_INVALID_INDEX = 4"
| "err_code ERR_INVALID_DERIVATION = 5"
| "err_code ERR_INVALID_MONITOR = 6"
| "err_code ERR_INVALID_PID = 7"
| "err_code ERR_INVALID_STATE = 8"
| "err_code ERR_INVALID_PMP = 9"
| "err_code ERR_INVALID_SLOT = 10"
| "err_code ERR_INVALID_SOCKET = 11"
| "err_code ERR_INVALID_SYSCALL = 12"
| "err_code ERR_INVALID_REGISTER = 13"
| "err_code ERR_INVALID_CAPABILITY = 14"
| "err_code ERR_NO_RECEIVER = 15"
| "err_code ERR_PREEMPTED = 16"
| "err_code ERR_TIMEOUT = 17"
| "err_code ERR_SUSPENDED = 18"
| "err_code CONTINUE = - 1"

section \<open>What the proofs use of the configuration\<close>

lemma config_bounds:
  "0 < S3K_PROC_CNT" "S3K_PROC_CNT \<le> 256" "0 < S3K_CAP_CNT" "S3K_CAP_CNT < 2 ^ 16"
  "0 < S3K_SLOT_CNT" "S3K_SLOT_CNT \<le> 255" "S3K_MIN_HART \<le> S3K_MAX_HART"
  "16 * (S3K_MAX_HART - S3K_MIN_HART) < 64"
  "S3K_PMP_CNT \<le> 255" "S3K_CHAN_CNT < 2 ^ 16"
  by (simp_all add: S3K_PROC_CNT_def S3K_CAP_CNT_def S3K_SLOT_CNT_def S3K_MIN_HART_def
      S3K_MAX_HART_def S3K_PMP_CNT_def S3K_CHAN_CNT_def)

lemmas config_defs = S3K_PROC_CNT_def S3K_CAP_CNT_def S3K_CHAN_CNT_def S3K_SLOT_CNT_def
  S3K_MIN_HART_def S3K_MAX_HART_def S3K_HART_CNT_def SMP_def S3K_PMP_CNT_def
  S3K_RTC_HZ_def S3K_SLOT_LEN_def S3K_SCHED_TIME_def

lemma err_code_inject [simp]: "err_code a = err_code b \<longleftrightarrow> a = b"
  by (cases a; cases b) simp_all

end
