(* ===== verification/Caps.thy ===== *)
theory Caps
  imports Config
begin

text \<open>
  Capabilities: \<open>kernel/inc/cap_types.h\<close>, \<open>kernel/inc/cap_util.h\<close> and
  \<open>kernel/src/cap_util.c\<close>. The C union \<open>cap_t\<close> is a datatype with one constructor per
  capability type; \<open>raw_of_cap\<close> and \<open>cap_of_raw\<close> are its bit layout, the member \<open>raw\<close>
  of the union, through which a capability crosses the system-call boundary. The padding
  bits of the C layout are kept, so that the two views have the same information.
\<close>

section \<open>Types and constants\<close>

definition MIN_BLOCK_SIZE :: nat where "MIN_BLOCK_SIZE = 12"

definition MAX_BLOCK_SIZE :: nat where "MAX_BLOCK_SIZE = 27"

type_synonym napot_t = u64
type_synonym addr_t = u64
type_synonym block_t = u16
type_synonym chan_t = u16
type_synonym time_slot_t = u16
type_synonym pid_t = u16
type_synonym cidx_t = u16
type_synonym hart_t = u8
type_synonym tag_t = u8
type_synonym rwx_t = "3 word"
type_synonym pmp_slot_t = u8

datatype mem_perm_t = MEM_NONE | MEM_R | MEM_W | MEM_X | MEM_RW | MEM_RX | MEM_RWX

fun mem_perm_bits :: "mem_perm_t \<Rightarrow> rwx_t" where
  "mem_perm_bits MEM_NONE = 0"
| "mem_perm_bits MEM_R = 1"
| "mem_perm_bits MEM_W = 2"
| "mem_perm_bits MEM_X = 4"
| "mem_perm_bits MEM_RW = 1 OR 2"
| "mem_perm_bits MEM_RX = 1 OR 4"
| "mem_perm_bits MEM_RWX = 1 OR 2 OR 4"

text \<open>IPC modes and permissions, as the values of the C enumerations.\<close>

definition IPC_NOYIELD :: "4 word" where "IPC_NOYIELD = 0"

definition IPC_YIELD :: "4 word" where "IPC_YIELD = 1"

definition IPC_SDATA :: u8 where "IPC_SDATA = 1"

definition IPC_SCAP :: u8 where "IPC_SCAP = 2"

definition IPC_CDATA :: u8 where "IPC_CDATA = 4"

definition IPC_CCAP :: u8 where "IPC_CCAP = 8"

datatype capty = CAPTY_NONE | CAPTY_TIME | CAPTY_MEMORY | CAPTY_PMP
  | CAPTY_MONITOR | CAPTY_CHANNEL | CAPTY_SOCKET | CAPTY_UNKNOWN "4 word"

fun capty_code :: "capty \<Rightarrow> 4 word" where
  "capty_code CAPTY_NONE = 0"
| "capty_code CAPTY_TIME = 1"
| "capty_code CAPTY_MEMORY = 2"
| "capty_code CAPTY_PMP = 3"
| "capty_code CAPTY_MONITOR = 4"
| "capty_code CAPTY_CHANNEL = 5"
| "capty_code CAPTY_SOCKET = 6"
| "capty_code (CAPTY_UNKNOWN t) = t"

text \<open>
  The union \<open>cap_t\<close>. The fields stand in the order of the C structures after the type
  tag. \<open>NoCap\<close> carries the 60 bits beside the type, which are zero in every empty entry
  of the capability table; \<open>OtherCap\<close> is the raw value with one of the nine type codes
  that no capability has.
\<close>

datatype cap =
    NoCap "60 word"
  | TimeCap "4 word" hart_t time_slot_t time_slot_t time_slot_t
      \<comment> \<open>padding, hart, bgn, mrk, end\<close>
  | MemCap rwx_t bool tag_t block_t block_t block_t
      \<comment> \<open>rwx, lck, tag, bgn, mrk, end\<close>
  | PmpCap rwx_t bool pmp_slot_t "48 word"
      \<comment> \<open>rwx, used, slot, addr\<close>
  | MonCap "12 word" pid_t pid_t pid_t
      \<comment> \<open>padding, bgn, mrk, end\<close>
  | ChanCap "12 word" chan_t chan_t chan_t
      \<comment> \<open>padding, bgn, mrk, end\<close>
  | SockCap "4 word" u8 chan_t u32
      \<comment> \<open>mode, perm, chan, tag\<close>
  | OtherCap "4 word" "60 word"
      \<comment> \<open>type code, rest\<close>

fun cap_type :: "cap \<Rightarrow> capty" where
  "cap_type (NoCap r) = CAPTY_NONE"
| "cap_type (TimeCap p h b m e) = CAPTY_TIME"
| "cap_type (MemCap rwx l t b m e) = CAPTY_MEMORY"
| "cap_type (PmpCap rwx u sl a) = CAPTY_PMP"
| "cap_type (MonCap p b m e) = CAPTY_MONITOR"
| "cap_type (ChanCap p b m e) = CAPTY_CHANNEL"
| "cap_type (SockCap mo pe ch tg) = CAPTY_SOCKET"
| "cap_type (OtherCap t r) = CAPTY_UNKNOWN t"

section \<open>The bit layout\<close>

text \<open>
  The members of the union as bit fields of the 64-bit value, least significant bit
  first, as the RISC-V ABI lays them out.
\<close>

fun raw_of_cap :: "cap \<Rightarrow> u64" where
  "raw_of_cap (NoCap r) = push_bit 4 (ucast r)"
| "raw_of_cap (TimeCap p h b m e) =
     1 OR push_bit 4 (ucast p) OR push_bit 8 (ucast h) OR push_bit 16 (ucast b)
     OR push_bit 32 (ucast m) OR push_bit 48 (ucast e)"
| "raw_of_cap (MemCap rwx lck t b m e) =
     2 OR push_bit 4 (ucast rwx) OR push_bit 7 (of_bool lck) OR push_bit 8 (ucast t)
     OR push_bit 16 (ucast b) OR push_bit 32 (ucast m) OR push_bit 48 (ucast e)"
| "raw_of_cap (PmpCap rwx used sl a) =
     3 OR push_bit 4 (ucast rwx) OR push_bit 7 (of_bool used) OR push_bit 8 (ucast sl)
     OR push_bit 16 (ucast a)"
| "raw_of_cap (MonCap p b m e) =
     4 OR push_bit 4 (ucast p) OR push_bit 16 (ucast b) OR push_bit 32 (ucast m)
     OR push_bit 48 (ucast e)"
| "raw_of_cap (ChanCap p b m e) =
     5 OR push_bit 4 (ucast p) OR push_bit 16 (ucast b) OR push_bit 32 (ucast m)
     OR push_bit 48 (ucast e)"
| "raw_of_cap (SockCap mo pe ch tg) =
     6 OR push_bit 4 (ucast mo) OR push_bit 8 (ucast pe) OR push_bit 16 (ucast ch)
     OR push_bit 32 (ucast tg)"
| "raw_of_cap (OtherCap t r) = ucast t OR push_bit 4 (ucast r)"

definition cap_of_raw :: "u64 \<Rightarrow> cap" where
  "cap_of_raw w =
    (let t = (ucast w :: 4 word)
     in if t = 0 then NoCap (ucast (drop_bit 4 w))
        else if t = 1 then TimeCap (ucast (drop_bit 4 w)) (ucast (drop_bit 8 w))
          (ucast (drop_bit 16 w)) (ucast (drop_bit 32 w)) (ucast (drop_bit 48 w))
        else if t = 2 then MemCap (ucast (drop_bit 4 w)) (bit w 7) (ucast (drop_bit 8 w))
          (ucast (drop_bit 16 w)) (ucast (drop_bit 32 w)) (ucast (drop_bit 48 w))
        else if t = 3 then PmpCap (ucast (drop_bit 4 w)) (bit w 7) (ucast (drop_bit 8 w))
          (ucast (drop_bit 16 w))
        else if t = 4 then MonCap (ucast (drop_bit 4 w)) (ucast (drop_bit 16 w))
          (ucast (drop_bit 32 w)) (ucast (drop_bit 48 w))
        else if t = 5 then ChanCap (ucast (drop_bit 4 w)) (ucast (drop_bit 16 w))
          (ucast (drop_bit 32 w)) (ucast (drop_bit 48 w))
        else if t = 6 then SockCap (ucast (drop_bit 4 w)) (ucast (drop_bit 8 w))
          (ucast (drop_bit 16 w)) (ucast (drop_bit 32 w))
        else OtherCap t (ucast (drop_bit 4 w)))"

section \<open>Constructors, \<open>cap_util.c\<close>\<close>

text \<open>
  \<open>pad\<close> stands for the padding bits, which the C constructors leave uninitialised.
\<close>

definition cap_mk_time ::
  "4 word \<Rightarrow> hart_t \<Rightarrow> time_slot_t \<Rightarrow> time_slot_t \<Rightarrow> cap option" where
  "cap_mk_time pad hart bgn end' = do {
     KASSERT (bgn < end');
     KASSERT (S3K_MIN_HART \<le> unat hart);
     KASSERT (unat hart \<le> S3K_MAX_HART);
     KASSERT (unat end' \<le> S3K_SLOT_CNT);
     Some (TimeCap pad hart bgn bgn end')
   }"

definition cap_mk_memory :: "addr_t \<Rightarrow> addr_t \<Rightarrow> rwx_t \<Rightarrow> cap option" where
  "cap_mk_memory bgn end' rwx =
    (let tag = drop_bit MAX_BLOCK_SIZE bgn
     in do {
       KASSERT (bgn < end');
       KASSERT (end' \<le> push_bit MAX_BLOCK_SIZE (tag + 1));
       let b = ucast (drop_bit MIN_BLOCK_SIZE (bgn - push_bit MAX_BLOCK_SIZE tag));
       let e = ucast (drop_bit MIN_BLOCK_SIZE (end' - push_bit MAX_BLOCK_SIZE tag));
       Some (MemCap rwx False (ucast tag) b b e)
     })"

definition cap_mk_pmp :: "napot_t \<Rightarrow> rwx_t \<Rightarrow> cap" where
  "cap_mk_pmp addr rwx = PmpCap rwx False 0 (ucast addr)"

definition cap_mk_monitor :: "12 word \<Rightarrow> pid_t \<Rightarrow> pid_t \<Rightarrow> cap option" where
  "cap_mk_monitor pad bgn end' = do {
     KASSERT (bgn < end');
     KASSERT (unat end' \<le> S3K_PROC_CNT);
     Some (MonCap pad bgn bgn end')
   }"

definition cap_mk_channel :: "12 word \<Rightarrow> chan_t \<Rightarrow> chan_t \<Rightarrow> cap option" where
  "cap_mk_channel pad bgn end' = do {
     KASSERT (bgn < end');
     KASSERT (unat end' \<le> S3K_CHAN_CNT);
     Some (ChanCap pad bgn bgn end')
   }"

definition cap_mk_socket :: "chan_t \<Rightarrow> 4 word \<Rightarrow> u8 \<Rightarrow> u32 \<Rightarrow> cap" where
  "cap_mk_socket chan mode perm tag = SockCap mode perm chan tag"

section \<open>Addresses\<close>

definition tag_block_to_addr :: "tag_t \<Rightarrow> block_t \<Rightarrow> addr_t" where
  "tag_block_to_addr tag block =
     push_bit MAX_BLOCK_SIZE (ucast tag) + push_bit MIN_BLOCK_SIZE (ucast block)"

definition pmp_napot_decode :: "u64 \<Rightarrow> u64 \<times> u64" where
  "pmp_napot_decode addr =
     (push_bit 2 ((addr + 1) AND addr), push_bit 2 (((addr + 1) XOR addr) + 1))"

section \<open>Validity of a capability given by a user process\<close>

fun cap_is_valid :: "cap \<Rightarrow> bool" where
  "cap_is_valid (TimeCap p h b m e) \<longleftrightarrow> b < e \<and> b = m"
| "cap_is_valid (MemCap rwx lck t b m e) \<longleftrightarrow> \<not> lck \<and> b < e \<and> m = b"
| "cap_is_valid (PmpCap rwx used sl a) \<longleftrightarrow> \<not> used \<and> sl = 0"
| "cap_is_valid (MonCap p b m e) \<longleftrightarrow> b < e \<and> b = m"
| "cap_is_valid (ChanCap p b m e) \<longleftrightarrow> b < e \<and> b = m"
| "cap_is_valid (SockCap mo pe ch tg) \<longleftrightarrow> mo = IPC_YIELD \<or> mo = IPC_NOYIELD"
| "cap_is_valid c \<longleftrightarrow> False"

section \<open>The layout is a bijection\<close>

text \<open>A capability whose type code is the one of its constructor.\<close>

fun cap_canonical :: "cap \<Rightarrow> bool" where
  "cap_canonical (OtherCap t r) \<longleftrightarrow> 6 < t"
| "cap_canonical c \<longleftrightarrow> True"

lemma word4_cases:
  fixes t :: "4 word"
  assumes "t \<noteq> 0" "t \<noteq> 1" "t \<noteq> 2" "t \<noteq> 3" "t \<noteq> 4" "t \<noteq> 5" "t \<noteq> 6"
  shows "6 < t"
  using assms by unat_arith

text \<open>Decoding the fields of each layout, for any value of the type tag \<open>t\<close>.\<close>

lemma range_layout:
  fixes t p :: "4 word" and h :: u8 and b m e :: u16 and w :: u64
  assumes "w = ucast t OR push_bit 4 (ucast p) OR push_bit 8 (ucast h)
    OR push_bit 16 (ucast b) OR push_bit 32 (ucast m) OR push_bit 48 (ucast e)"
  shows "ucast w = t" "ucast (drop_bit 4 w) = p" "ucast (drop_bit 8 w) = h"
    "ucast (drop_bit 16 w) = b" "ucast (drop_bit 32 w) = m" "ucast (drop_bit 48 w) = e"
  unfolding assms
  by (rule bit_word_eqI; auto simp: bit_simps dest: bit_imp_le_length)+

lemma mem_layout:
  fixes t :: "4 word" and r :: "3 word" and h :: u8 and b m e :: u16 and w :: u64
  assumes "w = ucast t OR push_bit 4 (ucast r) OR push_bit 7 (of_bool l) OR push_bit 8 (ucast h)
    OR push_bit 16 (ucast b) OR push_bit 32 (ucast m) OR push_bit 48 (ucast e)"
  shows "ucast w = t" "ucast (drop_bit 4 w) = r" "bit w 7 = l" "ucast (drop_bit 8 w) = h"
    "ucast (drop_bit 16 w) = b" "ucast (drop_bit 32 w) = m" "ucast (drop_bit 48 w) = e"
proof -
  show "bit w 7 = l"
    unfolding assms by (auto simp: bit_simps dest: bit_imp_le_length)
qed (unfold assms, (rule bit_word_eqI; auto simp: bit_simps dest: bit_imp_le_length)+)

lemma pmp_layout:
  fixes t :: "4 word" and r :: "3 word" and h :: u8 and a :: "48 word" and w :: u64
  assumes "w = ucast t OR push_bit 4 (ucast r) OR push_bit 7 (of_bool l) OR push_bit 8 (ucast h)
    OR push_bit 16 (ucast a)"
  shows "ucast w = t" "ucast (drop_bit 4 w) = r" "bit w 7 = l" "ucast (drop_bit 8 w) = h"
    "ucast (drop_bit 16 w) = a"
proof -
  show "bit w 7 = l"
    unfolding assms by (auto simp: bit_simps dest: bit_imp_le_length)
qed (unfold assms, (rule bit_word_eqI; auto simp: bit_simps dest: bit_imp_le_length)+)

lemma slice_layout:
  fixes t :: "4 word" and p :: "12 word" and b m e :: u16 and w :: u64
  assumes "w = ucast t OR push_bit 4 (ucast p)
    OR push_bit 16 (ucast b) OR push_bit 32 (ucast m) OR push_bit 48 (ucast e)"
  shows "ucast w = t" "ucast (drop_bit 4 w) = p"
    "ucast (drop_bit 16 w) = b" "ucast (drop_bit 32 w) = m" "ucast (drop_bit 48 w) = e"
  unfolding assms
  by (rule bit_word_eqI; auto simp: bit_simps dest: bit_imp_le_length)+

lemma sock_layout:
  fixes t mo :: "4 word" and pe :: u8 and ch :: u16 and tg :: u32 and w :: u64
  assumes "w = ucast t OR push_bit 4 (ucast mo) OR push_bit 8 (ucast pe)
    OR push_bit 16 (ucast ch) OR push_bit 32 (ucast tg)"
  shows "ucast w = t" "ucast (drop_bit 4 w) = mo" "ucast (drop_bit 8 w) = pe"
    "ucast (drop_bit 16 w) = ch" "ucast (drop_bit 32 w) = tg"
  unfolding assms
  by (rule bit_word_eqI; auto simp: bit_simps dest: bit_imp_le_length)+

lemma plain_layout:
  fixes t :: "4 word" and r :: "60 word" and w :: u64
  assumes "w = ucast t OR push_bit 4 (ucast r)"
  shows "ucast w = t" "ucast (drop_bit 4 w) = r"
  unfolding assms
  by (rule bit_word_eqI; auto simp: bit_simps dest: bit_imp_le_length)+

lemma cap_roundtrip_lemma: "cap_canonical c \<Longrightarrow> cap_of_raw (raw_of_cap c) = c"
proof (cases c)
  case (NoCap r)
  then show ?thesis
    using plain_layout [of "raw_of_cap c" 0 r] by (simp add: cap_of_raw_def)
next
  case (TimeCap p h b m e)
  then show ?thesis
    using range_layout [of "raw_of_cap c" 1 p h b m e] by (simp add: cap_of_raw_def)
next
  case (MemCap r l h b m e)
  then show ?thesis
    using mem_layout [of "raw_of_cap c" 2 r l h b m e] by (simp add: cap_of_raw_def)
next
  case (PmpCap r l h a)
  then show ?thesis
    using pmp_layout [of "raw_of_cap c" 3 r l h a] by (simp add: cap_of_raw_def)
next
  case (MonCap p b m e)
  then show ?thesis
    using slice_layout [of "raw_of_cap c" 4 p b m e] by (simp add: cap_of_raw_def)
next
  case (ChanCap p b m e)
  then show ?thesis
    using slice_layout [of "raw_of_cap c" 5 p b m e] by (simp add: cap_of_raw_def)
next
  case (SockCap mo pe ch tg)
  then show ?thesis
    using sock_layout [of "raw_of_cap c" 6 mo pe ch tg] by (simp add: cap_of_raw_def)
next
  case (OtherCap t r)
  moreover assume "cap_canonical c"
  ultimately show ?thesis
    using plain_layout [of "raw_of_cap c" t r] by (auto simp: cap_of_raw_def)
qed

text \<open>
  Words agree from bit \<open>k\<close> on when the field at \<open>k\<close> and everything above it agree; the
  chain of these steps from bit 64 down to bit 0 shows that the fields determine the word.
\<close>

lemma drop_bit_step:
  fixes v w :: u64
  assumes f: "(ucast (drop_bit k v) :: 'a::len word) = ucast (drop_bit k w)"
    and up: "drop_bit (k + LENGTH('a)) v = drop_bit (k + LENGTH('a)) w"
  shows "drop_bit k v = drop_bit k w"
proof (rule bit_word_eqI)
  fix n
  assume n: "n < LENGTH(64)"
  show "bit (drop_bit k v) n = bit (drop_bit k w) n"
  proof (cases "n < LENGTH('a)")
    case True
    from f have "bit (ucast (drop_bit k v) :: 'a word) n = bit (ucast (drop_bit k w) :: 'a word) n"
      by simp
    with True n show ?thesis by (simp add: bit_simps)
  next
    case False
    then obtain d where d: "n = LENGTH('a) + d"
      using le_Suc_ex not_less by blast
    from up have "bit (drop_bit (k + LENGTH('a)) v) d = bit (drop_bit (k + LENGTH('a)) w) d"
      by simp
    then show ?thesis by (simp add: d bit_simps add.assoc)
  qed
qed

lemma drop_bit_step1:
  fixes v w :: u64
  assumes f: "bit v k = bit w k" and up: "drop_bit (Suc k) v = drop_bit (Suc k) w"
  shows "drop_bit k v = drop_bit k w"
proof (rule drop_bit_step [where 'a = 1])
  show "(ucast (drop_bit k v) :: 1 word) = ucast (drop_bit k w)"
    by (rule bit_word_eqI) (simp add: bit_simps f)
  show "drop_bit (k + LENGTH(1)) v = drop_bit (k + LENGTH(1)) w"
    using up by simp
qed

lemma drop_bit_top: "drop_bit 64 (w :: u64) = 0"
  by (rule bit_word_eqI) (simp add: bit_simps)

lemmas drop_bit_chain =
  drop_bit_step [of 4, where 'a = 3, simplified]
  drop_bit_step1 [of _ 7, simplified]
  drop_bit_step [of 4, where 'a = 4, simplified]
  drop_bit_step [of 4, where 'a = 12, simplified]
  drop_bit_step [of 4, where 'a = 60, simplified]
  drop_bit_step [of 8, where 'a = 8, simplified]
  drop_bit_step [of 16, where 'a = 16, simplified]
  drop_bit_step [of 16, where 'a = 48, simplified]
  drop_bit_step [of 32, where 'a = 16, simplified]
  drop_bit_step [of 32, where 'a = 32, simplified]
  drop_bit_step [of 48, where 'a = 16, simplified]

lemma raw_roundtrip_lemma: "raw_of_cap (cap_of_raw w) = w"
proof -
  define v where "v = raw_of_cap (cap_of_raw w)"
  note top = drop_bit_top [of v] drop_bit_top [of w]
  note d = v_def cap_of_raw_def Let_def
  consider "(ucast w :: 4 word) = 0" | "(ucast w :: 4 word) = 1" | "(ucast w :: 4 word) = 2"
    | "(ucast w :: 4 word) = 3" | "(ucast w :: 4 word) = 4" | "(ucast w :: 4 word) = 5"
    | "(ucast w :: 4 word) = 6" | "6 < (ucast w :: 4 word)"
    using word4_cases by blast
  then have "v = w"
  proof cases
    case 1
    then have "v = ucast (0 :: 4 word) OR push_bit 4 (ucast (ucast (drop_bit 4 w) :: 60 word))"
      by (simp add: d)
    note l = plain_layout [OF this]
    have "drop_bit 4 v = drop_bit 4 w"
      by (intro drop_bit_chain(5)) (simp_all add: l top)
    then show ?thesis
      by (intro drop_bit_step [of 0 v w, where 'a = 4, simplified]) (simp_all add: l 1)
  next
    case 2
    then have "v = ucast (1 :: 4 word) OR push_bit 4 (ucast (ucast (drop_bit 4 w) :: 4 word))
      OR push_bit 8 (ucast (ucast (drop_bit 8 w) :: u8))
      OR push_bit 16 (ucast (ucast (drop_bit 16 w) :: u16))
      OR push_bit 32 (ucast (ucast (drop_bit 32 w) :: u16))
      OR push_bit 48 (ucast (ucast (drop_bit 48 w) :: u16))"
      by (simp add: d)
    note l = range_layout [OF this]
    have "drop_bit 4 v = drop_bit 4 w"
      by (intro drop_bit_chain(3,6,7,9,11)) (simp_all add: l top)
    then show ?thesis
      by (intro drop_bit_step [of 0 v w, where 'a = 4, simplified]) (simp_all add: l 2)
  next
    case 3
    then have "v = ucast (2 :: 4 word) OR push_bit 4 (ucast (ucast (drop_bit 4 w) :: 3 word))
      OR push_bit 7 (of_bool (bit w 7))
      OR push_bit 8 (ucast (ucast (drop_bit 8 w) :: u8))
      OR push_bit 16 (ucast (ucast (drop_bit 16 w) :: u16))
      OR push_bit 32 (ucast (ucast (drop_bit 32 w) :: u16))
      OR push_bit 48 (ucast (ucast (drop_bit 48 w) :: u16))"
      by (simp add: d)
    note l = mem_layout [OF this]
    have "drop_bit 4 v = drop_bit 4 w"
      by (intro drop_bit_chain(1,2,6,7,9,11)) (simp_all add: l top)
    then show ?thesis
      by (intro drop_bit_step [of 0 v w, where 'a = 4, simplified]) (simp_all add: l 3)
  next
    case 4
    then have "v = ucast (3 :: 4 word) OR push_bit 4 (ucast (ucast (drop_bit 4 w) :: 3 word))
      OR push_bit 7 (of_bool (bit w 7))
      OR push_bit 8 (ucast (ucast (drop_bit 8 w) :: u8))
      OR push_bit 16 (ucast (ucast (drop_bit 16 w) :: 48 word))"
      by (simp add: d)
    note l = pmp_layout [OF this]
    have "drop_bit 4 v = drop_bit 4 w"
      by (intro drop_bit_chain(1,2,6,8)) (simp_all add: l top)
    then show ?thesis
      by (intro drop_bit_step [of 0 v w, where 'a = 4, simplified]) (simp_all add: l 4)
  next
    case 5
    then have "v = ucast (4 :: 4 word) OR push_bit 4 (ucast (ucast (drop_bit 4 w) :: 12 word))
      OR push_bit 16 (ucast (ucast (drop_bit 16 w) :: u16))
      OR push_bit 32 (ucast (ucast (drop_bit 32 w) :: u16))
      OR push_bit 48 (ucast (ucast (drop_bit 48 w) :: u16))"
      by (simp add: d)
    note l = slice_layout [OF this]
    have "drop_bit 4 v = drop_bit 4 w"
      by (intro drop_bit_chain(4,7,9,11)) (simp_all add: l top)
    then show ?thesis
      by (intro drop_bit_step [of 0 v w, where 'a = 4, simplified]) (simp_all add: l 5)
  next
    case 6
    then have "v = ucast (5 :: 4 word) OR push_bit 4 (ucast (ucast (drop_bit 4 w) :: 12 word))
      OR push_bit 16 (ucast (ucast (drop_bit 16 w) :: u16))
      OR push_bit 32 (ucast (ucast (drop_bit 32 w) :: u16))
      OR push_bit 48 (ucast (ucast (drop_bit 48 w) :: u16))"
      by (simp add: d)
    note l = slice_layout [OF this]
    have "drop_bit 4 v = drop_bit 4 w"
      by (intro drop_bit_chain(4,7,9,11)) (simp_all add: l top)
    then show ?thesis
      by (intro drop_bit_step [of 0 v w, where 'a = 4, simplified]) (simp_all add: l 6)
  next
    case 7
    then have "v = ucast (6 :: 4 word) OR push_bit 4 (ucast (ucast (drop_bit 4 w) :: 4 word))
      OR push_bit 8 (ucast (ucast (drop_bit 8 w) :: u8))
      OR push_bit 16 (ucast (ucast (drop_bit 16 w) :: u16))
      OR push_bit 32 (ucast (ucast (drop_bit 32 w) :: u32))"
      by (simp add: d)
    note l = sock_layout [OF this]
    have "drop_bit 4 v = drop_bit 4 w"
      by (intro drop_bit_chain(3,6,7,10)) (simp_all add: l top)
    then show ?thesis
      by (intro drop_bit_step [of 0 v w, where 'a = 4, simplified]) (simp_all add: l 7)
  next
    case 8
    then have n: "(ucast w :: 4 word) \<notin> {0, 1, 2, 3, 4, 5, 6}" by auto
    then have "v = ucast (ucast w :: 4 word) OR push_bit 4 (ucast (ucast (drop_bit 4 w) :: 60 word))"
      by (simp add: d)
    note l = plain_layout [OF this]
    have "drop_bit 4 v = drop_bit 4 w"
      by (intro drop_bit_chain(5)) (simp_all add: l top)
    then show ?thesis
      by (intro drop_bit_step [of 0 v w, where 'a = 4, simplified]) (simp_all add: l)
  qed
  then show ?thesis by (simp add: v_def)
qed

lemma cap_of_raw_canonical: "cap_canonical (cap_of_raw w)"
  by (auto simp: cap_of_raw_def Let_def intro: word4_cases)

section \<open>Block addresses\<close>

lemma unat_tag_block: "unat (tag_block_to_addr tag block) = unat tag * 2 ^ 27 + unat block * 2 ^ 12"
proof -
  have t: "unat tag < 2 ^ 8" and b: "unat block < 2 ^ 16"
    using unsigned_less [of tag] unsigned_less [of block] by simp_all
  have "unat (push_bit MAX_BLOCK_SIZE (ucast tag) :: u64) = unat tag * 2 ^ 27"
    using t by (simp add: MAX_BLOCK_SIZE_def unsigned_push_bit_eq unat_ucast_up push_bit_nat_def
        take_bit_nat_eq_self)
  moreover have "unat (push_bit MIN_BLOCK_SIZE (ucast block) :: u64) = unat block * 2 ^ 12"
    using b by (simp add: MIN_BLOCK_SIZE_def unsigned_push_bit_eq unat_ucast_up push_bit_nat_def
        take_bit_nat_eq_self)
  ultimately show ?thesis
    using t b unfolding tag_block_to_addr_def by (subst unat_add_lem [THEN iffD1]) simp_all
qed

lemma unat_push_drop:
  fixes a :: u64
  shows "unat (drop_bit n a) = unat a div 2 ^ n" "n < 64 \<Longrightarrow> unat (push_bit n a) = (unat a * 2 ^ n) mod 2 ^ 64"
proof -
  have "take_bit 64 (unat a) = unat a" using unsigned_less [of a, where 'a = nat] by (simp add: take_bit_nat_eq_self)
  then show "unat (drop_bit n a) = unat a div 2 ^ n" by (simp add: unsigned_drop_bit_eq drop_bit_nat_def)
  show "n < 64 \<Longrightarrow> unat (push_bit n a) = (unat a * 2 ^ n) mod 2 ^ 64"
    by (simp add: unsigned_push_bit_eq push_bit_nat_def take_bit_nat_def)
qed

lemma block_addr:
  fixes a tag :: u64
  assumes a: "4096 dvd unat a" "unat a < 2 ^ 35" and t: "unat tag * 2 ^ 27 \<le> unat a" "unat a \<le> (unat tag + 1) * 2 ^ 27"
    and small: "unat tag < 256"
  shows "tag_block_to_addr (ucast tag) (ucast (drop_bit MIN_BLOCK_SIZE (a - push_bit MAX_BLOCK_SIZE tag))) = a"
proof -
  have m: "unat (push_bit MAX_BLOCK_SIZE tag) = unat tag * 2 ^ 27"
    using t a(2) by (simp add: MAX_BLOCK_SIZE_def unat_push_drop)
  have d: "unat (a - push_bit MAX_BLOCK_SIZE tag) = unat a - unat tag * 2 ^ 27"
    using t(1) m by (subst unat_sub) (simp_all add: word_le_nat_alt)
  let ?b = "drop_bit MIN_BLOCK_SIZE (a - push_bit MAX_BLOCK_SIZE tag)"
  have b: "unat ?b = (unat a - unat tag * 2 ^ 27) div 4096" by (simp add: MIN_BLOCK_SIZE_def unat_push_drop d)
  have "(unat a - unat tag * 2 ^ 27) \<le> 2 ^ 27" using t(2) by simp
  then have b16: "unat ?b \<le> 2 ^ 15" unfolding b by simp
  have "unat (tag_block_to_addr (ucast tag) (ucast ?b)) = unat (ucast tag :: u8) * 2 ^ 27 + unat (ucast ?b :: u16) * 2 ^ 12"
    by (rule unat_tag_block)
  also have "\<dots> = unat tag * 2 ^ 27 + unat ?b * 2 ^ 12"
    using small b16 by (simp add: unsigned_ucast_eq take_bit_nat_eq_self)
  also have "\<dots> = unat a"
  proof -
    have "4096 dvd unat a - unat tag * 2 ^ 27" using a(1) by (intro dvd_diff_nat) simp_all
    then show ?thesis unfolding b using t(1) by simp
  qed
  finally show ?thesis by (simp add: word_unat_eq_iff)
qed

lemma mk_memory_addr:
  assumes cap: "cap_mk_memory bgn end' rwx = Some (MemCap r l tag b m e)"
    and al: "4096 dvd unat bgn" "4096 dvd unat end'" and small: "unat end' < 2 ^ 35"
  shows "tag_block_to_addr tag b = bgn \<and> tag_block_to_addr tag e = end' \<and> r = rwx \<and> \<not> l \<and> m = b"
proof -
  let ?t = "drop_bit MAX_BLOCK_SIZE bgn"
  from cap have c: "bgn < end'" "end' \<le> push_bit MAX_BLOCK_SIZE (?t + 1)" "tag = ucast ?t" "r = rwx" "\<not> l" "m = b"
    "b = ucast (drop_bit MIN_BLOCK_SIZE (bgn - push_bit MAX_BLOCK_SIZE ?t))"
    "e = ucast (drop_bit MIN_BLOCK_SIZE (end' - push_bit MAX_BLOCK_SIZE ?t))"
    by (auto simp: cap_mk_memory_def KASSERT_def Let_def split: if_splits)
  have t: "unat ?t = unat bgn div 2 ^ 27" by (simp add: MAX_BLOCK_SIZE_def unat_push_drop)
  have lt: "unat bgn < unat end'" using c(1) by (simp add: word_less_nat_alt)
  have "unat ?t < 256" using lt small unfolding t by (simp add: div_less_iff_less_mult)
  moreover have "unat end' \<le> (unat ?t + 1) * 2 ^ 27"
    using c(2) calculation by (simp add: word_le_nat_alt MAX_BLOCK_SIZE_def unat_push_drop unat_word_ariths)
  moreover have "unat ?t * 2 ^ 27 \<le> unat bgn" "unat bgn \<le> (unat ?t + 1) * 2 ^ 27"
    unfolding t using dividend_less_div_times [of "2 ^ 27" "unat bgn"] by simp_all
  ultimately show ?thesis
    using block_addr [of bgn ?t] block_addr [of end' ?t] al lt small c by simp
qed

section \<open>Properties\<close>

text \<open>C34. The 64-bit representation of capabilities loses nothing: decoding a register value and
  encoding it again gives the same value, and a capability with a proper type code survives the
  way through a register.\<close>

theorem cap_raw_roundtrip:
  "raw_of_cap (cap_of_raw w) = w \<and> (cap_canonical c \<longrightarrow> cap_of_raw (raw_of_cap c) = c)"
  by (simp add: raw_roundtrip_lemma cap_roundtrip_lemma)

theorem cap_raw_roundtrip_witness:
  "cap_of_raw (raw_of_cap (TimeCap 0 2 1 1 7)) = TimeCap 0 2 1 1 7"
  using cap_raw_roundtrip [of 0 "TimeCap 0 2 1 1 7"] by simp

text \<open>The memory capability that the kernel makes for a range of pages describes that range:
  the block addresses of its begin and its end are the bounds, its mark is at the begin, and it
  is not locked.\<close>

theorem mk_memory_range:
  assumes "cap_mk_memory bgn end' rwx = Some (MemCap r l tag b m e)"
    and "4096 dvd unat bgn" "4096 dvd unat end'" "unat end' < 2 ^ 35"
  shows "tag_block_to_addr tag b = bgn \<and> tag_block_to_addr tag e = end' \<and> r = rwx \<and> \<not> l \<and> m = b"
  by (rule mk_memory_addr [OF assms])

end
