(* ===== verification/KState.thy ===== *)
theory KState
  imports Caps
begin

text \<open>
  The state of the kernel: the capability table (\<open>kernel/src/cap_table.c\<close>), the process
  control blocks (\<open>kernel/inc/proc.h\<close>), the IPC channels (\<open>kernel/src/cap_ipc.c\<close>), the
  schedule (\<open>kernel/src/sched.c\<close>), the capability lock and the device registers that the
  kernel reads and writes (\<open>common/src/drivers/time.c\<close>, \<open>kernel/inc/csr.h\<close>).

  A pointer \<open>cte_t\<close> is the index of the entry in the capability table, a pointer
  \<open>proc_t *\<close> is the index of the process (which is its process identifier), and \<open>NULL\<close>
  is \<open>None\<close>.

  The clock \<open>MTIME\<close> and the register \<open>mip\<close> are volatile: every read may give a new
  value. They are read from two sequences that the environment chooses, indexed by the
  number of reads made so far.
\<close>

section \<open>Process control blocks\<close>

type_synonym cte_t = nat
type_synonym proc_ptr = nat

datatype reg_t = REG_PC | REG_RA | REG_SP | REG_GP | REG_TP | REG_T0 | REG_T1 | REG_T2
  | REG_S0 | REG_S1 | REG_A0 | REG_A1 | REG_A2 | REG_A3 | REG_A4 | REG_A5 | REG_A6 | REG_A7
  | REG_S2 | REG_S3 | REG_S4 | REG_S5 | REG_S6 | REG_S7 | REG_S8 | REG_S9 | REG_S10
  | REG_S11 | REG_T3 | REG_T4 | REG_T5 | REG_T6 | REG_TPC | REG_TSP | REG_EPC | REG_ESP
  | REG_ECAUSE | REG_EVAL | REG_SERVTIME

text \<open>The registers in the order of the array \<open>regs\<close>; its length is \<open>REG_CNT\<close>.\<close>

definition all_regs :: "reg_t list" where
  "all_regs = [REG_PC, REG_RA, REG_SP, REG_GP, REG_TP, REG_T0, REG_T1, REG_T2, REG_S0,
    REG_S1, REG_A0, REG_A1, REG_A2, REG_A3, REG_A4, REG_A5, REG_A6, REG_A7, REG_S2, REG_S3,
    REG_S4, REG_S5, REG_S6, REG_S7, REG_S8, REG_S9, REG_S10, REG_S11, REG_T3, REG_T4,
    REG_T5, REG_T6, REG_TPC, REG_TSP, REG_EPC, REG_ESP, REG_ECAUSE, REG_EVAL, REG_SERVTIME]"

definition REG_CNT :: nat where "REG_CNT = length all_regs"

text \<open>The element \<open>regs[i]\<close>: there is none when \<open>i\<close> is out of range.\<close>

definition reg_of :: "nat \<Rightarrow> reg_t option" where
  "reg_of i = (if i < REG_CNT then Some (all_regs ! i) else None)"

text \<open>Process states are a 64-bit set of flags with the channel in the upper 16 bits.\<close>

definition PSF_BUSY :: u64 where "PSF_BUSY = 1"

definition PSF_BLOCKED :: u64 where "PSF_BLOCKED = 2"

definition PSF_SUSPENDED :: u64 where "PSF_SUSPENDED = 4"

record proc_t =
  pstate :: u64
  regs :: "reg_t \<Rightarrow> u64"
  pmpcfg :: "u8 list"
  pmpaddr :: "u64 list"
  pid :: pid_t
  timeout :: u64
  serv_time :: u64

section \<open>Capability table, channels, kernel state\<close>

record cte =
  prev_off :: nat
  next_off :: nat
  cap_fld :: cap

record channel =
  server :: "proc_ptr option"
  client :: "proc_ptr option"
  cap_buf :: "cte_t option"

record kstate =
  ctable :: "cte list"
  procs :: "proc_t list"
  channels :: "channel list"
  slots :: "u64 list"
  cap_lock :: u32
  mtimecmp :: "nat \<Rightarrow> u64"
  csr_pmpaddr :: "u64 list"
  csr_pmpcfg :: "u8 list"
  mhartid :: nat
  mtime :: "nat \<Rightarrow> u64"
  mip :: "nat \<Rightarrow> u64"
  reads :: nat

section \<open>Clock, timer and preemption\<close>

definition time_get :: "kstate \<Rightarrow> u64 \<times> kstate" where
  "time_get s = (mtime s (reads s), s\<lparr>reads := reads s + 1\<rparr>)"

definition timeout_get :: "kstate \<Rightarrow> nat \<Rightarrow> u64" where
  "timeout_get s hartid = mtimecmp s hartid"

definition timeout_set :: "kstate \<Rightarrow> nat \<Rightarrow> u64 \<Rightarrow> kstate" where
  "timeout_set s hartid t = s\<lparr>mtimecmp := (mtimecmp s)(hartid := t)\<rparr>"

definition kernel_preempt :: "kstate \<Rightarrow> bool \<times> kstate" where
  "kernel_preempt s = (mip s (reads s) AND 0x80 \<noteq> 0, s\<lparr>reads := reads s + 1\<rparr>)"

section \<open>Writing a process control block\<close>

definition upd_proc :: "kstate \<Rightarrow> proc_ptr \<Rightarrow> (proc_t \<Rightarrow> proc_t) \<Rightarrow> kstate" where
  "upd_proc s p f = s\<lparr>procs := (procs s)[p := f (procs s ! p)]\<rparr>"

definition set_reg :: "kstate \<Rightarrow> proc_ptr \<Rightarrow> reg_t \<Rightarrow> u64 \<Rightarrow> kstate" where
  "set_reg s p r v = upd_proc s p (\<lambda>q. q\<lparr>regs := (regs q)(r := v)\<rparr>)"

definition get_reg :: "kstate \<Rightarrow> proc_ptr \<Rightarrow> reg_t \<Rightarrow> u64" where
  "get_reg s p r = regs (procs s ! p) r"

definition set_ctable :: "kstate \<Rightarrow> cte list \<Rightarrow> kstate" where
  "set_ctable s ct = s\<lparr>ctable := ct\<rparr>"

end
