(* ===== verification/CapTable.thy ===== *)
theory CapTable
  imports KState
begin

text \<open>
  The capability table, \<open>kernel/src/cap_table.c\<close>. Every process has \<open>S3K_CAP_CNT\<close>
  entries; the occupied entries of all processes are linked into one ring by the offsets
  \<open>prev\<close> and \<open>next\<close>. A derived capability is inserted right after its parent, so the ring
  is the derivation order that revocation walks through.

  The abstract view of the table is the list of the occupied entries in ring order. The
  locale \<open>derivation_list\<close> states the contract of the table in terms of that list, the
  interpretation at the end proves that the linked table meets it.
\<close>

section \<open>Operations\<close>

definition ctable_get :: "nat \<Rightarrow> nat \<Rightarrow> cte_t option" where
  "ctable_get p index = do {
     KASSERT (p < S3K_PROC_CNT);
     KASSERT (index < S3K_CAP_CNT);
     Some (p * S3K_CAP_CNT + index)
   }"

definition cte_cap :: "cte list \<Rightarrow> cte_t \<Rightarrow> cap" where
  "cte_cap ct c = cap_fld (ct ! c)"

definition cte_next :: "cte list \<Rightarrow> cte_t \<Rightarrow> cte_t" where
  "cte_next ct c = next_off (ct ! c)"

definition cte_prev :: "cte list \<Rightarrow> cte_t \<Rightarrow> cte_t" where
  "cte_prev ct c = prev_off (ct ! c)"

definition cte_is_empty :: "cte list \<Rightarrow> cte_t \<Rightarrow> bool" where
  "cte_is_empty ct c \<longleftrightarrow> cap_type (cte_cap ct c) = CAPTY_NONE"

definition cte_set_next :: "cte list \<Rightarrow> cte_t \<Rightarrow> cte_t \<Rightarrow> cte list" where
  "cte_set_next ct c n = ct[c := (ct ! c)\<lparr>next_off := n\<rparr>]"

definition cte_set_prev :: "cte list \<Rightarrow> cte_t \<Rightarrow> cte_t \<Rightarrow> cte list" where
  "cte_set_prev ct c p = ct[c := (ct ! c)\<lparr>prev_off := p\<rparr>]"

definition cte_set_cap :: "cte list \<Rightarrow> cte_t \<Rightarrow> cap \<Rightarrow> cte list" where
  "cte_set_cap ct c cp = ct[c := (ct ! c)\<lparr>cap_fld := cp\<rparr>]"

definition cte_pid :: "cte_t \<Rightarrow> nat" where
  "cte_pid c = c div S3K_CAP_CNT"

definition cte_move :: "cte list \<Rightarrow> cte_t \<Rightarrow> cte_t \<Rightarrow> cte list" where
  "cte_move ct src dst =
    (if src = dst then ct
     else let ct1 = cte_set_cap ct dst (cte_cap ct src);
              ct2 = cte_set_cap ct1 src (NoCap 0);
              ct3 = cte_set_prev ct2 dst (cte_prev ct2 src);
              ct4 = cte_set_next ct3 dst (cte_next ct3 src);
              ct5 = cte_set_next ct4 (cte_prev ct4 dst) dst
          in cte_set_prev ct5 (cte_next ct5 dst) dst)"

text \<open>The C function returns the deleted capability as well; no caller uses it.\<close>

definition cte_delete :: "cte list \<Rightarrow> cte_t \<Rightarrow> cte list" where
  "cte_delete ct c =
    (let ct1 = cte_set_cap ct c (NoCap 0);
         ct2 = cte_set_next ct1 (cte_prev ct1 c) (cte_next ct1 c)
     in cte_set_prev ct2 (cte_next ct2 c) (cte_prev ct2 c))"

definition cte_insert :: "cte list \<Rightarrow> cte_t \<Rightarrow> cap \<Rightarrow> cte_t \<Rightarrow> cte list" where
  "cte_insert ct c cp prv =
    (let ct1 = cte_set_prev ct c prv;
         ct2 = cte_set_next ct1 c (cte_next ct1 prv);
         ct3 = cte_set_next ct2 (cte_prev ct2 c) c;
         ct4 = cte_set_prev ct3 (cte_next ct3 c) c
     in cte_set_cap ct4 c cp)"

section \<open>Reading a table after a write\<close>

named_theorems cte_simps \<open>reads of a written capability table\<close>

lemma cte_set_simps [simp, cte_simps]:
  "length (cte_set_next ct c n) = length ct"
  "length (cte_set_prev ct c n) = length ct"
  "length (cte_set_cap ct c cp) = length ct"
  "cte_cap (cte_set_next ct c n) x = cte_cap ct x"
  "cte_cap (cte_set_prev ct c n) x = cte_cap ct x"
  "cte_next (cte_set_prev ct c n) x = cte_next ct x"
  "cte_next (cte_set_cap ct c cp) x = cte_next ct x"
  "cte_prev (cte_set_next ct c n) x = cte_prev ct x"
  "cte_prev (cte_set_cap ct c cp) x = cte_prev ct x"
  by (cases "c < length ct"; simp add: cte_set_next_def cte_set_prev_def cte_set_cap_def
      cte_cap_def cte_next_def cte_prev_def nth_list_update list_update_beyond)+

lemma cte_get_set [cte_simps]:
  "c < length ct \<Longrightarrow> cte_cap (cte_set_cap ct c cp) x = (if x = c then cp else cte_cap ct x)"
  "c < length ct \<Longrightarrow> cte_next (cte_set_next ct c n) x = (if x = c then n else cte_next ct x)"
  "c < length ct \<Longrightarrow> cte_prev (cte_set_prev ct c n) x = (if x = c then n else cte_prev ct x)"
  by (simp_all add: cte_set_next_def cte_set_prev_def cte_set_cap_def
      cte_cap_def cte_next_def cte_prev_def nth_list_update)

lemma length_cte_ops [simp]:
  "length (cte_insert ct c cp p) = length ct"
  "length (cte_delete ct c) = length ct"
  "length (cte_move ct src dst) = length ct"
  by (simp_all add: cte_insert_def cte_delete_def cte_move_def Let_def)

lemma cte_cap_insert:
  "c < length ct \<Longrightarrow> cte_cap (cte_insert ct c cp p) x = (if x = c then cp else cte_cap ct x)"
  by (simp add: cte_insert_def Let_def cte_simps)

lemma cte_cap_delete:
  "c < length ct \<Longrightarrow> cte_cap (cte_delete ct c) x = (if x = c then NoCap 0 else cte_cap ct x)"
  by (simp add: cte_delete_def Let_def cte_simps)

lemma cte_cap_delete_other: "x \<noteq> c \<Longrightarrow> cte_cap (cte_delete ct c) x = cte_cap ct x"
  by (cases "c < length ct")
    (simp_all add: cte_cap_delete, simp add: cte_delete_def Let_def, simp add: cte_set_cap_def list_update_beyond)

lemma cte_cap_move:
  "\<lbrakk>src < length ct; dst < length ct; src \<noteq> dst\<rbrakk> \<Longrightarrow> cte_cap (cte_move ct src dst) x =
    (if x = src then NoCap 0 else if x = dst then cte_cap ct src else cte_cap ct x)"
  by (simp add: cte_move_def Let_def cte_simps)

lemmas cte_cap_ops = cte_cap_insert cte_cap_delete cte_cap_move

lemma cte_pid_ctable_get:
  "ctable_get p i = Some c \<Longrightarrow> cte_pid c = p \<and> c < S3K_PROC_CNT * S3K_CAP_CNT"
proof -
  assume "ctable_get p i = Some c"
  then have c: "c = p * S3K_CAP_CNT + i" and p: "p < S3K_PROC_CNT" and i: "i < S3K_CAP_CNT"
    by (auto simp: ctable_get_def KASSERT_def bind_eq_Some_conv split: if_splits)
  from p have "Suc p * S3K_CAP_CNT \<le> S3K_PROC_CNT * S3K_CAP_CNT"
    by (intro mult_le_mono1) simp
  with c i show ?thesis
    by (simp add: cte_pid_def)
qed

section \<open>Successors in a ring\<close>

text \<open>The element after \<open>x\<close> in the list \<open>xs\<close> read as a ring.\<close>

definition ring_next :: "'a list \<Rightarrow> 'a \<Rightarrow> 'a" where
  "ring_next xs x = hd (tl (dropWhile (\<lambda>y. y \<noteq> x) xs) @ xs)"

lemma ring_next_split: "x \<notin> set us \<Longrightarrow> ring_next (us @ x # vs) x = hd (vs @ us @ [x])"
proof -
  assume "x \<notin> set us"
  then have "dropWhile (\<lambda>y. y \<noteq> x) (us @ x # vs) = x # vs"
    by (induction us) auto
  then show ?thesis
    by (cases vs; cases us) (simp_all add: ring_next_def)
qed

lemma ring_splitE:
  assumes "x \<in> set xs"
  obtains us vs where "xs = us @ x # vs" "x \<notin> set us" "ring_next xs x = hd (vs @ us @ [x])"
proof -
  from assms obtain us vs where "xs = us @ x # vs" "x \<notin> set us"
    by (meson split_list_first)
  with that show ?thesis by (simp add: ring_next_split)
qed

lemma ring_next_in:
  assumes "x \<in> set xs"
  shows "ring_next xs x \<in> set xs"
  using assms
proof (rule ring_splitE)
  fix us vs
  assume "xs = us @ x # vs" "ring_next xs x = hd (vs @ us @ [x])"
  then show ?thesis by (cases vs; cases us) auto
qed

lemma ring_next_nth:
  assumes "distinct xs" "i < length xs"
  shows "ring_next xs (xs ! i) = xs ! (Suc i mod length xs)"
proof -
  have split: "xs = take i xs @ xs ! i # drop (Suc i) xs"
    using assms(2) by (simp add: id_take_nth_drop)
  have "xs ! i \<notin> set (take i xs)"
    using assms by (auto simp: in_set_conv_nth nth_eq_iff_index_eq)
  then have "ring_next xs (xs ! i) = hd (drop (Suc i) xs @ take i xs @ [xs ! i])"
    using split ring_next_split by metis
  also have "\<dots> = xs ! (Suc i mod length xs)"
  proof (cases "Suc i < length xs")
    case True
    then show ?thesis by (simp add: hd_append hd_drop_conv_nth)
  next
    case False
    with assms(2) have "Suc i = length xs" by simp
    with assms(2) show ?thesis
      by (cases i; cases xs) (simp_all add: hd_append hd_conv_nth)
  qed
  finally show ?thesis .
qed

lemma Suc_mod_inj: "\<lbrakk>i < n; j < n; Suc i mod n = Suc j mod n\<rbrakk> \<Longrightarrow> i = j"
  by (cases "Suc i = n"; cases "Suc j = n") auto

lemma ring_next_inj:
  assumes "distinct xs" "x \<in> set xs" "y \<in> set xs"
  shows "ring_next xs x = ring_next xs y \<longleftrightarrow> x = y"
proof
  assume eq: "ring_next xs x = ring_next xs y"
  from assms(2,3) obtain i j where ij: "x = xs ! i" "i < length xs" "y = xs ! j" "j < length xs"
    by (auto simp: in_set_conv_nth)
  with eq assms(1) have "xs ! (Suc i mod length xs) = xs ! (Suc j mod length xs)"
    by (simp add: ring_next_nth)
  moreover have "Suc i mod length xs < length xs" "Suc j mod length xs < length xs"
    using ij(2) by (cases xs; simp)+
  ultimately have "Suc i mod length xs = Suc j mod length xs"
    using assms(1) by (simp add: nth_eq_iff_index_eq)
  with ij show "x = y" using Suc_mod_inj by blast
qed simp

lemma ring_next_neq:
  assumes "distinct xs" "x \<in> set xs" "2 \<le> length xs"
  shows "ring_next xs x \<noteq> x"
  using assms(2)
proof (rule ring_splitE)
  fix us vs
  assume "xs = us @ x # vs" "ring_next xs x = hd (vs @ us @ [x])"
  with assms show ?thesis by (cases vs; cases us) auto
qed

lemma ring_next_surj:
  assumes "distinct xs" "x \<in> set xs"
  obtains y where "y \<in> set xs" "ring_next xs y = x"
proof -
  have "inj_on (ring_next xs) (set xs)"
    using assms(1) by (auto simp: inj_on_def ring_next_inj)
  moreover have "ring_next xs ` set xs \<subseteq> set xs"
    by (auto simp: ring_next_in)
  ultimately have "ring_next xs ` set xs = set xs"
    by (simp add: endo_inj_surj)
  with assms(2) that show ?thesis by (metis imageE)
qed

text \<open>How the successor changes when an element is inserted, removed or replaced.\<close>

fun insert_after :: "'a \<Rightarrow> 'a \<Rightarrow> 'a list \<Rightarrow> 'a list" where
  "insert_after p c [] = []"
| "insert_after p c (x # xs) = (if x = p then x # c # xs else x # insert_after p c xs)"

lemma insert_after_split: "p \<notin> set us \<Longrightarrow> insert_after p c (us @ p # vs) = us @ p # c # vs"
  by (induction us) auto

lemma set_insert_after [simp]: "p \<in> set xs \<Longrightarrow> set (insert_after p c xs) = insert c (set xs)"
  by (induction xs) auto

lemma distinct_insert_after:
  "distinct xs \<Longrightarrow> c \<notin> set xs \<Longrightarrow> distinct (insert_after p c xs)"
proof (induction xs)
  case (Cons x xs)
  have "set (insert_after p c xs) \<subseteq> insert c (set xs)"
    by (induction xs) auto
  with Cons show ?case by auto
qed simp

lemma ring_next_insert:
  assumes "distinct xs" "p \<in> set xs" "c \<notin> set xs" "x \<in> set xs"
  shows "ring_next (insert_after p c xs) x = (if x = p then c else ring_next xs x)"
    and "ring_next (insert_after p c xs) c = ring_next xs p"
proof -
  from assms(2) obtain us vs where xs: "xs = us @ p # vs" "p \<notin> set us"
    by (meson split_list_first)
  then have ins: "insert_after p c xs = (us @ [p]) @ c # vs"
    by (simp add: insert_after_split)
  show "ring_next (insert_after p c xs) c = ring_next xs p"
    unfolding ins using assms(3) xs
    by (subst ring_next_split) (auto simp: ring_next_split hd_append)
  show "ring_next (insert_after p c xs) x = (if x = p then c else ring_next xs x)"
  proof (cases "x \<in> set us")
    case True
    then obtain a b where us: "us = a @ x # b" "x \<notin> set a"
      by (meson split_list_first)
    have eqs: "insert_after p c xs = a @ x # (b @ p # c # vs)" "xs = a @ x # (b @ p # vs)"
      using ins xs(1) us(1) by simp_all
    have "ring_next (insert_after p c xs) x = hd ((b @ p # c # vs) @ a @ [x])"
      "ring_next xs x = hd ((b @ p # vs) @ a @ [x])"
      unfolding eqs(1) by (rule ring_next_split [OF us(2)])
        (subst eqs(2), rule ring_next_split [OF us(2)])
    with us xs show ?thesis by (auto simp: hd_append)
  next
    case False
    show ?thesis
    proof (cases "x = p")
      case True
      then show ?thesis
        using ring_next_split [OF xs(2), of "c # vs"] ins by simp
    next
      case F2: False
      with False assms(4) xs obtain a b where vs: "vs = a @ x # b" "x \<notin> set a"
        by (auto dest: split_list_first)
      have "x \<noteq> c" using assms(3,4) by blast
      with False F2 vs have n: "x \<notin> set (us @ p # c # a)" "x \<notin> set (us @ p # a)"
        by simp_all
      have eqs: "insert_after p c xs = (us @ p # c # a) @ x # b" "xs = (us @ p # a) @ x # b"
        using ins xs(1) vs(1) by simp_all
      have "ring_next (insert_after p c xs) x = hd (b @ (us @ p # c # a) @ [x])"
        "ring_next xs x = hd (b @ (us @ p # a) @ [x])"
        unfolding eqs(1) by (rule ring_next_split [OF n(1)])
          (subst eqs(2), rule ring_next_split [OF n(2)])
      with F2 show ?thesis by (auto simp: hd_append)
    qed
  qed
qed

lemma ring_next_remove:
  assumes "distinct xs" "c \<in> set xs" "x \<in> set xs" "x \<noteq> c"
  shows "ring_next (remove1 c xs) x = (if ring_next xs x = c then ring_next xs c else ring_next xs x)"
proof -
  from assms(2) obtain us vs where xs: "xs = us @ c # vs" "c \<notin> set us"
    by (meson split_list_first)
  with assms(1) have rem: "remove1 c xs = us @ vs" by (simp add: remove1_append)
  have c: "ring_next xs c = hd (vs @ us @ [c])"
    using xs by (simp add: ring_next_split)
  show ?thesis
  proof (cases "x \<in> set us")
    case True
    then obtain a b where us: "us = a @ x # b" "x \<notin> set a"
      by (meson split_list_first)
    have eqs: "remove1 c xs = a @ x # (b @ vs)" "xs = a @ x # (b @ c # vs)"
      using rem xs(1) us(1) by simp_all
    have "ring_next (remove1 c xs) x = hd ((b @ vs) @ a @ [x])"
      "ring_next xs x = hd ((b @ c # vs) @ a @ [x])"
      unfolding eqs(1) by (rule ring_next_split [OF us(2)])
        (subst eqs(2), rule ring_next_split [OF us(2)])
    with us xs c assms(1) show ?thesis
      by (cases b; cases vs) (auto simp: hd_append)
  next
    case False
    with assms(3,4) xs obtain a b where vs: "vs = a @ x # b" "x \<notin> set a"
      by (auto dest: split_list_first)
    have n: "x \<notin> set (us @ a)" "x \<notin> set (us @ c # a)"
      using False vs assms(4) by auto
    have eqs: "remove1 c xs = (us @ a) @ x # b" "xs = (us @ c # a) @ x # b"
      using rem xs(1) vs(1) by simp_all
    have "ring_next (remove1 c xs) x = hd (b @ (us @ a) @ [x])"
      "ring_next xs x = hd (b @ (us @ c # a) @ [x])"
      unfolding eqs(1) by (rule ring_next_split [OF n(1)])
        (subst eqs(2), rule ring_next_split [OF n(2)])
    with vs xs c assms(1) show ?thesis
      by (cases b; cases us; cases a) (auto simp: hd_append)
  qed
qed

lemma ring_next_map:
  assumes "inj_on f (set xs)" "x \<in> set xs"
  shows "ring_next (map f xs) (f x) = f (ring_next xs x)"
  using assms(2)
proof (rule ring_splitE)
  fix us vs
  assume xs: "xs = us @ x # vs" "x \<notin> set us" "ring_next xs x = hd (vs @ us @ [x])"
  from xs(1,2) assms(1) have "f x \<notin> f ` set us"
    by (auto simp: inj_on_def)
  then have "ring_next (map f xs) (f x) = hd (map f vs @ map f us @ [f x])"
    using ring_next_split [of "f x" "map f us" "map f vs"] by (simp add: xs(1))
  also have "\<dots> = f (hd (vs @ us @ [x]))"
    by (cases vs; cases us) simp_all
  finally show ?thesis by (simp add: xs(3))
qed

section \<open>The table as a ring of its occupied entries\<close>

definition occupied :: "cte list \<Rightarrow> nat set" where
  "occupied ct = {c. c < length ct \<and> \<not> cte_is_empty ct c}"

definition ring :: "cte list \<Rightarrow> cte_t list \<Rightarrow> bool" where
  "ring ct xs \<longleftrightarrow> distinct xs \<and> set xs = occupied ct \<and>
     (\<forall>x \<in> set xs. cte_next ct x = ring_next xs x \<and> cte_prev ct (ring_next xs x) = x)"

lemma ringD:
  assumes "ring ct xs"
  shows "distinct xs" "set xs = occupied ct" "x \<in> set xs \<Longrightarrow> x < length ct"
    "x \<in> set xs \<Longrightarrow> cte_next ct x = ring_next xs x"
    "x \<in> set xs \<Longrightarrow> cte_prev ct (ring_next xs x) = x"
    "x \<in> set xs \<Longrightarrow> ring_next xs x < length ct"
  using assms ring_next_in [of x xs] by (auto simp: ring_def occupied_def)

lemma ring_set_cap:
  assumes "ring ct xs" "c \<in> set xs" "cap_type cp \<noteq> CAPTY_NONE"
  shows "ring (cte_set_cap ct c cp) xs"
proof -
  have "c < length ct" "\<not> cte_is_empty ct c"
    using ringD(2) [OF assms(1)] assms(2) by (auto simp: occupied_def)
  with assms(3) have "occupied (cte_set_cap ct c cp) = occupied ct"
    by (auto simp: occupied_def cte_is_empty_def cte_get_set)
  with assms(1) show ?thesis by (simp add: ring_def)
qed

lemma ring_insert:
  assumes r: "ring ct xs" and p: "p \<in> set xs" and c: "c < length ct" "c \<notin> set xs"
    and cp: "cap_type cp \<noteq> CAPTY_NONE"
  shows "ring (cte_insert ct c cp p) (insert_after p c xs)"
proof -
  let ?ct = "cte_insert ct c cp p"
  note d = ringD [OF r]
  have pl: "p < length ct" "p \<noteq> c" "ring_next xs p \<noteq> c"
    using p c d(3) [of p] ring_next_in [OF p] by auto
  have nxt: "cte_next ?ct x = (if x = c then ring_next xs p else if x = p then c else cte_next ct x)" for x
    using pl c d(4) [OF p] d(6) [OF p] by (simp add: cte_insert_def Let_def cte_simps)
  have prv: "cte_prev ?ct x = (if x = ring_next xs p then c else if x = c then p else cte_prev ct x)" for x
    using pl c d(4) [OF p] d(6) [OF p] by (simp add: cte_insert_def Let_def cte_simps)
  have occ: "occupied ?ct = insert c (occupied ct)"
    using c cp by (auto simp: occupied_def cte_is_empty_def cte_cap_insert)
  show ?thesis
    unfolding ring_def
  proof (intro conjI ballI)
    show "distinct (insert_after p c xs)" using d(1) c(2) by (rule distinct_insert_after)
    show "set (insert_after p c xs) = occupied ?ct" using p occ d(2) by simp
    fix x
    assume "x \<in> set (insert_after p c xs)"
    with p have x: "x = c \<or> x \<in> set xs" by simp
    note ri = ring_next_insert [OF d(1) p c(2)]
    show "cte_next ?ct x = ring_next (insert_after p c xs) x"
      using x c(2) ri(2) [OF p] ri(1) d(4) by (cases "x = c") (auto simp: nxt p)
    show "cte_prev ?ct (ring_next (insert_after p c xs) x) = x"
    proof (cases "x = c")
      case True
      with ri(2) [OF p] show ?thesis by (simp add: prv)
    next
      case False
      with x have x': "x \<in> set xs" by simp
      have "ring_next xs x \<noteq> c" using ring_next_in [OF x'] c(2) by blast
      with x' pl show ?thesis
        using ri(1) [OF x'] d(5) [OF x'] ring_next_inj [OF d(1) x' p] by (simp add: prv)
    qed
  qed
qed

lemma ring_delete:
  assumes r: "ring ct xs" and c: "c \<in> set xs"
  shows "ring (cte_delete ct c) (remove1 c xs)"
proof -
  let ?ct = "cte_delete ct c"
  note d = ringD [OF r]
  from ring_next_surj [OF d(1) c] obtain y where y: "y \<in> set xs" "ring_next xs y = c" .
  have prev_c: "cte_prev ct c = y" using d(5) [OF y(1)] y(2) by simp
  have len: "c < length ct" "y < length ct" "ring_next xs c < length ct"
    using c y d(3,6) by blast+
  have occ: "occupied ?ct = occupied ct - {c}"
    using len by (auto simp: occupied_def cte_is_empty_def cte_cap_delete)
  have rem: "set (remove1 c xs) = set xs - {c}" using d(1) by simp
  have nxt: "cte_next ?ct x = (if x = y then ring_next xs c else cte_next ct x)" for x
    using len d(4) [OF c] by (simp add: cte_delete_def Let_def cte_simps prev_c)
  have y_c: "y \<noteq> c" if "x \<in> set xs" "x \<noteq> c" for x
  proof -
    have "2 \<le> length xs"
      using that c d(1) by (cases xs rule: remdups_adj.cases) auto
    then show ?thesis using ring_next_neq [OF d(1) y(1)] y(2) by auto
  qed
  have prv: "cte_prev ?ct x = (if x = ring_next xs c then y else cte_prev ct x)"
    if "y \<noteq> c" for x
    using len d(4) [OF c] that by (simp add: cte_delete_def Let_def cte_simps prev_c)
  show ?thesis
    unfolding ring_def
  proof (intro conjI ballI)
    show "distinct (remove1 c xs)" using d(1) by simp
    show "set (remove1 c xs) = occupied ?ct" using occ rem d(2) by simp
    fix x
    assume "x \<in> set (remove1 c xs)"
    with rem have x: "x \<in> set xs" "x \<noteq> c" by auto
    note rr = ring_next_remove [OF d(1) c x]
    have eq: "ring_next xs x = c \<longleftrightarrow> x = y"
      using ring_next_inj [OF d(1) x(1) y(1)] y(2) by simp
    show "cte_next ?ct x = ring_next (remove1 c xs) x"
      using rr eq d(4) [OF x(1)] by (simp add: nxt)
    have "ring_next xs x = ring_next xs c \<longleftrightarrow> x = c"
      using ring_next_inj [OF d(1) x(1) c] .
    then show "cte_prev ?ct (ring_next (remove1 c xs) x) = x"
      using rr eq d(5) [OF x(1)] x(2) by (simp add: prv y_c [OF x])
  qed
qed

lemma ring_move:
  assumes r: "ring ct xs" and two: "2 \<le> length xs" and s: "src \<in> set xs"
    and dst: "dst < length ct" "dst \<notin> set xs"
  shows "ring (cte_move ct src dst) (map (\<lambda>x. if x = src then dst else x) xs)"
proof -
  let ?ct = "cte_move ct src dst" and ?f = "\<lambda>x. if x = src then dst else x"
  note d = ringD [OF r]
  from ring_next_surj [OF d(1) s] obtain y where y: "y \<in> set xs" "ring_next xs y = src" .
  have prev_s: "cte_prev ct src = y" using d(5) [OF y(1)] y(2) by simp
  have neq: "src \<noteq> dst" "y \<noteq> src" "y \<noteq> dst" "ring_next xs src \<noteq> dst" "ring_next xs src \<noteq> src"
    using s dst y ring_next_in [OF s] ring_next_neq [OF d(1) y(1) two] ring_next_neq [OF d(1) s two]
    by auto
  have len: "src < length ct" "y < length ct" "ring_next xs src < length ct"
    using s y d(3,6) by blast+
  have nxt: "cte_next ?ct x = (if x = y then dst else if x = dst then ring_next xs src else cte_next ct x)" for x
    using len dst neq d(4) [OF s] by (simp add: cte_move_def Let_def cte_simps prev_s)
  have prv: "cte_prev ?ct x = (if x = ring_next xs src then dst else if x = dst then y else cte_prev ct x)" for x
    using len dst neq d(4) [OF s] by (simp add: cte_move_def Let_def cte_simps prev_s)
  have occ: "occupied ?ct = insert dst (occupied ct - {src})"
    using len dst neq(1) s d(2) by (auto simp: occupied_def cte_is_empty_def cte_cap_move)
  have inj: "inj_on ?f (set xs)" using dst(2) by (auto simp: inj_on_def)
  have img: "set (map ?f xs) = insert dst (set xs - {src})" using s by auto
  show ?thesis
    unfolding ring_def
  proof (intro conjI ballI)
    show "distinct (map ?f xs)" using d(1) inj by (simp add: distinct_map)
    show "set (map ?f xs) = occupied ?ct" using occ img d(2) by simp
    fix z
    assume "z \<in> set (map ?f xs)"
    then obtain x where x: "x \<in> set xs" and z: "z = ?f x" by auto
    have rm: "ring_next (map ?f xs) z = ?f (ring_next xs x)"
      unfolding z by (rule ring_next_map [OF inj x])
    have eq: "ring_next xs x = src \<longleftrightarrow> x = y" "ring_next xs x = ring_next xs src \<longleftrightarrow> x = src"
      using ring_next_inj [OF d(1) x] y s by auto
    have xd: "x \<noteq> dst" "ring_next xs x \<noteq> dst" using x dst(2) ring_next_in [OF x] by auto
    show "cte_next ?ct z = ring_next (map ?f xs) z"
      using rm eq xd neq d(4) [OF x] by (auto simp: nxt z)
    show "cte_prev ?ct (ring_next (map ?f xs) z) = z"
      using rm eq xd neq d(5) [OF x] by (auto simp: prv z)
  qed
qed

section \<open>The contract of the table\<close>

text \<open>
  What the capability operations rely on: a table represents a list of occupied entries,
  reading the successor of an entry follows that list, and inserting, deleting, moving
  and overwriting act on it as list operations.
\<close>

locale derivation_list =
  fixes rep :: "'t \<Rightarrow> cte_t list \<Rightarrow> bool"
    and cap_at :: "'t \<Rightarrow> cte_t \<Rightarrow> cap"
    and room :: "'t \<Rightarrow> nat"
    and nxt :: "'t \<Rightarrow> cte_t \<Rightarrow> cte_t"
    and ins :: "'t \<Rightarrow> cte_t \<Rightarrow> cap \<Rightarrow> cte_t \<Rightarrow> 't"
    and del :: "'t \<Rightarrow> cte_t \<Rightarrow> 't"
    and mov :: "'t \<Rightarrow> cte_t \<Rightarrow> cte_t \<Rightarrow> 't"
    and put :: "'t \<Rightarrow> cte_t \<Rightarrow> cap \<Rightarrow> 't"
  assumes rep_distinct: "rep t xs \<Longrightarrow> distinct xs"
    and rep_set: "rep t xs \<Longrightarrow> set xs = {c. c < room t \<and> cap_type (cap_at t c) \<noteq> CAPTY_NONE}"
    and rep_nxt: "rep t xs \<Longrightarrow> x \<in> set xs \<Longrightarrow> nxt t x = ring_next xs x"
    and rep_ins: "\<lbrakk>rep t xs; p \<in> set xs; c < room t; c \<notin> set xs; cap_type cp \<noteq> CAPTY_NONE\<rbrakk>
      \<Longrightarrow> rep (ins t c cp p) (insert_after p c xs)"
    and rep_del: "rep t xs \<Longrightarrow> c \<in> set xs \<Longrightarrow> rep (del t c) (remove1 c xs)"
    and rep_mov: "\<lbrakk>rep t xs; 2 \<le> length xs; src \<in> set xs; dst < room t; dst \<notin> set xs\<rbrakk>
      \<Longrightarrow> rep (mov t src dst) (map (\<lambda>x. if x = src then dst else x) xs)"
    and rep_put: "\<lbrakk>rep t xs; c \<in> set xs; cap_type cp \<noteq> CAPTY_NONE\<rbrakk> \<Longrightarrow> rep (put t c cp) xs"
begin

lemma rep_next_split:
  assumes "rep t (us @ p # c # vs)"
  shows "nxt t p = c"
proof -
  have "p \<notin> set us" using rep_distinct [OF assms] by simp
  then have "ring_next (us @ p # c # vs) p = c"
    by (simp add: ring_next_split)
  with rep_nxt [OF assms, of p] show ?thesis by simp
qed

lemma rep_del_next:
  assumes "rep t (us @ p # c # vs)"
  shows "rep (del t (nxt t p)) (us @ p # vs)"
proof -
  have "c \<notin> set us" "c \<noteq> p" using rep_distinct [OF assms] by auto
  then have "remove1 c (us @ p # c # vs) = us @ p # vs" by (simp add: remove1_append)
  with rep_del [OF assms, of c] show ?thesis by (simp add: rep_next_split [OF assms])
qed

lemma next_after_ins:
  assumes "rep t xs" "p \<in> set xs" "c < room t" "c \<notin> set xs" "cap_type cp \<noteq> CAPTY_NONE"
  shows "nxt (ins t c cp p) p = c" "nxt (ins t c cp p) c = nxt t p"
proof -
  note i = rep_ins [OF assms]
  note n = rep_nxt [OF i] ring_next_insert [OF rep_distinct [OF assms(1)] assms(2,4,2)]
  show "nxt (ins t c cp p) p = c" using n assms(2) by simp
  show "nxt (ins t c cp p) c = nxt t p" using n assms(2) rep_nxt [OF assms(1,2)] by simp
qed

lemma remove1_insert_after:
  "c \<notin> set ys \<Longrightarrow> p \<noteq> c \<Longrightarrow> remove1 c (insert_after p c ys) = ys"
  by (induction ys) auto

lemma rep_ins_del:
  assumes "rep t xs" "p \<in> set xs" "c < room t" "c \<notin> set xs" "cap_type cp \<noteq> CAPTY_NONE"
  shows "rep (del (ins t c cp p) c) xs"
proof -
  have "c \<in> set (insert_after p c xs)" using assms(2) by simp
  moreover have "remove1 c (insert_after p c xs) = xs"
    using assms(2,4) by (intro remove1_insert_after) auto
  ultimately show ?thesis using rep_del [OF rep_ins [OF assms]] by metis
qed

end

interpretation ct: derivation_list ring cte_cap length cte_next cte_insert cte_delete cte_move
  cte_set_cap
proof unfold_locales
  fix t xs
  assume "ring t xs"
  then show "set xs = {c. c < length t \<and> cap_type (cte_cap t c) \<noteq> CAPTY_NONE}"
    by (simp add: ring_def occupied_def cte_is_empty_def)
qed (auto simp: ringD intro: ring_insert ring_delete ring_move ring_set_cap)

section \<open>Properties\<close>

text \<open>C12. On a table whose occupied entries form the ring \<open>xs\<close>, inserting after \<open>p\<close>, deleting and
  moving are the list operations on \<open>xs\<close>; moving needs at least one other entry.\<close>

theorem table_refines_list:
  assumes "ring ct xs" "x \<in> set xs" "c < length ct" "c \<notin> set xs" "cap_type cp \<noteq> CAPTY_NONE"
  shows "ring (cte_insert ct c cp x) (insert_after x c xs) \<and> ring (cte_delete ct x) (remove1 x xs)
    \<and> (2 \<le> length xs \<longrightarrow> ring (cte_move ct x c) (map (\<lambda>y. if y = x then c else y) xs))"
  using assms ct.rep_ins ct.rep_del ct.rep_mov by blast

definition ring2 :: "cte list" where
  "ring2 = [\<lparr>prev_off = 1, next_off = 1, cap_fld = MonCap 0 0 0 2\<rparr>,
            \<lparr>prev_off = 0, next_off = 0, cap_fld = MonCap 0 0 0 1\<rparr>,
            \<lparr>prev_off = 0, next_off = 0, cap_fld = NoCap 0\<rparr>]"

lemma ring2_ring: "ring ring2 [0, 1]"
proof -
  have "occupied ring2 = {0, 1}"
    by (auto simp: occupied_def ring2_def cte_is_empty_def cte_cap_def less_Suc_eq numeral_3_eq_3)
  then show ?thesis
    by (auto simp: ring_def ring_next_def ring2_def cte_next_def cte_prev_def)
qed

theorem table_refines_list_witness: "ring (cte_move ring2 0 2) [2, 1]"
  using table_refines_list [OF ring2_ring, of 0 2 "MonCap 0 0 0 1"] by (simp add: ring2_def)

text \<open>Inserting a capability and deleting it again gives a table with the same ring and the
  same capabilities.\<close>

theorem insert_delete_roundtrip:
  assumes "ring ct xs" "p \<in> set xs" "c < length ct" "c \<notin> set xs" "cap_type cp \<noteq> CAPTY_NONE"
    and "cte_cap ct c = NoCap 0"
  shows "ring (cte_delete (cte_insert ct c cp p) c) xs
    \<and> (\<forall>x < length ct. cte_cap (cte_delete (cte_insert ct c cp p) c) x = cte_cap ct x)"
  using assms ct.rep_ins_del [OF assms(1-5)] by (auto simp: cte_cap_ops)

text \<open>Moving the only capability of the system breaks the ring: the links of the new entry
  lead to the old one, which is empty.\<close>

theorem move_only_entry:
  assumes "ring ct [src]" "dst < length ct" "dst \<noteq> src"
  shows "cte_next (cte_move ct src dst) dst = src \<and> cte_is_empty (cte_move ct src dst) src
    \<and> \<not> (\<exists>xs. ring (cte_move ct src dst) xs)"
proof -
  let ?ct = "cte_move ct src dst"
  have "src \<in> occupied ct" using ringD(2) [OF assms(1)] by auto
  moreover have "ring_next [src] src = src" by (simp add: ring_next_def)
  ultimately have s: "src < length ct" "cte_next ct src = src" "cte_prev ct src = src" "\<not> cte_is_empty ct src"
    using ringD(4,5) [OF assms(1), of src] by (simp_all add: occupied_def)
  have n: "cte_next ?ct dst = src"
    using s assms(2,3) by (auto simp: cte_move_def Let_def cte_simps)
  moreover have e: "cte_is_empty ?ct src" "\<not> cte_is_empty ?ct dst"
    using s assms(2,3) by (simp_all add: cte_is_empty_def cte_cap_move)
  moreover have "\<not> ring ?ct xs" for xs
  proof
    assume r: "ring ?ct xs"
    then have "dst \<in> set xs" using e(2) assms(2) ringD(2) [OF r] by (simp add: occupied_def)
    from ringD(4) [OF r this] ring_next_in [OF this] n have "src \<in> set xs" by metis
    with e(1) ringD(2) [OF r] show False by (simp add: occupied_def)
  qed
  ultimately show ?thesis by blast
qed

end
