(* ===== verification/Proc.thy ===== *)
theory Proc
  imports CapTable
begin

text \<open>
  Process control blocks, \<open>kernel/src/proc.c\<close>. A process is ready (state 0), busy (it runs
  on some hart), suspended, or blocked on a channel; \<open>busy\<close> and \<open>suspended\<close> may be set
  together, and \<open>busy\<close> and \<open>blocked\<close> are set together between the system call that blocks
  a process and its release. The atomic read-modify-write operations of the multicore
  build act on a state that no other hart changes in between, so the compare-and-swap
  of \<open>proc_acquire\<close> and \<open>proc_ipc_acquire\<close> succeeds.
\<close>

section \<open>Operations\<close>

definition proc_get :: "kstate \<Rightarrow> nat \<Rightarrow> proc_ptr option" where
  "proc_get s p = do {
     KASSERT (p < S3K_PROC_CNT);
     KASSERT (unat (pid (procs s ! p)) = p);
     Some p
   }"

definition proc_get_state :: "kstate \<Rightarrow> proc_ptr \<Rightarrow> u64 \<times> kstate" where
  "proc_get_state s p =
    (let st = pstate (procs s ! p)
     in if st = PSF_BLOCKED
        then (let (t, s') = time_get s
              in if timeout (procs s ! p) \<le> t then (0, s') else (st, s'))
        else (st, s))"

definition proc_acquire :: "kstate \<Rightarrow> proc_ptr \<Rightarrow> bool \<times> kstate" where
  "proc_acquire s p =
    (if pstate (procs s ! p) AND (PSF_BUSY OR PSF_SUSPENDED) \<noteq> 0 then (False, s)
     else let (t, s') = time_get s
          in if t < timeout (procs s ! p) then (False, s')
             else (True, upd_proc s' p (\<lambda>q. q\<lparr>pstate := PSF_BUSY\<rparr>)))"

definition proc_release :: "kstate \<Rightarrow> proc_ptr \<Rightarrow> kstate option" where
  "proc_release s p = do {
     KASSERT (pstate (procs s ! p) AND PSF_BUSY \<noteq> 0);
     Some (upd_proc s p (\<lambda>q. q\<lparr>pstate :=
       (if SMP then pstate q XOR PSF_BUSY else pstate q AND NOT PSF_BUSY)\<rparr>))
   }"

definition proc_suspend :: "kstate \<Rightarrow> proc_ptr \<Rightarrow> kstate" where
  "proc_suspend s p =
    (let prev = pstate (procs s ! p);
         s1 = upd_proc s p (\<lambda>q. q\<lparr>pstate := pstate q OR PSF_SUSPENDED\<rparr>)
     in if prev AND PSF_BLOCKED \<noteq> 0
        then set_reg (upd_proc s1 p (\<lambda>q. q\<lparr>pstate := PSF_SUSPENDED\<rparr>)) p REG_T0
               (err_code ERR_SUSPENDED)
        else s1)"

definition proc_resume :: "kstate \<Rightarrow> proc_ptr \<Rightarrow> kstate" where
  "proc_resume s p =
    (let s1 = (if pstate (procs s ! p) = PSF_SUSPENDED
               then upd_proc s p (\<lambda>q. q\<lparr>timeout := 0\<rparr>) else s)
     in upd_proc s1 p (\<lambda>q. q\<lparr>pstate := pstate q AND NOT PSF_SUSPENDED\<rparr>))"

text \<open>The state of a process that waits on a channel.\<close>

definition blocked_on :: "chan_t \<Rightarrow> u64" where
  "blocked_on chan = PSF_BLOCKED OR push_bit 48 (ucast chan)"

definition proc_ipc_wait :: "kstate \<Rightarrow> proc_ptr \<Rightarrow> chan_t \<Rightarrow> kstate option" where
  "proc_ipc_wait s p chan = do {
     KASSERT (pstate (procs s ! p) = PSF_BUSY);
     Some (upd_proc s p (\<lambda>q. q\<lparr>pstate := blocked_on chan OR PSF_BUSY\<rparr>))
   }"

definition proc_ipc_acquire :: "kstate \<Rightarrow> proc_ptr \<Rightarrow> chan_t \<Rightarrow> bool \<times> kstate" where
  "proc_ipc_acquire s p chan =
    (if pstate (procs s ! p) \<noteq> blocked_on chan then (False, s)
     else let (t, s') = time_get s
          in if timeout (procs s ! p) \<le> t then (False, s')
             else (True, upd_proc s' p (\<lambda>q. q\<lparr>pstate := PSF_BUSY\<rparr>)))"

definition proc_is_suspended :: "kstate \<Rightarrow> proc_ptr \<Rightarrow> bool" where
  "proc_is_suspended s p \<longleftrightarrow> pstate (procs s ! p) = PSF_SUSPENDED"

text \<open>The arrays \<open>pmpcfg\<close> and \<open>pmpaddr\<close> are indexed by a slot number that the caller checks.\<close>

definition proc_pmp_avail :: "kstate \<Rightarrow> proc_ptr \<Rightarrow> pmp_slot_t \<Rightarrow> bool option" where
  "proc_pmp_avail s p slot =
    (if unat slot < S3K_PMP_CNT then Some (pmpcfg (procs s ! p) ! unat slot = 0) else None)"

definition proc_pmp_load ::
  "kstate \<Rightarrow> proc_ptr \<Rightarrow> pmp_slot_t \<Rightarrow> rwx_t \<Rightarrow> u64 \<Rightarrow> kstate option" where
  "proc_pmp_load s p slot rwx addr =
    (if unat slot < S3K_PMP_CNT
     then Some (upd_proc s p (\<lambda>q. q\<lparr>
            pmpcfg := (pmpcfg q)[unat slot := ucast rwx OR 0x18],
            pmpaddr := (pmpaddr q)[unat slot := addr]\<rparr>))
     else None)"

definition proc_pmp_unload :: "kstate \<Rightarrow> proc_ptr \<Rightarrow> pmp_slot_t \<Rightarrow> kstate option" where
  "proc_pmp_unload s p slot =
    (if unat slot < S3K_PMP_CNT
     then Some (upd_proc s p (\<lambda>q. q\<lparr>pmpcfg := (pmpcfg q)[unat slot := 0]\<rparr>))
     else None)"

definition proc_pmp_sync :: "kstate \<Rightarrow> proc_ptr \<Rightarrow> kstate" where
  "proc_pmp_sync s p =
     s\<lparr>csr_pmpaddr := pmpaddr (procs s ! p), csr_pmpcfg := pmpcfg (procs s ! p)\<rparr>"

section \<open>Reading a state after a write to a process\<close>

named_theorems ksimps \<open>fields of a kernel state after an operation\<close>

lemma upd_proc_frame [simp, ksimps]:
  "ctable (upd_proc s p f) = ctable s" "channels (upd_proc s p f) = channels s"
  "slots (upd_proc s p f) = slots s" "cap_lock (upd_proc s p f) = cap_lock s"
  "mtimecmp (upd_proc s p f) = mtimecmp s" "mhartid (upd_proc s p f) = mhartid s"
  "csr_pmpaddr (upd_proc s p f) = csr_pmpaddr s" "csr_pmpcfg (upd_proc s p f) = csr_pmpcfg s"
  "mtime (upd_proc s p f) = mtime s" "mip (upd_proc s p f) = mip s"
  "reads (upd_proc s p f) = reads s" "length (procs (upd_proc s p f)) = length (procs s)"
  by (simp_all add: upd_proc_def)

lemma procs_upd_proc [ksimps]:
  "p < length (procs s) \<Longrightarrow> procs (upd_proc s p f) ! q =
    (if q = p then f (procs s ! p) else procs s ! q)"
  by (simp add: upd_proc_def nth_list_update)

lemma upd_proc_upd_proc [simp]:
  "upd_proc (upd_proc s p f) p g = upd_proc s p (g \<circ> f)"
  by (cases "p < length (procs s)") (simp_all add: upd_proc_def list_update_beyond)

lemma time_get_eq [simp]:
  "time_get s = (mtime s (reads s), s\<lparr>reads := reads s + 1\<rparr>)"
  by (simp add: time_get_def)

lemma set_reg_frame [simp, ksimps]:
  "ctable (set_reg s p r v) = ctable s" "channels (set_reg s p r v) = channels s"
  "slots (set_reg s p r v) = slots s" "cap_lock (set_reg s p r v) = cap_lock s"
  "mtimecmp (set_reg s p r v) = mtimecmp s" "mhartid (set_reg s p r v) = mhartid s"
  "csr_pmpaddr (set_reg s p r v) = csr_pmpaddr s" "csr_pmpcfg (set_reg s p r v) = csr_pmpcfg s"
  "mtime (set_reg s p r v) = mtime s" "mip (set_reg s p r v) = mip s"
  "reads (set_reg s p r v) = reads s" "length (procs (set_reg s p r v)) = length (procs s)"
  by (simp_all add: set_reg_def)

lemma procs_set_reg [ksimps]:
  "p < length (procs s) \<Longrightarrow> procs (set_reg s p r v) ! q =
    (if q = p then (procs s ! p)\<lparr>regs := (regs (procs s ! p))(r := v)\<rparr> else procs s ! q)"
  by (simp add: set_reg_def procs_upd_proc)

lemma get_set_reg:
  "p < length (procs s) \<Longrightarrow> get_reg (set_reg s p r v) p r' = (if r' = r then v else get_reg s p r')"
  by (simp add: get_reg_def procs_set_reg)

section \<open>State flags\<close>

lemma and_PSF_iff:
  "st AND PSF_BUSY \<noteq> 0 \<longleftrightarrow> bit st 0"
  "st AND PSF_BLOCKED \<noteq> 0 \<longleftrightarrow> bit st 1"
  "st AND PSF_SUSPENDED \<noteq> 0 \<longleftrightarrow> bit st 2"
  using and_exp_eq_0_iff_not_bit [of st 0] and_exp_eq_0_iff_not_bit [of st 1]
    and_exp_eq_0_iff_not_bit [of st 2]
  by (simp_all add: PSF_BUSY_def PSF_BLOCKED_def PSF_SUSPENDED_def)

lemma bit_PSF:
  "bit PSF_BUSY n \<longleftrightarrow> n = 0" "bit PSF_BLOCKED n \<longleftrightarrow> n = 1" "bit PSF_SUSPENDED n \<longleftrightarrow> n = 2"
  using bit_exp_iff [where 'a = u64, of 1 n] bit_exp_iff [where 'a = u64, of 2 n]
  by (auto simp: PSF_BUSY_def PSF_BLOCKED_def PSF_SUSPENDED_def bit_1_iff dest: bit_imp_le_length)

lemma and_PSF_busy_suspended:
  "st AND (PSF_BUSY OR PSF_SUSPENDED) = 0 \<longleftrightarrow> \<not> bit st 0 \<and> \<not> bit st 2"
proof -
  have b: "bit (st AND (PSF_BUSY OR PSF_SUSPENDED)) n \<longleftrightarrow> bit st n \<and> (n = 0 \<or> n = 2)" for n
    by (auto simp: bit_simps bit_PSF)
  show ?thesis
  proof
    assume "st AND (PSF_BUSY OR PSF_SUSPENDED) = 0"
    with b [of 0] b [of 2] show "\<not> bit st 0 \<and> \<not> bit st 2" by simp
  next
    assume n: "\<not> bit st 0 \<and> \<not> bit st 2"
    show "st AND (PSF_BUSY OR PSF_SUSPENDED) = 0"
      by (rule bit_word_eqI) (unfold b, use n in \<open>auto intro: gr0I\<close>)
  qed
qed

lemma bit_blocked_on:
  "bit (blocked_on ch) n \<longleftrightarrow> n = 1 \<or> 48 \<le> n \<and> bit ch (n - 48) \<and> n < 64"
  by (auto simp: blocked_on_def bit_simps bit_PSF dest: bit_imp_le_length)

lemma blocked_on_inject: "blocked_on a = blocked_on b \<longleftrightarrow> a = b"
proof
  assume eq: "blocked_on a = blocked_on b"
  show "a = b"
  proof (rule bit_word_eqI)
    fix n
    assume n: "n < LENGTH(16)"
    from eq have "bit (blocked_on a) (n + 48) = bit (blocked_on b) (n + 48)" by simp
    with n show "bit a n = bit b n" by (simp add: bit_blocked_on)
  qed
qed simp

section \<open>The process life cycle\<close>

text \<open>
  The states of a process and the transitions that the operations of \<open>proc.c\<close> implement on the
  flag word: the specification of the component.
\<close>

datatype life = Ready | Running | Stopping | Stopped | Waits chan_t | Leaving chan_t

fun life_word :: "life \<Rightarrow> u64" where
  "life_word Ready = 0"
| "life_word Running = PSF_BUSY"
| "life_word Stopping = PSF_BUSY OR PSF_SUSPENDED"
| "life_word Stopped = PSF_SUSPENDED"
| "life_word (Waits ch) = blocked_on ch"
| "life_word (Leaving ch) = blocked_on ch OR PSF_BUSY"

fun life_suspend :: "life \<Rightarrow> life" where
  "life_suspend Ready = Stopped"
| "life_suspend Running = Stopping"
| "life_suspend Stopping = Stopping"
| "life_suspend _ = Stopped"

fun life_resume :: "life \<Rightarrow> life" where
  "life_resume Stopping = Running"
| "life_resume Stopped = Ready"
| "life_resume l = l"

fun life_release :: "life \<Rightarrow> life option" where
  "life_release Running = Some Ready"
| "life_release Stopping = Some Stopped"
| "life_release (Leaving ch) = Some (Waits ch)"
| "life_release _ = None"

fun life_acquirable :: "life \<Rightarrow> bool" where
  "life_acquirable Ready = True"
| "life_acquirable (Waits ch) = True"
| "life_acquirable _ = False"

lemma bit_life_word:
  "bit (life_word l) n \<longleftrightarrow> (case l of
     Ready \<Rightarrow> False
   | Running \<Rightarrow> n = 0
   | Stopping \<Rightarrow> n = 0 \<or> n = 2
   | Stopped \<Rightarrow> n = 2
   | Waits ch \<Rightarrow> bit (blocked_on ch) n
   | Leaving ch \<Rightarrow> bit (blocked_on ch) n \<or> n = 0)"
  by (cases l) (simp_all add: bit_or_iff bit_PSF)

lemma blocked_on_low: "\<not> bit (blocked_on ch) 0" "bit (blocked_on ch) (Suc 0)" "\<not> bit (blocked_on ch) 2"
  by (simp_all add: bit_blocked_on)

lemma life_word_inject: "life_word l = life_word l' \<longleftrightarrow> l = l'"
proof
  assume eq: "life_word l = life_word l'"
  then have "bit (life_word l) n = bit (life_word l') n" for n by simp
  from this [of 0] this [of "Suc 0"] this [of 2] have "(\<exists>ch ch'. l = Waits ch \<and> l' = Waits ch')
    \<or> (\<exists>ch ch'. l = Leaving ch \<and> l' = Leaving ch') \<or> l = l'"
    by (cases l; cases l') (simp_all add: bit_life_word blocked_on_low del: life_word.simps)
  moreover have "ch = ch'" if "l = Leaving ch" "l' = Leaving ch'" for ch ch'
  proof -
    have "bit (blocked_on ch) n = bit (blocked_on ch') n" for n
      using arg_cong [OF eq, of "\<lambda>w. bit w n"] that blocked_on_low(1) by (cases "n = 0") (auto simp: bit_life_word simp del: life_word.simps)
    then have "blocked_on ch = blocked_on ch'" by (simp add: bit_eq_iff)
    then show ?thesis by (simp add: blocked_on_inject)
  qed
  ultimately show "l = l'" using eq by (auto simp: blocked_on_inject)
qed simp

lemma life_word_ops:
  "\<not> bit (life_word l) (Suc 0) \<Longrightarrow> life_word l OR PSF_SUSPENDED = life_word (life_suspend l)"
  "bit (life_word l) (Suc 0) \<Longrightarrow> PSF_SUSPENDED = life_word (life_suspend l)"
  "life_word l AND NOT PSF_SUSPENDED = life_word (life_resume l)"
  "life_release l = Some l' \<Longrightarrow> life_word l XOR PSF_BUSY = life_word l'"
  "life_release l = None \<longleftrightarrow> \<not> bit (life_word l) 0"
  "life_word l AND (PSF_BUSY OR PSF_SUSPENDED) = 0 \<longleftrightarrow> life_acquirable l"
proof -
  show "\<not> bit (life_word l) (Suc 0) \<Longrightarrow> life_word l OR PSF_SUSPENDED = life_word (life_suspend l)"
    by (rule bit_word_eqI, cases l) (auto simp: bit_life_word bit_or_iff bit_PSF blocked_on_low)
  show "life_word l AND NOT PSF_SUSPENDED = life_word (life_resume l)"
    by (rule bit_word_eqI, cases l) (auto simp: bit_life_word bit_and_iff bit_or_iff bit_not_iff bit_PSF blocked_on_low)
  show "life_release l = Some l' \<Longrightarrow> life_word l XOR PSF_BUSY = life_word l'"
    by (rule bit_word_eqI, cases l) (auto simp: bit_life_word bit_xor_iff bit_or_iff bit_PSF blocked_on_low intro: gr0I)
  show "bit (life_word l) (Suc 0) \<Longrightarrow> PSF_SUSPENDED = life_word (life_suspend l)"
    unfolding bit_life_word by (cases l) simp_all
  show "life_release l = None \<longleftrightarrow> \<not> bit (life_word l) 0"
    unfolding bit_life_word by (cases l) (simp_all add: blocked_on_low)
  show "life_word l AND (PSF_BUSY OR PSF_SUSPENDED) = 0 \<longleftrightarrow> life_acquirable l"
    unfolding and_PSF_busy_suspended bit_life_word by (cases l) (simp_all add: blocked_on_low)
qed

lemma life_suspend_word:
  assumes "p < length (procs s)" "pstate (procs s ! p) = life_word l"
  shows "pstate (procs (proc_suspend s p) ! p) = life_word (life_suspend l)"
  using life_word_ops(1,2) [of l] assms
  by (auto simp: proc_suspend_def Let_def and_PSF_iff ksimps)

lemma life_release_iff:
  assumes "p < length (procs s)" "pstate (procs s ! p) = life_word l"
  shows "map_option (\<lambda>s'. pstate (procs s' ! p)) (proc_release s p) = map_option life_word (life_release l)"
    "proc_release s p = None \<longleftrightarrow> life_release l = None"
  using life_word_ops(4,5) [of l] assms
  by (cases "life_release l"; auto simp: proc_release_def KASSERT_def and_PSF_iff config_defs ksimps)+

text \<open>A state with a single process, for examples.\<close>

definition one_proc :: "u64 \<Rightarrow> kstate" where
  "one_proc st = \<lparr>ctable = [], procs = [\<lparr>pstate = st, regs = \<lambda>_. 0, pmpcfg = [], pmpaddr = [], pid = 0,
     timeout = 0, serv_time = 0\<rparr>], channels = [], slots = [], cap_lock = 0, mtimecmp = \<lambda>_. 0,
     csr_pmpaddr = [], csr_pmpcfg = [], mhartid = 0, mtime = \<lambda>_. 0, mip = \<lambda>_. 0, reads = 0\<rparr>"

text \<open>C23. The flag word of a process implements its life cycle: suspending, resuming, releasing,
  acquiring and waiting on a channel are the transitions of the specification; releasing fails
  exactly for a process that no hart has, and acquiring succeeds exactly for a process that is
  ready or waits and whose time has come.\<close>

theorem proc_refines_life:
  assumes "p < length (procs s)" "pstate (procs s ! p) = life_word l"
  shows "pstate (procs (proc_suspend s p) ! p) = life_word (life_suspend l)
    \<and> pstate (procs (proc_resume s p) ! p) = life_word (life_resume l)
    \<and> map_option (\<lambda>s'. pstate (procs s' ! p)) (proc_release s p) = map_option life_word (life_release l)
    \<and> map_option (\<lambda>s'. pstate (procs s' ! p)) (proc_ipc_wait s p ch)
        = (if l = Running then Some (life_word (Leaving ch)) else None)
    \<and> (\<forall>b s'. proc_acquire s p = (b, s') \<longrightarrow>
         (b \<longleftrightarrow> life_acquirable l \<and> timeout (procs s ! p) \<le> mtime s (reads s))
         \<and> pstate (procs s' ! p) = life_word (if b then Running else l))
    \<and> (\<forall>b s'. proc_ipc_acquire s p ch = (b, s') \<longrightarrow>
         (b \<longleftrightarrow> l = Waits ch \<and> mtime s (reads s) < timeout (procs s ! p))
         \<and> pstate (procs s' ! p) = life_word (if b then Running else l))"
proof (intro conjI allI impI)
  note st = procs_upd_proc [OF assms(1)] assms life_word_inject [of l Running, simplified]
    life_word_inject [of l "Waits ch", simplified]
  show "pstate (procs (proc_suspend s p) ! p) = life_word (life_suspend l)"
    by (rule life_suspend_word [OF assms])
  show "pstate (procs (proc_resume s p) ! p) = life_word (life_resume l)"
    using life_word_ops(3) [of l] st by (auto simp: proc_resume_def Let_def ksimps)
  show "map_option (\<lambda>s'. pstate (procs s' ! p)) (proc_release s p) = map_option life_word (life_release l)"
    by (rule life_release_iff [OF assms])
  show "map_option (\<lambda>s'. pstate (procs s' ! p)) (proc_ipc_wait s p ch)
        = (if l = Running then Some (life_word (Leaving ch)) else None)"
    using st by (auto simp: proc_ipc_wait_def KASSERT_def ksimps)
next
  fix b s'
  assume "proc_acquire s p = (b, s')"
  then show "b \<longleftrightarrow> life_acquirable l \<and> timeout (procs s ! p) \<le> mtime s (reads s)"
    and "pstate (procs s' ! p) = life_word (if b then Running else l)"
    using life_word_ops(6) [of l] assms
    by (auto simp: proc_acquire_def ksimps split: if_splits)
next
  fix b s'
  assume "proc_ipc_acquire s p ch = (b, s')"
  then show "b \<longleftrightarrow> l = Waits ch \<and> mtime s (reads s) < timeout (procs s ! p)"
    and "pstate (procs s' ! p) = life_word (if b then Running else l)"
    using assms life_word_inject [of l "Waits ch", simplified]
    by (auto simp: proc_ipc_acquire_def ksimps split: if_splits)
qed

theorem proc_refines_life_witness:
  "pstate (procs (proc_suspend (one_proc (blocked_on 3)) 0) ! 0) = PSF_SUSPENDED
    \<and> proc_release (one_proc (blocked_on 3)) 0 = None"
  using proc_refines_life [of 0 "one_proc (blocked_on 3)" "Waits 3"] by (simp add: one_proc_def)

text \<open>A process that another hart suspends while it leaves for a channel loses its busy flag;
  the release at the end of its system call then fails its assertion.\<close>

theorem suspend_while_leaving:
  assumes "p < length (procs s)" "pstate (procs s ! p) = PSF_BUSY" "proc_ipc_wait s p ch = Some t"
  shows "proc_release t p \<noteq> None \<and> proc_release (proc_suspend t p) p = None"
proof -
  have t: "p < length (procs t)" "pstate (procs t ! p) = life_word (Leaving ch)"
    using assms by (auto simp: proc_ipc_wait_def KASSERT_def ksimps)
  note r = life_release_iff [OF this]
  have "pstate (procs (proc_suspend t p) ! p) = life_word Stopped"
    using life_suspend_word [OF t] by simp
  with r life_release_iff [of p "proc_suspend t p" Stopped] t(1) show ?thesis by (simp add: proc_suspend_def Let_def)
qed

end
