(* ===== verification/Sched.thy ===== *)
theory Sched
  imports Proc
begin

text \<open>
  The scheduler, \<open>kernel/src/sched.c\<close>. Every slot of the period has a 64-bit entry with
  16 bits per hart: the owner of the slot (8 bits) and the remaining length of the time
  slice that the slot belongs to (8 bits); length 0 means that nobody owns the slot.

  The semaphore that serialises the updates of different harts is the subject of
  \<open>Locks.thy\<close>; a hart that runs an operation of this file has it.
\<close>

section \<open>Operations\<close>

record slot_info =
  si_pid :: u8
  si_length :: u8

text \<open>
  The shift distance \<open>(hart - S3K_MIN_HART) * 16\<close>: undefined when it is not smaller than
  the width of the type.
\<close>

definition hart_offset :: "nat \<Rightarrow> nat option" where
  "hart_offset hart =
    (if S3K_MIN_HART \<le> hart \<and> (hart - S3K_MIN_HART) * 16 < 64
     then Some ((hart - S3K_MIN_HART) * 16) else None)"

definition slot_mask :: "nat \<Rightarrow> u64" where
  "slot_mask ofs = push_bit ofs 0xFFFF"

definition slot_entry :: "nat \<Rightarrow> nat \<Rightarrow> nat \<Rightarrow> u64" where
  "slot_entry p end' i = push_bit 8 (of_nat p) OR (of_nat end' - of_nat i)"

text \<open>The loops over \<open>slots[from..to)\<close>.\<close>

definition assign_slots :: "nat \<Rightarrow> nat \<Rightarrow> nat \<Rightarrow> nat \<Rightarrow> nat \<Rightarrow> u64 list \<Rightarrow> u64 list" where
  "assign_slots ofs p end' from to ss =
     array_loop (\<lambda>i w. (w AND NOT (slot_mask ofs)) OR push_bit ofs (slot_entry p end' i)) from to ss"

definition clear_slots :: "nat \<Rightarrow> nat \<Rightarrow> nat \<Rightarrow> u64 list \<Rightarrow> u64 list" where
  "clear_slots ofs from to ss =
     array_loop (\<lambda>i w. w AND NOT (slot_mask ofs)) from to ss"

definition sched_update ::
  "kstate \<Rightarrow> nat \<Rightarrow> nat \<Rightarrow> nat \<Rightarrow> nat \<Rightarrow> nat \<Rightarrow> kstate option" where
  "sched_update s p end' hart from to = do {
     ofs \<leftarrow> hart_offset hart;
     if from < to \<and> length (slots s) < to then None
     else Some (s\<lparr>slots := assign_slots ofs p end' from to (slots s)\<rparr>)
   }"

definition sched_delete :: "kstate \<Rightarrow> nat \<Rightarrow> nat \<Rightarrow> nat \<Rightarrow> kstate option" where
  "sched_delete s hart from to = do {
     ofs \<leftarrow> hart_offset hart;
     if from < to \<and> length (slots s) < to then None
     else Some (s\<lparr>slots := clear_slots ofs from to (slots s)\<rparr>)
   }"

fun sched_init_loop :: "nat list \<Rightarrow> kstate \<Rightarrow> kstate option" where
  "sched_init_loop [] s = Some s"
| "sched_init_loop (hart # harts) s = do {
     s \<leftarrow> sched_update s 0 S3K_SLOT_CNT hart 0 S3K_SLOT_CNT;
     sched_init_loop harts s
   }"

definition sched_init :: "kstate \<Rightarrow> kstate option" where
  "sched_init s = sched_init_loop [S3K_MIN_HART..<S3K_MAX_HART + 1] s"

definition slot_info_get :: "kstate \<Rightarrow> nat \<Rightarrow> u64 \<Rightarrow> slot_info option" where
  "slot_info_get s hart slot = do {
     ofs \<leftarrow> hart_offset hart;
     let entry = drop_bit ofs (slots s ! (unat (slot mod of_nat S3K_SLOT_CNT)));
     Some \<lparr>si_pid = ucast (drop_bit 8 entry AND 0xFF), si_length = ucast (entry AND 0xFF)\<rparr>
   }"

text \<open>
  The two loops of \<open>sched_fetch\<close> over the other harts: is there a hart in the list that
  schedules the same process with a length that makes this hart give way?
\<close>

fun sched_yields_to ::
  "kstate \<Rightarrow> slot_info \<Rightarrow> u64 \<Rightarrow> (u8 \<Rightarrow> u8 \<Rightarrow> bool) \<Rightarrow> nat list \<Rightarrow> bool option" where
  "sched_yields_to s si slot cmp [] = Some False"
| "sched_yields_to s si slot cmp (i # harts) = do {
     other \<leftarrow> slot_info_get s i slot;
     if si_pid si = si_pid other \<and> cmp (si_length si) (si_length other) then Some True
     else sched_yields_to s si slot cmp harts
   }"

definition sched_fetch :: "kstate \<Rightarrow> nat \<Rightarrow> u64 \<Rightarrow> (proc_ptr option \<times> kstate) option" where
  "sched_fetch s hart slot = do {
     si \<leftarrow> slot_info_get s hart slot;
     if si_length si = 0 then Some (None, s)
     else do {
       low \<leftarrow> (if SMP then sched_yields_to s si slot (\<le>) [S3K_MIN_HART..<hart] else Some False);
       if low then Some (None, s)
       else do {
         high \<leftarrow> (if SMP then sched_yields_to s si slot (<) [hart + 1..<S3K_MAX_HART]
                  else Some False);
         if high then Some (None, s)
         else do {
           p \<leftarrow> proc_get s (unat (si_pid si));
           let (acquired, s) = proc_acquire s p;
           if \<not> acquired then Some (None, s)
           else Some (Some p, upd_proc s p (\<lambda>q. q\<lparr>timeout :=
                  (slot + ucast (si_length si)) * S3K_SLOT_LEN - S3K_SCHED_TIME\<rparr>))
         }
       }
     }
   }"

text \<open>The two loops of \<open>sched\<close>: wait for the slot to begin, and retry until a process is found.\<close>

partial_function (option) sched_wait :: "kstate \<Rightarrow> u64 \<Rightarrow> kstate option" where
  "sched_wait s slot =
    (let (t, s') = time_get s
     in if t < slot * S3K_SLOT_LEN then sched_wait s' slot else Some s')"

partial_function (option) sched_loop :: "kstate \<Rightarrow> (proc_ptr \<times> kstate) option" where
  "sched_loop s =
    (let (t, s1) = time_get s;
         slot = (t + S3K_SCHED_TIME) div S3K_SLOT_LEN
     in do {
       s2 \<leftarrow> sched_wait s1 slot;
       (r, s3) \<leftarrow> sched_fetch s2 (mhartid s) slot;
       (case r of None \<Rightarrow> sched_loop s3 | Some p \<Rightarrow> Some (p, s3))
     })"

definition sched :: "kstate \<Rightarrow> (proc_ptr \<times> kstate) option" where
  "sched s = do {
     let s = timeout_set s (mhartid s) (- 1);
     (p, s) \<leftarrow> sched_loop s;
     Some (p, timeout_set s (mhartid s) (timeout (procs s ! p)))
   }"

section \<open>The table of slots as a map from harts and slots to owners\<close>

definition offset_of :: "nat \<Rightarrow> nat" where
  "offset_of hart = (hart - S3K_MIN_HART) * 16"

definition hart_ok :: "nat \<Rightarrow> bool" where
  "hart_ok hart \<longleftrightarrow> S3K_MIN_HART \<le> hart \<and> hart \<le> S3K_MAX_HART"

text \<open>Owner and remaining length of slot \<open>i\<close> on a hart, if the slot is owned.\<close>

definition slot_owner :: "u64 list \<Rightarrow> nat \<Rightarrow> nat \<Rightarrow> (nat \<times> nat) option" where
  "slot_owner ss hart i =
    (let e = drop_bit (offset_of hart) (ss ! i)
     in if (ucast e :: u8) = 0 then None
        else Some (unat (ucast (drop_bit 8 e) :: u8), unat (ucast e :: u8)))"

lemma hart_offset_ok: "hart_ok hart \<Longrightarrow> hart_offset hart = Some (offset_of hart)"
  using config_bounds(8) by (auto simp: hart_offset_def hart_ok_def offset_of_def)

lemma offset_bound: "hart_ok hart \<Longrightarrow> offset_of hart \<le> 48"
  using config_bounds(8) by (auto simp: hart_ok_def offset_of_def)

lemma offset_apart:
  "\<lbrakk>hart_ok a; hart_ok b; a \<noteq> b\<rbrakk> \<Longrightarrow> offset_of a + 16 \<le> offset_of b \<or> offset_of b + 16 \<le> offset_of a"
  by (auto simp: hart_ok_def offset_of_def)

lemma bit_slot_mask:
  assumes "ofs \<le> 48"
  shows "bit (slot_mask ofs) n \<longleftrightarrow> ofs \<le> n \<and> n < ofs + 16"
proof -
  have "(0xFFFF :: u64) = mask 16" by (simp add: mask_eq_exp_minus_1)
  then have "slot_mask ofs = push_bit ofs (mask 16)" by (simp only: slot_mask_def)
  with assms show ?thesis
    by (auto simp only: bit_push_bit_iff bit_mask_iff possible_bit_word) auto
qed

lemma u8_bit_high [simp]: "8 \<le> n \<Longrightarrow> \<not> bit (x :: u8) n"
  by (auto dest: bit_imp_le_length)

text \<open>Writing the field of one hart: read back on that hart, and unchanged on the others.\<close>

lemma field_write_same:
  fixes w :: u64 and p l :: u8
  assumes "ofs \<le> 48"
  defines "e \<equiv> drop_bit ofs ((w AND NOT (slot_mask ofs))
    OR push_bit ofs (push_bit 8 (ucast p) OR ucast l))"
  shows "ucast e = l" "ucast (drop_bit 8 e) = p"
  using assms(1)
  by (auto simp: e_def bit_simps bit_slot_mask intro!: bit_word_eqI)

lemma field_clear_same:
  fixes w :: u64
  assumes "ofs \<le> 48"
  shows "(ucast (drop_bit ofs (w AND NOT (slot_mask ofs))) :: u8) = 0"
  using assms by (auto simp: bit_simps bit_slot_mask intro!: bit_word_eqI)

lemma field_write_other:
  fixes w :: u64 and p l :: u8
  assumes "ofs \<le> 48" "ofs' \<le> 48" "ofs + 16 \<le> ofs' \<or> ofs' + 16 \<le> ofs"
  defines "e \<equiv> drop_bit ofs' ((w AND NOT (slot_mask ofs))
    OR push_bit ofs (push_bit 8 (ucast p) OR ucast l))"
  shows "(ucast e :: u8) = ucast (drop_bit ofs' w)"
    "(ucast (drop_bit 8 e) :: u8) = ucast (drop_bit 8 (drop_bit ofs' w))"
  using assms(1-3)
  by (auto simp: e_def bit_simps bit_slot_mask intro!: bit_word_eqI)

lemma of_nat_u8: "n < 256 \<Longrightarrow> (of_nat n :: u64) = ucast (of_nat n :: u8)"
  by (simp add: unsigned_of_nat take_bit_nat_eq_self)

lemma unat_of_nat_u8: "n < 256 \<Longrightarrow> unat (of_nat n :: u8) = n"
  by (simp add: unsigned_of_nat take_bit_nat_eq_self)

lemma slot_entry_u8:
  assumes "p < 256" "i \<le> e" "e < 256"
  shows "slot_entry p e i = push_bit 8 (ucast (of_nat p :: u8)) OR ucast (of_nat (e - i) :: u8)"
proof -
  have "(of_nat e - of_nat i :: u64) = of_nat (e - i)" using assms(2) by simp
  also have "\<dots> = ucast (of_nat (e - i) :: u8)" using assms(3) by (intro of_nat_u8) simp
  finally show ?thesis using assms(1) by (simp add: slot_entry_def of_nat_u8)
qed

definition assign_hart :: "nat \<Rightarrow> nat \<Rightarrow> nat \<Rightarrow> nat \<Rightarrow> nat \<Rightarrow> u64 list \<Rightarrow> u64 list" where
  "assign_hart hart = assign_slots (offset_of hart)"

definition clear_hart :: "nat \<Rightarrow> nat \<Rightarrow> nat \<Rightarrow> u64 list \<Rightarrow> u64 list" where
  "clear_hart hart = clear_slots (offset_of hart)"

lemma length_assign [simp]:
  "length (assign_hart h p e from to ss) = length ss" "length (clear_hart h from to ss) = length ss"
  by (simp_all add: assign_hart_def assign_slots_def clear_hart_def clear_slots_def)

lemma slot_owner_assign:
  assumes h: "hart_ok h" "hart_ok h'" and b: "p < 256" "to \<le> e" "e < 256" and i: "i < length ss"
  shows "slot_owner (assign_hart h p e from to ss) h' i =
    (if h' = h \<and> from \<le> i \<and> i < to then Some (p, e - i) else slot_owner ss h' i)"
proof -
  let ?ss = "assign_hart h p e from to ss"
  have at_i: "?ss ! i = (if from \<le> i \<and> i < to
      then (ss ! i AND NOT (slot_mask (offset_of h))) OR push_bit (offset_of h) (slot_entry p e i)
      else ss ! i)"
    using i by (simp add: assign_hart_def assign_slots_def nth_array_loop)
  show ?thesis
  proof (cases "from \<le> i \<and> i < to")
    case False
    with at_i show ?thesis by (auto simp: slot_owner_def)
  next
    case True
    with b have ent: "slot_entry p e i
        = push_bit 8 (ucast (of_nat p :: u8)) OR ucast (of_nat (e - i) :: u8)"
      by (intro slot_entry_u8) auto
    show ?thesis
    proof (cases "h' = h")
      case same: True
      have len: "e - i < 256" "e - i \<noteq> 0" using b True by auto
      then have "(of_nat (e - i) :: u8) \<noteq> 0"
        using unat_of_nat_u8 [OF len(1)] by (metis unat_eq_zero)
      with True same b len show ?thesis
        using field_write_same [OF offset_bound [OF h(1)], of "ss ! i" "of_nat p" "of_nat (e - i)"]
        by (simp add: slot_owner_def at_i ent Let_def unat_of_nat_u8 del: of_nat_diff)
    next
      case other: False
      with True show ?thesis
        using field_write_other [OF offset_bound [OF h(1)] offset_bound [OF h(2)],
            of "ss ! i" "of_nat p" "of_nat (e - i)"] offset_apart [OF h(1,2)]
        by (simp add: slot_owner_def at_i ent Let_def del: of_nat_diff)
    qed
  qed
qed

lemma slot_owner_clear:
  assumes h: "hart_ok h" "hart_ok h'" and i: "i < length ss"
  shows "slot_owner (clear_hart h from to ss) h' i =
    (if h' = h \<and> from \<le> i \<and> i < to then None else slot_owner ss h' i)"
proof -
  have at_i: "clear_hart h from to ss ! i =
      (if from \<le> i \<and> i < to then ss ! i AND NOT (slot_mask (offset_of h)) else ss ! i)"
    using i by (simp add: clear_hart_def clear_slots_def nth_array_loop)
  show ?thesis
  proof (cases "from \<le> i \<and> i < to \<and> h' \<noteq> h")
    case True
    then show ?thesis
      using field_write_other [OF offset_bound [OF h(1)] offset_bound [OF h(2)], of "ss ! i" 0 0]
        offset_apart [OF h(1,2)]
      by (simp add: slot_owner_def at_i Let_def)
  next
    case False
    then show ?thesis
      using field_clear_same [OF offset_bound [OF h(1)], of "ss ! i"]
      by (auto simp: slot_owner_def at_i Let_def)
  qed
qed

section \<open>The contract of the schedule\<close>

text \<open>
  What the time capabilities rely on: the schedule is a map from harts and slots to owners,
  assigning and clearing a range of slots of one hart changes exactly that range.
\<close>

locale schedule =
  fixes owner :: "'s \<Rightarrow> nat \<Rightarrow> nat \<Rightarrow> (nat \<times> nat) option"
    and assign :: "nat \<Rightarrow> nat \<Rightarrow> nat \<Rightarrow> nat \<Rightarrow> nat \<Rightarrow> 's \<Rightarrow> 's"
    and clear :: "nat \<Rightarrow> nat \<Rightarrow> nat \<Rightarrow> 's \<Rightarrow> 's"
    and period :: "'s \<Rightarrow> nat"
    and is_hart :: "nat \<Rightarrow> bool"
  assumes owner_assign: "\<lbrakk>is_hart h; is_hart h'; p < 256; to \<le> e; e < 256; i < period s\<rbrakk> \<Longrightarrow>
      owner (assign h p e from to s) h' i =
        (if h' = h \<and> from \<le> i \<and> i < to then Some (p, e - i) else owner s h' i)"
    and owner_clear: "\<lbrakk>is_hart h; is_hart h'; i < period s\<rbrakk> \<Longrightarrow>
      owner (clear h from to s) h' i =
        (if h' = h \<and> from \<le> i \<and> i < to then None else owner s h' i)"
    and period_assign: "period (assign h p e from to s) = period s"
    and period_clear: "period (clear h from to s) = period s"
begin

text \<open>Splitting a slice at \<open>m\<close>: the front part goes to \<open>q\<close>, \<open>p\<close> keeps the rest.\<close>

lemma owner_split:
  assumes "is_hart h" "p < 256" "q < 256" "e < 256" "from \<le> m" "m \<le> e" "e \<le> period s"
    and "\<And>i. from \<le> i \<Longrightarrow> i < e \<Longrightarrow> owner s h i = Some (p, e - i)"
    and i: "from \<le> i" "i < e"
  shows "owner (assign h q m from m s) h i = (if i < m then Some (q, m - i) else Some (p, e - i))"
  using assms by (simp add: owner_assign)

text \<open>Taking the front part back restores the slice.\<close>

lemma owner_merge:
  assumes "is_hart h" "p < 256" "q < 256" "e < 256" "from \<le> m" "m \<le> e" "e \<le> period s"
    and "\<And>i. from \<le> i \<Longrightarrow> i < e \<Longrightarrow> owner s h i = Some (p, e - i)"
    and h': "is_hart h'" and i: "i < period s"
  shows "owner (assign h p e from m (assign h q m from m s)) h' i = owner s h' i"
  using assms by (auto simp: owner_assign period_assign)

end

interpretation sl: schedule slot_owner assign_hart clear_hart length hart_ok
  by unfold_locales (simp_all add: slot_owner_assign slot_owner_clear)

section \<open>The operations in terms of the contract\<close>

lemma sched_update_eq:
  assumes "hart_ok hart" "to \<le> length (slots s) \<or> to \<le> from"
  shows "sched_update s p e hart from to = Some (s\<lparr>slots := assign_hart hart p e from to (slots s)\<rparr>)"
  using assms by (auto simp: sched_update_def hart_offset_ok assign_hart_def)

lemma sched_delete_eq:
  assumes "hart_ok hart" "to \<le> length (slots s) \<or> to \<le> from"
  shows "sched_delete s hart from to = Some (s\<lparr>slots := clear_hart hart from to (slots s)\<rparr>)"
  using assms by (auto simp: sched_delete_def hart_offset_ok clear_hart_def)

end
