(* ===== verification/Channels.thy ===== *)
theory Channels
  imports Sched
begin

text \<open>
  The table of IPC channels and \<open>cap_sock_clear\<close> of \<open>kernel/src/cap_ipc.c\<close>, which the
  capability operations call when a socket goes away. The other IPC operations are in
  \<open>CapIpc.thy\<close>.
\<close>

text \<open>Writing \<open>channels[chan]\<close>, which fails when the channel number is out of range.\<close>

definition upd_chan :: "kstate \<Rightarrow> chan_t \<Rightarrow> (channel \<Rightarrow> channel) \<Rightarrow> kstate option" where
  "upd_chan s chan f =
    (if unat chan < length (channels s)
     then Some (s\<lparr>channels := (channels s)[unat chan := f (channels s ! unat chan)]\<rparr>)
     else None)"

definition get_chan :: "kstate \<Rightarrow> chan_t \<Rightarrow> channel option" where
  "get_chan s chan =
    (if unat chan < length (channels s) then Some (channels s ! unat chan) else None)"

text \<open>The fields of a socket capability, read through the union.\<close>

definition sock_mode :: "cap \<Rightarrow> 4 word" where
  "sock_mode c = ucast (drop_bit 4 (raw_of_cap c))"

definition sock_perm :: "cap \<Rightarrow> u8" where
  "sock_perm c = ucast (drop_bit 8 (raw_of_cap c))"

definition sock_chan :: "cap \<Rightarrow> chan_t" where
  "sock_chan c = ucast (drop_bit 16 (raw_of_cap c))"

definition sock_tag :: "cap \<Rightarrow> u32" where
  "sock_tag c = ucast (drop_bit 32 (raw_of_cap c))"

definition cap_sock_clear :: "kstate \<Rightarrow> cap \<Rightarrow> proc_ptr \<Rightarrow> kstate option" where
  "cap_sock_clear s cap p =
    (if sock_tag cap = 0
     then upd_chan s (sock_chan cap) (\<lambda>ch. ch\<lparr>server := None, client := None, cap_buf := None\<rparr>)
     else do {
       ch \<leftarrow> get_chan s (sock_chan cap);
       if client ch = Some p
       then upd_chan s (sock_chan cap) (\<lambda>ch. ch\<lparr>client := None\<rparr>)
       else Some s
     })"

lemma sock_fields [simp]:
  "sock_mode (SockCap mo pe ch tg) = mo" "sock_perm (SockCap mo pe ch tg) = pe"
  "sock_chan (SockCap mo pe ch tg) = ch" "sock_tag (SockCap mo pe ch tg) = tg"
  using sock_layout [of "raw_of_cap (SockCap mo pe ch tg)" 6 mo pe ch tg]
  by (simp_all add: sock_mode_def sock_perm_def sock_chan_def sock_tag_def)

end
