(* ===== verification/Invariant.thy ===== *)
theory Invariant
  imports Channels
begin

text \<open>
  The invariant of the kernel state that every operation keeps: the arrays have their sizes,
  every capability is well formed, the links of the capability table stay inside it, a
  channel with a waiting process has a capability buffer, and the PMP configuration of
  every process is exactly what the PMP capabilities it has loaded say.
\<close>

section \<open>Well-formed capabilities, entries, processes, channels\<close>

fun cap_ok :: "cap \<Rightarrow> bool" where
  "cap_ok (NoCap r) \<longleftrightarrow> r = 0"
| "cap_ok (TimeCap pad hart bgn mrk end') \<longleftrightarrow>
     hart_ok (unat hart) \<and> bgn \<le> mrk \<and> mrk \<le> end' \<and> bgn < end' \<and> unat end' \<le> S3K_SLOT_CNT"
| "cap_ok (MemCap rwx lck tag bgn mrk end') \<longleftrightarrow> bgn \<le> mrk \<and> bgn < end' \<and> unat end' \<le> 2 ^ 15"
| "cap_ok (PmpCap rwx used slot addr) \<longleftrightarrow> (if used then unat slot < S3K_PMP_CNT else slot = 0)"
| "cap_ok (MonCap pad bgn mrk end') \<longleftrightarrow> bgn \<le> mrk \<and> bgn < end' \<and> unat end' \<le> S3K_PROC_CNT"
| "cap_ok (ChanCap pad bgn mrk end') \<longleftrightarrow> bgn \<le> mrk \<and> bgn < end' \<and> unat end' \<le> S3K_CHAN_CNT"
| "cap_ok (SockCap mode perm chan tag) \<longleftrightarrow>
     (mode = IPC_YIELD \<or> mode = IPC_NOYIELD) \<and> unat chan < S3K_CHAN_CNT"
| "cap_ok (OtherCap t r) \<longleftrightarrow> False"

definition cte_ok :: "nat \<Rightarrow> cte \<Rightarrow> bool" where
  "cte_ok n e \<longleftrightarrow> cap_ok (cap_fld e) \<and> prev_off e < n \<and> next_off e < n"

definition table_ok :: "cte list \<Rightarrow> bool" where
  "table_ok ct \<longleftrightarrow> length ct = S3K_PROC_CNT * S3K_CAP_CNT \<and> (\<forall>e \<in> set ct. cte_ok (length ct) e)"

text \<open>
  The states of a process: ready, busy, suspended, busy and about to be suspended, blocked
  on a channel, and blocked but not yet released.
\<close>

definition state_ok :: "u64 \<Rightarrow> bool" where
  "state_ok st \<longleftrightarrow> st \<in> {0, PSF_BUSY, PSF_SUSPENDED, PSF_BUSY OR PSF_SUSPENDED}
     \<or> (\<exists>ch. st = blocked_on ch \<or> st = blocked_on ch OR PSF_BUSY)"

definition proc_ok :: "nat \<Rightarrow> proc_t \<Rightarrow> bool" where
  "proc_ok i q \<longleftrightarrow> unat (pid q) = i \<and> length (pmpcfg q) = S3K_PMP_CNT
     \<and> length (pmpaddr q) = S3K_PMP_CNT \<and> state_ok (pstate q)"

definition procs_ok :: "proc_t list \<Rightarrow> bool" where
  "procs_ok ps \<longleftrightarrow> length ps = S3K_PROC_CNT \<and> (\<forall>i < length ps. proc_ok i (ps ! i))"

definition chan_ok :: "channel \<Rightarrow> bool" where
  "chan_ok ch \<longleftrightarrow> (\<forall>p. server ch = Some p \<or> client ch = Some p \<longrightarrow> p < S3K_PROC_CNT \<and> cap_buf ch \<noteq> None)
     \<and> (\<forall>c. cap_buf ch = Some c \<longrightarrow> c < S3K_PROC_CNT * S3K_CAP_CNT)"

definition chans_ok :: "channel list \<Rightarrow> bool" where
  "chans_ok chs \<longleftrightarrow> length chs = S3K_CHAN_CNT \<and> (\<forall>ch \<in> set chs. chan_ok ch)"

text \<open>Every slot of the schedule belongs to a process or to nobody.\<close>

definition slots_ok :: "u64 list \<Rightarrow> bool" where
  "slots_ok ss \<longleftrightarrow> length ss = S3K_SLOT_CNT \<and> (\<forall>h i p l. hart_ok h \<longrightarrow> i < S3K_SLOT_CNT \<longrightarrow>
     slot_owner ss h i = Some (p, l) \<longrightarrow> p < S3K_PROC_CNT)"

lemma slots_ok_assign:
  assumes "slots_ok ss" "hart_ok h" "p < S3K_PROC_CNT" "to \<le> e" "e \<le> S3K_SLOT_CNT"
  shows "slots_ok (assign_hart h p e from to ss)"
  using assms config_bounds(2,6) by (auto simp: slots_ok_def sl.owner_assign split: if_splits)

lemma slots_ok_clear: "slots_ok ss \<Longrightarrow> hart_ok h \<Longrightarrow> slots_ok (clear_hart h from to ss)"
  by (auto simp: slots_ok_def sl.owner_clear split: if_splits)

section \<open>Loaded PMP frames\<close>

text \<open>The permissions, slot and address of the PMP frame at an entry, if it is loaded.\<close>

definition pmp_used :: "cte list \<Rightarrow> cte_t \<Rightarrow> (rwx_t \<times> nat \<times> 48 word) option" where
  "pmp_used ct c = (if c < length ct then
     (case cte_cap ct c of PmpCap rwx used slot addr \<Rightarrow>
        if used then Some (rwx, unat slot, addr) else None
      | _ \<Rightarrow> None) else None)"

text \<open>
  Every loaded frame is in its slot of the process that holds it, no two frames of a process
  are in the same slot, and a slot that is in use belongs to a loaded frame.
\<close>

definition pmp_inv :: "(cte_t \<Rightarrow> (rwx_t \<times> nat \<times> 48 word) option) \<Rightarrow> proc_t list \<Rightarrow> bool" where
  "pmp_inv U ps \<longleftrightarrow>
     (\<forall>c rwx k a. U c = Some (rwx, k, a) \<longrightarrow>
        k < S3K_PMP_CNT \<and> cte_pid c < length ps
        \<and> pmpcfg (ps ! cte_pid c) ! k = ucast rwx OR 0x18
        \<and> pmpaddr (ps ! cte_pid c) ! k = ucast a)
   \<and> (\<forall>c d rwx rwx' k a a'. U c = Some (rwx, k, a) \<longrightarrow> U d = Some (rwx', k, a') \<longrightarrow>
        cte_pid c = cte_pid d \<longrightarrow> c = d)
   \<and> (\<forall>p k. p < length ps \<longrightarrow> k < S3K_PMP_CNT \<longrightarrow> pmpcfg (ps ! p) ! k \<noteq> 0 \<longrightarrow>
        (\<exists>c rwx a. U c = Some (rwx, k, a) \<and> cte_pid c = p))"

definition kinv :: "kstate \<Rightarrow> bool" where
  "kinv s \<longleftrightarrow> table_ok (ctable s) \<and> procs_ok (procs s) \<and> chans_ok (channels s)
     \<and> slots_ok (slots s) \<and> pmp_inv (pmp_used (ctable s)) (procs s)"

lemma kinvD:
  assumes "kinv s"
  shows "table_ok (ctable s)" "procs_ok (procs s)" "chans_ok (channels s)"
    "slots_ok (slots s)" "pmp_inv (pmp_used (ctable s)) (procs s)"
  using assms by (simp_all add: kinv_def)

lemma table_okD:
  assumes "table_ok ct" "c < length ct"
  shows "cap_ok (cte_cap ct c)" "cte_next ct c < length ct" "cte_prev ct c < length ct"
  using assms by (auto simp: table_ok_def cte_ok_def cte_cap_def cte_next_def cte_prev_def)

lemma cte_pid_bound: "c < S3K_PROC_CNT * S3K_CAP_CNT \<Longrightarrow> cte_pid c < S3K_PROC_CNT"
  using config_bounds(3) by (simp add: cte_pid_def less_mult_imp_div_less)

lemma kinv_lengths:
  assumes "kinv s"
  shows "length (ctable s) = S3K_PROC_CNT * S3K_CAP_CNT" "length (procs s) = S3K_PROC_CNT"
    "length (channels s) = S3K_CHAN_CNT" "length (slots s) = S3K_SLOT_CNT"
  using assms by (simp_all add: kinv_def table_ok_def procs_ok_def chans_ok_def slots_ok_def)

lemma kinv_cap_ok: "kinv s \<Longrightarrow> c < length (ctable s) \<Longrightarrow> cap_ok (cte_cap (ctable s) c)"
  by (intro table_okD(1)) (simp_all add: kinv_def)

lemma kinv_proc_ok: "kinv s \<Longrightarrow> p < S3K_PROC_CNT \<Longrightarrow> proc_ok p (procs s ! p)"
  by (simp add: kinv_def procs_ok_def)

lemma kinv_proc_get: "kinv s \<Longrightarrow> p < S3K_PROC_CNT \<Longrightarrow> proc_get s p = Some p"
  using kinv_proc_ok [of s p] by (simp add: proc_get_def KASSERT_def proc_ok_def)

lemma kinv_proc_get_cte:
  "kinv s \<Longrightarrow> c < length (ctable s) \<Longrightarrow> proc_get s (cte_pid c) = Some (cte_pid c)"
  by (simp add: kinv_proc_get kinv_lengths cte_pid_bound)

section \<open>Operations on the table\<close>

lemma table_ok_update:
  assumes "table_ok ct" "cte_ok (length ct) e"
  shows "table_ok (ct[c := e])"
  using assms set_update_subset_insert [of ct c e] by (auto simp: table_ok_def)

lemma cte_ok_nth: "table_ok ct \<Longrightarrow> c < length ct \<Longrightarrow> cte_ok (length ct) (ct ! c)"
  by (auto simp: table_ok_def)

lemma table_ok_set_cap: "table_ok ct \<Longrightarrow> cap_ok cp \<Longrightarrow> table_ok (cte_set_cap ct c cp)"
  by (cases "c < length ct")
    (auto simp: cte_set_cap_def list_update_beyond cte_ok_def dest: cte_ok_nth intro!: table_ok_update)

lemma table_ok_set_next: "table_ok ct \<Longrightarrow> n < length ct \<Longrightarrow> table_ok (cte_set_next ct c n)"
  by (cases "c < length ct")
    (auto simp: cte_set_next_def list_update_beyond cte_ok_def dest: cte_ok_nth intro!: table_ok_update)

lemma table_ok_set_prev: "table_ok ct \<Longrightarrow> n < length ct \<Longrightarrow> table_ok (cte_set_prev ct c n)"
  by (cases "c < length ct")
    (auto simp: cte_set_prev_def list_update_beyond cte_ok_def dest: cte_ok_nth intro!: table_ok_update)

lemma table_ok_delete:
  assumes "table_ok ct" "c < length ct"
  shows "table_ok (cte_delete ct c)"
  using assms unfolding cte_delete_def Let_def
  by (intro table_ok_set_prev table_ok_set_next table_ok_set_cap)
    (simp_all add: table_okD cte_get_set)

lemma table_ok_insert:
  assumes "table_ok ct" "c < length ct" "p < length ct" "cap_ok cp"
  shows "table_ok (cte_insert ct c cp p)"
  using assms unfolding cte_insert_def Let_def
  by (intro table_ok_set_prev table_ok_set_next table_ok_set_cap)
    (simp_all add: table_okD cte_get_set)

lemma table_ok_move:
  assumes "table_ok ct" "src < length ct" "dst < length ct"
  shows "table_ok (cte_move ct src dst)"
proof (cases "src = dst")
  case True
  with assms show ?thesis by (simp add: cte_move_def)
next
  case False
  with assms show ?thesis
    unfolding cte_move_def Let_def if_not_P [OF False]
    by (intro table_ok_set_prev table_ok_set_next table_ok_set_cap)
      (simp_all add: table_okD cte_get_set)
qed

section \<open>Changes of the loaded frames\<close>

lemma pmp_used_eq:
  assumes "length ct' = length ct"
    "\<And>c. c < length ct \<Longrightarrow> cte_cap ct' c = cte_cap ct c"
  shows "pmp_used ct' = pmp_used ct"
  using assms by (auto simp: pmp_used_def)

text \<open>The frame described by a capability value, if it is loaded.\<close>

definition used_of :: "cap \<Rightarrow> (rwx_t \<times> nat \<times> 48 word) option" where
  "used_of cp = (case cp of PmpCap rwx used slot addr \<Rightarrow>
     if used then Some (rwx, unat slot, addr) else None | _ \<Rightarrow> None)"

lemma used_of_simps [simp]:
  "used_of (PmpCap rwx used slot addr) = (if used then Some (rwx, unat slot, addr) else None)"
  "used_of (NoCap r) = None" "used_of (TimeCap p h b m e) = None"
  "used_of (MemCap rwx l t b m e) = None" "used_of (MonCap q b m e) = None"
  "used_of (ChanCap q b m e) = None" "used_of (SockCap mo pe ch tg) = None"
  by (simp_all add: used_of_def)

lemma pmp_used_cap: "pmp_used ct c = (if c < length ct then used_of (cte_cap ct c) else None)"
  by (simp add: pmp_used_def used_of_def)

lemma pmp_used_ops:
  "c < length ct \<Longrightarrow> pmp_used (cte_set_cap ct c cp) = (pmp_used ct)(c := used_of cp)"
  "c < length ct \<Longrightarrow> pmp_used (cte_delete ct c) = (pmp_used ct)(c := None)"
  "c < length ct \<Longrightarrow> pmp_used (cte_insert ct c cp p) = (pmp_used ct)(c := used_of cp)"
  "\<lbrakk>src < length ct; dst < length ct; src \<noteq> dst\<rbrakk> \<Longrightarrow>
     pmp_used (cte_move ct src dst) = (pmp_used ct)(dst := pmp_used ct src, src := None)"
  by (auto simp: fun_eq_iff pmp_used_cap cte_get_set cte_cap_ops)

text \<open>The invariant looks at the PMP arrays of the processes only.\<close>

lemma pmp_inv_cong:
  assumes "length ps' = length ps"
    "\<And>p. p < length ps \<Longrightarrow> pmpcfg (ps' ! p) = pmpcfg (ps ! p) \<and> pmpaddr (ps' ! p) = pmpaddr (ps ! p)"
  shows "pmp_inv U ps' \<longleftrightarrow> pmp_inv U ps"
  using assms by (simp add: pmp_inv_def cong: conj_cong imp_cong)

lemma pmp_invI:
  assumes "\<And>c rwx k a. U c = Some (rwx, k, a) \<Longrightarrow>
      k < S3K_PMP_CNT \<and> cte_pid c < length ps
      \<and> pmpcfg (ps ! cte_pid c) ! k = ucast rwx OR 0x18 \<and> pmpaddr (ps ! cte_pid c) ! k = ucast a"
    and "\<And>c d rwx rwx' k a a'. \<lbrakk>U c = Some (rwx, k, a); U d = Some (rwx', k, a');
      cte_pid c = cte_pid d\<rbrakk> \<Longrightarrow> c = d"
    and "\<And>p k. \<lbrakk>p < length ps; k < S3K_PMP_CNT; pmpcfg (ps ! p) ! k \<noteq> 0\<rbrakk>
      \<Longrightarrow> \<exists>c rwx a. U c = Some (rwx, k, a) \<and> cte_pid c = p"
  shows "pmp_inv U ps"
  using assms unfolding pmp_inv_def by blast

lemma pmp_invD:
  assumes "pmp_inv U ps"
  shows "U c = Some (rwx, k, a) \<Longrightarrow>
      k < S3K_PMP_CNT \<and> cte_pid c < length ps
      \<and> pmpcfg (ps ! cte_pid c) ! k = ucast rwx OR 0x18 \<and> pmpaddr (ps ! cte_pid c) ! k = ucast a"
    and "\<lbrakk>U c = Some (rwx, k, a); U d = Some (rwx', k, a'); cte_pid c = cte_pid d\<rbrakk> \<Longrightarrow> c = d"
    and "\<lbrakk>p < length ps; k < S3K_PMP_CNT; pmpcfg (ps ! p) ! k \<noteq> 0\<rbrakk>
      \<Longrightarrow> \<exists>c rwx a. U c = Some (rwx, k, a) \<and> cte_pid c = p"
  using assms unfolding pmp_inv_def by blast+

lemma pmp_inv_unused: "pmp_inv U ps \<Longrightarrow> U c = None \<Longrightarrow> pmp_inv (U(c := None)) ps"
  by (simp add: fun_upd_idem)

lemma pmp_inv_move:
  assumes inv: "pmp_inv U ps" and pids: "cte_pid src = cte_pid dst"
    and dst: "U dst = None" "src \<noteq> dst"
  shows "pmp_inv (U(dst := U src, src := None)) ps"
proof -
  let ?V = "U(dst := U src, src := None)" and ?f = "\<lambda>c. if c = dst then src else c"
  have f: "cte_pid c = cte_pid (?f c)" for c using pids by simp
  have old: "U (?f c) = Some x" if "?V c = Some x" for c x
    using that dst by (simp split: if_splits)
  show ?thesis
  proof (rule pmp_invI)
    fix c rwx k a
    assume "?V c = Some (rwx, k, a)"
    from pmp_invD(1) [OF inv old [OF this]]
    show "k < S3K_PMP_CNT \<and> cte_pid c < length ps
      \<and> pmpcfg (ps ! cte_pid c) ! k = ucast rwx OR 0x18 \<and> pmpaddr (ps ! cte_pid c) ! k = ucast a"
      by (simp only: f [of c])
  next
    fix c d rwx rwx' k a a'
    assume c: "?V c = Some (rwx, k, a)" and d: "?V d = Some (rwx', k, a')"
      and "cte_pid c = cte_pid d"
    then have "cte_pid (?f c) = cte_pid (?f d)" by (simp only: f [symmetric])
    from pmp_invD(2) [OF inv old [OF c] old [OF d] this] c d show "c = d"
      by (auto split: if_splits)
  next
    fix p k
    assume "p < length ps" "k < S3K_PMP_CNT" "pmpcfg (ps ! p) ! k \<noteq> 0"
    from pmp_invD(3) [OF inv this] obtain c rwx a
      where c: "U c = Some (rwx, k, a)" "cte_pid c = p" by blast
    let ?c = "if c = src then dst else c"
    have "?V ?c = Some (rwx, k, a)" "cte_pid ?c = p" using c pids dst by auto
    then show "\<exists>c rwx a. ?V c = Some (rwx, k, a) \<and> cte_pid c = p" by blast
  qed
qed

text \<open>Loading a frame in a free slot, and unloading it.\<close>

lemma napot_cfg_nonzero: "(ucast r :: u8) OR 0x18 \<noteq> 0" for r :: rwx_t
proof -
  have "bit ((ucast r :: u8) OR 0x18) 3"
    by (simp add: bit_simps bit_numeral_rec)
  then show ?thesis by (metis bit_0_eq bot_apply bot_bool_def)
qed

definition load_slot :: "nat \<Rightarrow> u8 \<Rightarrow> u64 \<Rightarrow> proc_t \<Rightarrow> proc_t" where
  "load_slot k cfg a q = q\<lparr>pmpcfg := (pmpcfg q)[k := cfg], pmpaddr := (pmpaddr q)[k := a]\<rparr>"

definition clear_slot :: "nat \<Rightarrow> proc_t \<Rightarrow> proc_t" where
  "clear_slot k q = q\<lparr>pmpcfg := (pmpcfg q)[k := 0]\<rparr>"

lemma pmp_inv_load:
  assumes inv: "pmp_inv U ps" and p: "cte_pid c < length ps" and k: "k < S3K_PMP_CNT"
    and len: "length (pmpcfg (ps ! cte_pid c)) = S3K_PMP_CNT"
      "length (pmpaddr (ps ! cte_pid c)) = S3K_PMP_CNT"
    and free: "pmpcfg (ps ! cte_pid c) ! k = 0" and c: "U c = None"
  shows "pmp_inv (U(c := Some (rwx, k, a)))
    (ps[cte_pid c := load_slot k (ucast rwx OR 0x18) (ucast a) (ps ! cte_pid c)])"
    (is "pmp_inv ?V ?ps")
proof -
  have other: "k' \<noteq> k" if "U d = Some (r, k', b)" "cte_pid d = cte_pid c" for d r k' b
    using pmp_invD(1) [OF inv that(1)] that(2) free napot_cfg_nonzero [of r] by auto
  have cfg: "pmpcfg (?ps ! q) ! j = (if q = cte_pid c \<and> j = k then ucast rwx OR 0x18 else pmpcfg (ps ! q) ! j)"
    "pmpaddr (?ps ! q) ! j = (if q = cte_pid c \<and> j = k then ucast a else pmpaddr (ps ! q) ! j)"
    for q j using p k len by (auto simp: nth_list_update load_slot_def)
  show ?thesis
  proof (rule pmp_invI)
    fix d r j b
    assume "?V d = Some (r, j, b)"
    then show "j < S3K_PMP_CNT \<and> cte_pid d < length ?ps
      \<and> pmpcfg (?ps ! cte_pid d) ! j = ucast r OR 0x18 \<and> pmpaddr (?ps ! cte_pid d) ! j = ucast b"
      using p k pmp_invD(1) [OF inv, of d r j b] other [of d r j b]
      by (auto simp: cfg split: if_splits)
  next
    fix d e r r' j b b'
    assume "?V d = Some (r, j, b)" "?V e = Some (r', j, b')" "cte_pid d = cte_pid e"
    then show "d = e"
      using pmp_invD(2) [OF inv, of d r j b e r' b'] other [of d r j b] other [of e r' j b']
      by (auto split: if_splits)
  next
    fix q j
    assume q: "q < length ?ps" "j < S3K_PMP_CNT" "pmpcfg (?ps ! q) ! j \<noteq> 0"
    show "\<exists>d r b. ?V d = Some (r, j, b) \<and> cte_pid d = q"
    proof (cases "q = cte_pid c \<and> j = k")
      case False
      with q obtain d r b where "U d = Some (r, j, b)" "cte_pid d = q"
        using pmp_invD(3) [OF inv, of q j] by (auto simp: cfg)
      with c show ?thesis by (intro exI [of _ d]) auto
    qed auto
  qed
qed

lemma pmp_inv_unload:
  assumes inv: "pmp_inv U ps" and c: "U c = Some (rwx, k, a)"
    and len: "length (pmpcfg (ps ! cte_pid c)) = S3K_PMP_CNT"
  shows "pmp_inv (U(c := None)) (ps[cte_pid c := clear_slot k (ps ! cte_pid c)])"
    (is "pmp_inv ?V ?ps")
proof -
  note pk = pmp_invD(1) [OF inv c]
  have cfg: "pmpcfg (?ps ! q) ! j = (if q = cte_pid c \<and> j = k then 0 else pmpcfg (ps ! q) ! j)"
    "pmpaddr (?ps ! q) = pmpaddr (ps ! q)"
    for q j using pk len by (auto simp: nth_list_update clear_slot_def)
  show ?thesis
  proof (rule pmp_invI)
    fix d r j b
    assume "?V d = Some (r, j, b)"
    then show "j < S3K_PMP_CNT \<and> cte_pid d < length ?ps
      \<and> pmpcfg (?ps ! cte_pid d) ! j = ucast r OR 0x18 \<and> pmpaddr (?ps ! cte_pid d) ! j = ucast b"
      using pmp_invD(1) [OF inv, of d r j b] pmp_invD(2) [OF inv c, of d r b]
      by (auto simp: cfg split: if_splits)
  next
    fix d e r r' j b b'
    assume "?V d = Some (r, j, b)" "?V e = Some (r', j, b')" "cte_pid d = cte_pid e"
    then show "d = e"
      using pmp_invD(2) [OF inv, of d r j b e r' b'] by (auto split: if_splits)
  next
    fix q j
    assume q: "q < length ?ps" "j < S3K_PMP_CNT" "pmpcfg (?ps ! q) ! j \<noteq> 0"
    then obtain d r b where "U d = Some (r, j, b)" "cte_pid d = q" "\<not> (q = cte_pid c \<and> j = k)"
      using pmp_invD(3) [OF inv, of q j] by (auto simp: cfg split: if_splits)
    with c show "\<exists>d r b. ?V d = Some (r, j, b) \<and> cte_pid d = q"
      by (intro exI [of _ d]) auto
  qed
qed

section \<open>Changes of the kernel state\<close>

lemma kinv_misc [simp]:
  "kinv (s\<lparr>reads := n\<rparr>) = kinv s" "kinv (s\<lparr>cap_lock := l\<rparr>) = kinv s"
  "kinv (s\<lparr>mtimecmp := t\<rparr>) = kinv s" "kinv (s\<lparr>csr_pmpaddr := a\<rparr>) = kinv s"
  "kinv (s\<lparr>csr_pmpcfg := b\<rparr>) = kinv s"
  "kinv (s\<lparr>csr_pmpaddr := a, csr_pmpcfg := b\<rparr>) = kinv s"
  by (simp_all add: kinv_def)

lemma kinv_slots: "kinv s \<Longrightarrow> slots_ok ss \<Longrightarrow> kinv (s\<lparr>slots := ss\<rparr>)"
  by (simp add: kinv_def)

lemma kinv_upd_proc:
  assumes inv: "kinv s"
    and f: "\<And>q. proc_ok p q \<Longrightarrow> proc_ok p (f q) \<and> pmpcfg (f q) = pmpcfg q \<and> pmpaddr (f q) = pmpaddr q"
  shows "kinv (upd_proc s p f)"
proof (cases "p < S3K_PROC_CNT")
  case True
  note len = kinv_lengths(2) [OF inv] and q = f [OF kinv_proc_ok [OF inv True]]
  have "procs_ok (procs (upd_proc s p f))"
    using kinvD(2) [OF inv] q len True by (simp add: procs_ok_def procs_upd_proc)
  moreover have "pmp_inv (pmp_used (ctable s)) (procs (upd_proc s p f))"
    using kinvD(5) [OF inv] q len True
    by (subst pmp_inv_cong [where ps = "procs s"]) (simp_all add: procs_upd_proc)
  ultimately show ?thesis using inv by (simp add: kinv_def)
next
  case False
  with kinv_lengths(2) [OF inv] inv show ?thesis
    by (simp add: upd_proc_def list_update_beyond kinv_def)
qed

lemma kinv_set_reg [simp, intro!]: "kinv s \<Longrightarrow> kinv (set_reg s p r v)"
  unfolding set_reg_def by (rule kinv_upd_proc) (simp_all add: proc_ok_def)

lemma kinv_set_timeout [simp, intro!]: "kinv s \<Longrightarrow> kinv (upd_proc s p (\<lambda>q. q\<lparr>timeout := t\<rparr>))"
  by (rule kinv_upd_proc) (simp_all add: proc_ok_def)

lemma kinv_set_state [simp, intro!]:
  "kinv s \<Longrightarrow> state_ok st \<Longrightarrow> kinv (upd_proc s p (\<lambda>q. q\<lparr>pstate := st\<rparr>))"
  by (rule kinv_upd_proc) (simp_all add: proc_ok_def)

lemma upd_chan_ok:
  assumes "kinv s" "unat ch < S3K_CHAN_CNT" "\<And>c. chan_ok c \<Longrightarrow> chan_ok (f c)"
    and "\<And>chs. kinv (s\<lparr>channels := chs\<rparr>) \<Longrightarrow> Q (s\<lparr>channels := chs\<rparr>)"
  shows "ok Q (upd_chan s ch f)"
proof -
  let ?chs = "(channels s)[unat ch := f (channels s ! unat ch)]"
  have l: "unat ch < length (channels s)" using assms(1,2) by (simp add: kinv_lengths)
  then have "chan_ok (f (channels s ! unat ch))"
    using assms(3) kinvD(3) [OF assms(1)] by (auto simp: chans_ok_def)
  then have "chans_ok ?chs"
    using kinvD(3) [OF assms(1)] set_update_subset_insert [of "channels s"]
    by (auto simp: chans_ok_def)
  then have "kinv (s\<lparr>channels := ?chs\<rparr>)" using assms(1) by (simp add: kinv_def)
  from assms(4) [OF this] l show ?thesis by (simp add: upd_chan_def)
qed

lemma kinv_get_chan:
  assumes "kinv s" "unat ch < S3K_CHAN_CNT"
  shows "get_chan s ch = Some (channels s ! unat ch)" "chan_ok (channels s ! unat ch)"
  using assms kinvD(3) [OF assms(1)] by (simp_all add: get_chan_def kinv_lengths chans_ok_def)

lemma set_ctable_simps [simp, ksimps]:
  "ctable (set_ctable s ct) = ct" "procs (set_ctable s ct) = procs s"
  "channels (set_ctable s ct) = channels s" "slots (set_ctable s ct) = slots s"
  "cap_lock (set_ctable s ct) = cap_lock s" "mtimecmp (set_ctable s ct) = mtimecmp s"
  "csr_pmpaddr (set_ctable s ct) = csr_pmpaddr s" "csr_pmpcfg (set_ctable s ct) = csr_pmpcfg s"
  "mhartid (set_ctable s ct) = mhartid s" "mtime (set_ctable s ct) = mtime s"
  "mip (set_ctable s ct) = mip s" "reads (set_ctable s ct) = reads s"
  "set_ctable (set_ctable s ct) ct' = set_ctable s ct'"
  by (simp_all add: set_ctable_def)

lemma upd_proc_set_ctable [simp]: "upd_proc (set_ctable s ct) p f = set_ctable (upd_proc s p f) ct"
  by (simp add: upd_proc_def set_ctable_def)

lemma kinv_set_cap:
  assumes "kinv s" "c < length (ctable s)" "cap_ok cp" "used_of cp = used_of (cte_cap (ctable s) c)"
  shows "kinv (set_ctable s (cte_set_cap (ctable s) c cp))"
proof -
  have "(pmp_used (ctable s))(c := used_of cp) = pmp_used (ctable s)"
    using assms(2,4) by (simp add: fun_eq_iff pmp_used_cap)
  with assms show ?thesis by (simp add: kinv_def pmp_used_ops table_ok_set_cap)
qed

lemma kinv_delete:
  assumes "kinv s" "c < length (ctable s)" "used_of (cte_cap (ctable s) c) = None"
  shows "kinv (set_ctable s (cte_delete (ctable s) c))"
  using assms by (simp add: kinv_def pmp_used_ops table_ok_delete pmp_inv_unused pmp_used_cap)

lemma kinv_insert:
  assumes "kinv s" "c < length (ctable s)" "p < length (ctable s)" "cte_is_empty (ctable s) c"
    "cap_ok cp" "used_of cp = None"
  shows "kinv (set_ctable s (cte_insert (ctable s) c cp p))"
proof -
  have "used_of (cte_cap (ctable s) c) = None"
    using assms(4) by (cases "cte_cap (ctable s) c") (simp_all add: cte_is_empty_def)
  with assms show ?thesis
    by (simp add: kinv_def pmp_used_ops table_ok_insert pmp_inv_unused pmp_used_cap)
qed

lemma kinv_move:
  assumes "kinv s" "src < length (ctable s)" "dst < length (ctable s)" "src \<noteq> dst"
    "cte_is_empty (ctable s) dst"
    and "cte_pid src = cte_pid dst \<or> used_of (cte_cap (ctable s) src) = None"
  shows "kinv (set_ctable s (cte_move (ctable s) src dst))"
proof -
  have dst: "pmp_used (ctable s) dst = None"
    using assms(5) by (cases "cte_cap (ctable s) dst") (simp_all add: cte_is_empty_def pmp_used_cap)
  have "pmp_inv ((pmp_used (ctable s))(dst := pmp_used (ctable s) src, src := None)) (procs s)"
  proof (cases "pmp_used (ctable s) src")
    case None
    with kinvD(5) [OF assms(1)] dst show ?thesis by (simp add: pmp_inv_unused fun_upd_idem)
  next
    case (Some x)
    with assms have "cte_pid src = cte_pid dst" by (auto simp: pmp_used_cap)
    from pmp_inv_move [OF kinvD(5) [OF assms(1)] this dst assms(4)] show ?thesis .
  qed
  with assms show ?thesis by (simp add: kinv_def pmp_used_ops table_ok_move)
qed

text \<open>Unloading a frame, together with the change of the capability that describes it.\<close>

lemma kinv_unload:
  assumes inv: "kinv s" and c: "c < length (ctable s)" "cte_cap (ctable s) c = PmpCap rwx True slot addr"
    and ct: "table_ok ct" "pmp_used ct = (pmp_used (ctable s))(c := None)"
  shows "kinv (set_ctable (upd_proc s (cte_pid c) (clear_slot (unat slot))) ct)"
proof -
  have p: "cte_pid c < S3K_PROC_CNT" using inv c(1) by (simp add: kinv_lengths cte_pid_bound)
  note q = kinv_proc_ok [OF inv p]
  have U: "pmp_used (ctable s) c = Some (rwx, unat slot, addr)" using c by (simp add: pmp_used_cap)
  have "procs_ok (procs (upd_proc s (cte_pid c) (clear_slot (unat slot))))"
    using kinvD(2) [OF inv] q p kinv_lengths(2) [OF inv]
    by (simp add: procs_ok_def procs_upd_proc clear_slot_def proc_ok_def)
  moreover have "pmp_inv (pmp_used ct) (procs (upd_proc s (cte_pid c) (clear_slot (unat slot))))"
    using pmp_inv_unload [OF kinvD(5) [OF inv] U] q ct(2)
    by (simp add: upd_proc_def proc_ok_def)
  ultimately show ?thesis using inv ct(1) by (simp add: kinv_def)
qed

lemma proc_pmp_unload_eq:
  "unat slot < S3K_PMP_CNT \<Longrightarrow>
    proc_pmp_unload s p slot = Some (upd_proc s p (clear_slot (unat slot)))"
  by (simp add: proc_pmp_unload_def clear_slot_def [abs_def])

lemma proc_pmp_load_eq:
  "unat slot < S3K_PMP_CNT \<Longrightarrow> proc_pmp_load s p slot rwx a =
    Some (upd_proc s p (load_slot (unat slot) (ucast rwx OR 0x18) a))"
  by (simp add: proc_pmp_load_def load_slot_def [abs_def])

section \<open>What the capability operations leave alone\<close>

text \<open>
  The state, the registers and the timeout of every process, the capability lock and the
  devices are the same; the number of reads of volatile registers may have grown.
\<close>

definition pview :: "proc_t \<Rightarrow> u64 \<times> (reg_t \<Rightarrow> u64) \<times> u64 \<times> pid_t" where
  "pview q = (pstate q, regs q, timeout q, pid q)"

definition frame :: "kstate \<Rightarrow> kstate \<Rightarrow> bool" where
  "frame s s' \<longleftrightarrow> map pview (procs s') = map pview (procs s) \<and> cap_lock s' = cap_lock s
     \<and> mtimecmp s' = mtimecmp s \<and> mhartid s' = mhartid s \<and> mtime s' = mtime s \<and> mip s' = mip s
     \<and> csr_pmpaddr s' = csr_pmpaddr s \<and> csr_pmpcfg s' = csr_pmpcfg s \<and> reads s' = reads s"

lemma frame_refl [simp]: "frame s s"
  by (simp add: frame_def)

lemma frame_trans: "frame s t \<Longrightarrow> frame t u \<Longrightarrow> frame s u"
  by (simp add: frame_def)

lemma frame_set_ctable [simp]: "frame s (set_ctable t ct) = frame s t"
  by (simp add: frame_def)

lemma frame_slots [simp]: "frame s (t\<lparr>slots := ss\<rparr>) = frame s t"
  by (simp add: frame_def)

lemma frame_channels [simp]: "frame s (t\<lparr>channels := cs\<rparr>) = frame s t"
  by (simp add: frame_def)

lemma map_update_id: "f (g (xs ! i)) = f (xs ! i) \<Longrightarrow> map f (xs[i := g (xs ! i)]) = map f xs"
  by (cases "i < length xs") (simp_all add: map_update list_update_beyond list_update_same_conv)

lemma frame_pmp_slot [simp]:
  "frame s (upd_proc t p (clear_slot k)) = frame s t"
  "frame s (upd_proc t p (load_slot k x a)) = frame s t"
proof -
  have "map pview (procs (upd_proc t p (clear_slot k))) = map pview (procs t)"
    unfolding upd_proc_def by (simp, rule map_update_id) (simp add: pview_def clear_slot_def)
  then show "frame s (upd_proc t p (clear_slot k)) = frame s t"
    by (simp add: frame_def)
  have "map pview (procs (upd_proc t p (load_slot k x a))) = map pview (procs t)"
    unfolding upd_proc_def by (simp, rule map_update_id) (simp add: pview_def load_slot_def)
  then show "frame s (upd_proc t p (load_slot k x a)) = frame s t"
    by (simp add: frame_def)
qed

lemma frame_proc:
  assumes "frame s s'" "p < length (procs s)"
  shows "pstate (procs s' ! p) = pstate (procs s ! p)" "regs (procs s' ! p) = regs (procs s ! p)"
    "timeout (procs s' ! p) = timeout (procs s ! p)" "pid (procs s' ! p) = pid (procs s ! p)"
proof -
  from assms have "map pview (procs s') ! p = map pview (procs s) ! p" "length (procs s') = length (procs s)"
    by (simp_all add: frame_def) (metis length_map)
  with assms show "pstate (procs s' ! p) = pstate (procs s ! p)" "regs (procs s' ! p) = regs (procs s ! p)"
    "timeout (procs s' ! p) = timeout (procs s ! p)" "pid (procs s' ! p) = pid (procs s ! p)"
    by (simp_all add: pview_def)
qed

section \<open>Process states\<close>

lemma PSF_values: "PSF_BUSY OR PSF_SUSPENDED = 5" "PSF_BUSY = 1" "PSF_SUSPENDED = 4" "PSF_BLOCKED = 2"
  by (simp_all add: PSF_BUSY_def PSF_SUSPENDED_def PSF_BLOCKED_def)

lemma blocked_flags:
  "blocked_on ch AND NOT PSF_SUSPENDED = blocked_on ch"
  "(blocked_on ch OR PSF_BUSY) AND NOT PSF_SUSPENDED = blocked_on ch OR PSF_BUSY"
  "(blocked_on ch OR PSF_BUSY) XOR PSF_BUSY = blocked_on ch"
  "(blocked_on ch OR PSF_BUSY) AND NOT PSF_BUSY = blocked_on ch"
  by (rule bit_word_eqI; auto simp: bit_simps bit_blocked_on bit_PSF)+

lemma blocked_bits:
  "bit (blocked_on ch) (Suc 0)" "\<not> bit (blocked_on ch) 0" "\<not> bit (blocked_on ch) 2"
  "bit (blocked_on ch OR PSF_BUSY) 0" "bit (blocked_on ch OR PSF_BUSY) (Suc 0)"
  by (simp_all add: bit_blocked_on bit_simps bit_PSF)

lemma state_ok_busy [simp]: "state_ok PSF_BUSY" "state_ok PSF_SUSPENDED" "state_ok 0"
  "state_ok (blocked_on ch)" "state_ok (blocked_on ch OR PSF_BUSY)"
  by (auto simp: state_ok_def)

lemma state_ok_cases:
  assumes "state_ok st"
  obtains "st = 0" | "st = PSF_BUSY" | "st = PSF_SUSPENDED" | "st = PSF_BUSY OR PSF_SUSPENDED"
  | ch where "st = blocked_on ch" | ch where "st = blocked_on ch OR PSF_BUSY"
  using assms by (auto simp: state_ok_def)

lemma state_ok_suspend: "state_ok st \<Longrightarrow> st AND PSF_BLOCKED = 0 \<Longrightarrow> state_ok (st OR PSF_SUSPENDED)"
  using and_PSF_iff(2) [of st]
  by (elim state_ok_cases) (auto simp: blocked_bits, simp_all add: state_ok_def PSF_values)

lemma state_ok_resume: "state_ok st \<Longrightarrow> state_ok (st AND NOT PSF_SUSPENDED)"
  by (elim state_ok_cases) (auto simp: blocked_flags, simp_all add: state_ok_def PSF_values)

lemma state_ok_release:
  "state_ok st \<Longrightarrow> bit st 0 \<Longrightarrow> state_ok (st XOR PSF_BUSY) \<and> state_ok (st AND NOT PSF_BUSY)"
  by (elim state_ok_cases) (auto simp: blocked_flags blocked_bits, simp_all add: state_ok_def PSF_values)

text \<open>A process that a hart runs, possibly with a suspension pending.\<close>

definition running :: "kstate \<Rightarrow> proc_ptr \<Rightarrow> bool" where
  "running s p \<longleftrightarrow> pstate (procs s ! p) \<in> {PSF_BUSY, PSF_BUSY OR PSF_SUSPENDED}"

definition busy :: "kstate \<Rightarrow> proc_ptr \<Rightarrow> bool" where
  "busy s p \<longleftrightarrow> bit (pstate (procs s ! p)) 0"

lemma running_busy: "running s p \<Longrightarrow> busy s p"
  by (auto simp: running_def busy_def bit_simps bit_PSF)

text \<open>What every step of the kernel leaves alone: the environment and the running processes.\<close>

definition env_same :: "kstate \<Rightarrow> kstate \<Rightarrow> bool" where
  "env_same s s' \<longleftrightarrow> cap_lock s' = cap_lock s \<and> mhartid s' = mhartid s \<and> mtime s' = mtime s
     \<and> mip s' = mip s"

definition runs_on :: "kstate \<Rightarrow> kstate \<Rightarrow> bool" where
  "runs_on s s' \<longleftrightarrow> (\<forall>q < S3K_PROC_CNT. running s q \<longrightarrow> running s' q)"

lemma env_same_refl [simp]: "env_same s s" "runs_on s s"
  by (simp_all add: env_same_def runs_on_def)

lemma env_same_trans: "env_same s t \<Longrightarrow> env_same t u \<Longrightarrow> env_same s u"
  by (auto simp: env_same_def)

lemma runs_on_trans: "runs_on s t \<Longrightarrow> runs_on t u \<Longrightarrow> runs_on s u"
  by (auto simp: runs_on_def)

lemma frame_env: "frame s s' \<Longrightarrow> env_same s s'"
  by (simp add: frame_def env_same_def)

lemma frame_runs: "kinv s \<Longrightarrow> frame s s' \<Longrightarrow> runs_on s s'"
  by (simp add: runs_on_def running_def frame_proc kinv_lengths)

lemma env_same_upd [simp]:
  "env_same s (set_reg t p r v) = env_same s t" "env_same s (upd_proc t p f) = env_same s t"
  "env_same s (t\<lparr>channels := cs\<rparr>) = env_same s t" "env_same s (set_ctable t ct) = env_same s t"
  "env_same s (t\<lparr>reads := n\<rparr>) = env_same s t" "env_same (s\<lparr>reads := n\<rparr>) t = env_same s t"
  by (simp_all add: env_same_def)

lemma running_upd [simp]:
  "running (set_reg s p r v) q = running s q"
  "running (upd_proc s p (\<lambda>q. q\<lparr>timeout := t\<rparr>)) q = running s q"
  "running (s\<lparr>reads := n\<rparr>) q = running s q" "running (s\<lparr>channels := cs\<rparr>) q = running s q"
  "running (set_ctable s ct) q = running s q"
  by (cases "p < length (procs s)";
      simp add: running_def set_reg_def upd_proc_def nth_list_update list_update_beyond)+

lemma runs_on_upd [simp]:
  "runs_on s (set_reg t p r v) = runs_on s t"
  "runs_on s (upd_proc t p (\<lambda>q. q\<lparr>timeout := u\<rparr>)) = runs_on s t"
  "runs_on s (t\<lparr>reads := n\<rparr>) = runs_on s t" "runs_on s (t\<lparr>channels := cs\<rparr>) = runs_on s t"
  "runs_on s (set_ctable t ct) = runs_on s t"
  by (simp_all add: runs_on_def)

end
