(* ===== verification/CapOps.thy ===== *)
theory CapOps
  imports Invariant
begin

text \<open>
  Capability operations, \<open>kernel/src/cap_ops.c\<close>: reading, moving, deleting, revoking and
  deriving capabilities. The handler tables of the C file are the functions
  \<open>delete_handlers\<close>, \<open>revoke_handlers\<close> and \<open>derive_handlers\<close>; a type that has no handler
  is an index out of range or a null function pointer, hence \<open>None\<close>. A handler is called
  with a capability of its own type; the remaining case of each handler is not reached.
\<close>

section \<open>Reading and moving\<close>

definition cap_read :: "cte list \<Rightarrow> cte_t \<Rightarrow> err_t \<times> cap" where
  "cap_read ct c =
    (let cp = cte_cap ct c in (if raw_of_cap cp \<noteq> 0 then SUCCESS else ERR_EMPTY, cp))"

definition cap_ipc_move_hook :: "kstate \<Rightarrow> cte_t \<Rightarrow> cte_t \<Rightarrow> kstate option" where
  "cap_ipc_move_hook s src dst =
    (case cte_cap (ctable s) src of
       TimeCap pad hart bgn mrk end' \<Rightarrow>
         sched_update s (cte_pid dst) (unat end') (unat hart) (unat mrk) (unat end')
     | PmpCap rwx used slot addr \<Rightarrow>
         if used then do {
           p \<leftarrow> proc_get s (cte_pid src);
           s \<leftarrow> proc_pmp_unload s p slot;
           Some (set_ctable s (cte_set_cap (ctable s) src (PmpCap rwx False 0 addr)))
         } else Some s
     | _ \<Rightarrow> Some s)"

definition cap_move :: "kstate \<Rightarrow> cte_t \<Rightarrow> cte_t \<Rightarrow> (err_t \<times> kstate) option" where
  "cap_move s src dst =
    (if cte_is_empty (ctable s) src then Some (ERR_SRC_EMPTY, s)
     else if \<not> cte_is_empty (ctable s) dst then Some (ERR_DST_OCCUPIED, s)
     else do {
       s \<leftarrow> (if cte_pid src \<noteq> cte_pid dst then cap_ipc_move_hook s src dst else Some s);
       Some (SUCCESS, set_ctable s (cte_move (ctable s) src dst))
     })"

section \<open>Time slices\<close>

definition cap_delete_time :: "kstate \<Rightarrow> cte_t \<Rightarrow> cap \<Rightarrow> (err_t \<times> kstate) option" where
  "cap_delete_time s c cap = (case cap of
     TimeCap pad hart bgn mrk end' \<Rightarrow> do {
       s \<leftarrow> sched_delete s (unat hart) (unat mrk) (unat end');
       Some (SUCCESS, set_ctable s (cte_delete (ctable s) c))
     }
   | _ \<Rightarrow> None)"

text \<open>The test of \<open>cap_revoke_time\<close> that the next capability is a child of the parent.\<close>

definition is_time_child :: "cap \<Rightarrow> cap \<Rightarrow> bool" where
  "is_time_child pcap ccap = (case (pcap, ccap) of
     (TimeCap ppad phart pbgn pmrk pend, TimeCap cpad chart cbgn cmrk cend) \<Rightarrow>
       phart = chart \<and> pbgn \<le> cbgn \<and> cend \<le> pend
   | _ \<Rightarrow> False)"

definition cap_revoke_time :: "kstate \<Rightarrow> cte_t \<Rightarrow> cap \<Rightarrow> (err_t \<times> kstate) option" where
  "cap_revoke_time s parent pcap =
    (let child = cte_next (ctable s) parent;
         ccap = cte_cap (ctable s) child
     in case pcap of
       TimeCap pad hart bgn mrk end' \<Rightarrow>
         (case ccap of
            TimeCap cpad chart cbgn cmrk cend \<Rightarrow>
              if is_time_child pcap ccap then do {
                let s = set_ctable s (cte_delete (ctable s) child);
                s \<leftarrow> sched_update s (cte_pid parent) (unat end') (unat hart) (unat cmrk) (unat mrk);
                let s = set_ctable s
                  (cte_set_cap (ctable s) parent (TimeCap pad hart bgn cmrk end'));
                Some (if cmrk = bgn then SUCCESS else CONTINUE, s)
              } else do {
                s \<leftarrow> sched_update s (cte_pid parent) (unat end') (unat hart) (unat bgn) (unat mrk);
                Some (SUCCESS, set_ctable s
                  (cte_set_cap (ctable s) parent (TimeCap pad hart bgn bgn end')))
              }
          | _ \<Rightarrow> do {
              s \<leftarrow> sched_update s (cte_pid parent) (unat end') (unat hart) (unat bgn) (unat mrk);
              Some (SUCCESS, set_ctable s
                (cte_set_cap (ctable s) parent (TimeCap pad hart bgn bgn end')))
            })
     | _ \<Rightarrow> None)"

definition cap_derive_time ::
  "kstate \<Rightarrow> cte_t \<Rightarrow> cap \<Rightarrow> cte_t \<Rightarrow> cap \<Rightarrow> (err_t \<times> kstate) option" where
  "cap_derive_time s src cap dst new_cap = (case cap of
     TimeCap pad hart bgn mrk end' \<Rightarrow>
       (case new_cap of
          TimeCap npad nhart nbgn nmrk nend \<Rightarrow>
            if nhart = hart \<and> nbgn = mrk \<and> nend \<le> end' then do {
              s \<leftarrow> sched_update s (cte_pid dst) (unat nend) (unat nhart) (unat nbgn) (unat nend);
              let s = set_ctable s
                (cte_set_cap (ctable s) src (TimeCap pad hart bgn nend end'));
              Some (SUCCESS, set_ctable s (cte_insert (ctable s) dst new_cap src))
            } else Some (ERR_INVALID_DERIVATION, s)
        | _ \<Rightarrow> Some (ERR_INVALID_DERIVATION, s))
   | _ \<Rightarrow> None)"

section \<open>Memory slices\<close>

definition cap_delete_memory :: "kstate \<Rightarrow> cte_t \<Rightarrow> cap \<Rightarrow> (err_t \<times> kstate) option" where
  "cap_delete_memory s c cap = Some (SUCCESS, set_ctable s (cte_delete (ctable s) c))"

definition cap_revoke_memory :: "kstate \<Rightarrow> cte_t \<Rightarrow> cap \<Rightarrow> (err_t \<times> kstate) option" where
  "cap_revoke_memory s parent pcap =
    (let child = cte_next (ctable s) parent;
         ccap = cte_cap (ctable s) child
     in case pcap of
       MemCap rwx lck tag bgn mrk end' \<Rightarrow>
         (case ccap of
            MemCap crwx clck ctag cbgn cmrk cend \<Rightarrow>
              if tag = ctag \<and> bgn \<le> cbgn then
                (let s = set_ctable s (cte_delete (ctable s) child);
                     s = set_ctable s
                       (cte_set_cap (ctable s) parent (MemCap rwx clck tag bgn cmrk end'))
                 in Some (if cmrk = bgn \<and> \<not> clck then SUCCESS else CONTINUE, s))
              else Some (SUCCESS, set_ctable s
                (cte_set_cap (ctable s) parent (MemCap rwx False tag bgn bgn end')))
          | PmpCap crwx used slot addr \<Rightarrow>
              if tag_block_to_addr tag bgn \<le> fst (pmp_napot_decode (ucast addr)) then do {
                let s = set_ctable s (cte_delete (ctable s) child);
                s \<leftarrow> (if used then do {
                        p \<leftarrow> proc_get s (cte_pid child);
                        proc_pmp_unload s p slot
                      } else Some s);
                Some (CONTINUE, s)
              } else Some (SUCCESS, set_ctable s
                (cte_set_cap (ctable s) parent (MemCap rwx False tag bgn bgn end')))
          | _ \<Rightarrow> Some (SUCCESS, set_ctable s
              (cte_set_cap (ctable s) parent (MemCap rwx False tag bgn bgn end'))))
     | _ \<Rightarrow> None)"

definition cap_derive_memory ::
  "kstate \<Rightarrow> cte_t \<Rightarrow> cap \<Rightarrow> cte_t \<Rightarrow> cap \<Rightarrow> (err_t \<times> kstate) option" where
  "cap_derive_memory s src cap dst new_cap = (case cap of
     MemCap rwx lck tag bgn mrk end' \<Rightarrow>
       (case new_cap of
          MemCap nrwx nlck ntag nbgn nmrk nend \<Rightarrow>
            if tag = ntag \<and> mrk \<le> nbgn \<and> nend \<le> end' \<and> nrwx AND rwx = nrwx \<and> \<not> lck then
              (let s = set_ctable s
                 (cte_set_cap (ctable s) src (MemCap rwx lck tag bgn nend end'))
               in Some (SUCCESS, set_ctable s (cte_insert (ctable s) dst new_cap src)))
            else Some (ERR_INVALID_DERIVATION, s)
        | PmpCap nrwx used slot addr \<Rightarrow>
            (let (pmp_begin, pmp_size) = pmp_napot_decode (ucast addr);
                 pmp_end = pmp_size + pmp_begin
             in if tag_block_to_addr tag mrk \<le> pmp_begin
                   \<and> pmp_end \<le> tag_block_to_addr tag end' \<and> nrwx AND rwx = nrwx then
                  (let s = set_ctable s
                     (cte_set_cap (ctable s) src (MemCap rwx True tag bgn mrk end'))
                   in Some (SUCCESS, set_ctable s (cte_insert (ctable s) dst new_cap src)))
                else Some (ERR_INVALID_DERIVATION, s))
        | _ \<Rightarrow> Some (ERR_INVALID_DERIVATION, s))
   | _ \<Rightarrow> None)"

section \<open>PMP frames\<close>

definition cap_delete_pmp :: "kstate \<Rightarrow> cte_t \<Rightarrow> cap \<Rightarrow> (err_t \<times> kstate) option" where
  "cap_delete_pmp s c cap = (case cap of
     PmpCap rwx used slot addr \<Rightarrow> do {
       p \<leftarrow> proc_get s (cte_pid c);
       s \<leftarrow> (if used then proc_pmp_unload s p slot else Some s);
       Some (SUCCESS, set_ctable s (cte_delete (ctable s) c))
     }
   | _ \<Rightarrow> None)"

definition cap_revoke_pmp :: "kstate \<Rightarrow> cte_t \<Rightarrow> cap \<Rightarrow> (err_t \<times> kstate) option" where
  "cap_revoke_pmp s parent pcap = Some (SUCCESS, s)"

definition cap_derive_pmp ::
  "kstate \<Rightarrow> cte_t \<Rightarrow> cap \<Rightarrow> cte_t \<Rightarrow> cap \<Rightarrow> (err_t \<times> kstate) option" where
  "cap_derive_pmp s src cap dst new_cap = Some (ERR_INVALID_DERIVATION, s)"

section \<open>Monitors\<close>

definition cap_delete_monitor :: "kstate \<Rightarrow> cte_t \<Rightarrow> cap \<Rightarrow> (err_t \<times> kstate) option" where
  "cap_delete_monitor s c cap = Some (SUCCESS, set_ctable s (cte_delete (ctable s) c))"

definition cap_revoke_monitor :: "kstate \<Rightarrow> cte_t \<Rightarrow> cap \<Rightarrow> (err_t \<times> kstate) option" where
  "cap_revoke_monitor s parent pcap =
    (let child = cte_next (ctable s) parent;
         ccap = cte_cap (ctable s) child
     in case pcap of
       MonCap pad bgn mrk end' \<Rightarrow>
         (case ccap of
            MonCap cpad cbgn cmrk cend \<Rightarrow>
              if bgn \<le> cbgn then
                (let s = set_ctable s (cte_delete (ctable s) child);
                     s = set_ctable s (cte_set_cap (ctable s) parent (MonCap pad bgn cmrk end'))
                 in Some (if cmrk = bgn then SUCCESS else CONTINUE, s))
              else Some (SUCCESS, set_ctable s
                (cte_set_cap (ctable s) parent (MonCap pad bgn bgn end')))
          | _ \<Rightarrow> Some (SUCCESS, set_ctable s
              (cte_set_cap (ctable s) parent (MonCap pad bgn bgn end'))))
     | _ \<Rightarrow> None)"

definition cap_derive_monitor ::
  "kstate \<Rightarrow> cte_t \<Rightarrow> cap \<Rightarrow> cte_t \<Rightarrow> cap \<Rightarrow> (err_t \<times> kstate) option" where
  "cap_derive_monitor s src cap dst new_cap = (case cap of
     MonCap pad bgn mrk end' \<Rightarrow>
       (case new_cap of
          MonCap npad nbgn nmrk nend \<Rightarrow>
            if mrk \<le> nbgn \<and> nend \<le> end' then
              (let s = set_ctable s (cte_set_cap (ctable s) src (MonCap pad bgn nend end'))
               in Some (SUCCESS, set_ctable s (cte_insert (ctable s) dst new_cap src)))
            else Some (ERR_INVALID_DERIVATION, s)
        | _ \<Rightarrow> Some (ERR_INVALID_DERIVATION, s))
   | _ \<Rightarrow> None)"

section \<open>Channels\<close>

definition cap_delete_channel :: "kstate \<Rightarrow> cte_t \<Rightarrow> cap \<Rightarrow> (err_t \<times> kstate) option" where
  "cap_delete_channel s c cap = Some (SUCCESS, set_ctable s (cte_delete (ctable s) c))"

definition cap_revoke_channel :: "kstate \<Rightarrow> cte_t \<Rightarrow> cap \<Rightarrow> (err_t \<times> kstate) option" where
  "cap_revoke_channel s parent pcap =
    (let child = cte_next (ctable s) parent;
         ccap = cte_cap (ctable s) child
     in case pcap of
       ChanCap pad bgn mrk end' \<Rightarrow>
         (case ccap of
            ChanCap cpad cbgn cmrk cend \<Rightarrow>
              if bgn \<le> cbgn then
                (let s = set_ctable s (cte_delete (ctable s) child);
                     s = set_ctable s (cte_set_cap (ctable s) parent (ChanCap pad bgn cmrk end'))
                 in Some (if cmrk = bgn then SUCCESS else CONTINUE, s))
              else Some (SUCCESS, set_ctable s
                (cte_set_cap (ctable s) parent (ChanCap pad bgn bgn end')))
          | SockCap mode perm chan tag \<Rightarrow>
              if bgn \<le> chan then do {
                let s = set_ctable s (cte_delete (ctable s) child);
                p \<leftarrow> proc_get s (cte_pid child);
                s \<leftarrow> cap_sock_clear s ccap p;
                Some (CONTINUE, s)
              } else Some (SUCCESS, set_ctable s
                (cte_set_cap (ctable s) parent (ChanCap pad bgn bgn end')))
          | _ \<Rightarrow> Some (SUCCESS, set_ctable s
              (cte_set_cap (ctable s) parent (ChanCap pad bgn bgn end'))))
     | _ \<Rightarrow> None)"

definition cap_derive_channel ::
  "kstate \<Rightarrow> cte_t \<Rightarrow> cap \<Rightarrow> cte_t \<Rightarrow> cap \<Rightarrow> (err_t \<times> kstate) option" where
  "cap_derive_channel s src cap dst new_cap = (case cap of
     ChanCap pad bgn mrk end' \<Rightarrow>
       (case new_cap of
          ChanCap npad nbgn nmrk nend \<Rightarrow>
            if mrk \<le> nbgn \<and> nend \<le> end' then
              (let s = set_ctable s (cte_set_cap (ctable s) src (ChanCap pad bgn nend end'))
               in Some (SUCCESS, set_ctable s (cte_insert (ctable s) dst new_cap src)))
            else Some (ERR_INVALID_DERIVATION, s)
        | SockCap mode perm chan tag \<Rightarrow>
            if mrk \<le> chan \<and> chan < end' then
              (let s = set_ctable s (cte_set_cap (ctable s) src (ChanCap pad bgn (chan + 1) end'))
               in Some (SUCCESS, set_ctable s (cte_insert (ctable s) dst new_cap src)))
            else Some (ERR_INVALID_DERIVATION, s)
        | _ \<Rightarrow> Some (ERR_INVALID_DERIVATION, s))
   | _ \<Rightarrow> None)"

section \<open>Sockets\<close>

definition cap_delete_socket :: "kstate \<Rightarrow> cte_t \<Rightarrow> cap \<Rightarrow> (err_t \<times> kstate) option" where
  "cap_delete_socket s c cap = do {
     p \<leftarrow> proc_get s (cte_pid c);
     s \<leftarrow> cap_sock_clear s cap p;
     Some (SUCCESS, set_ctable s (cte_delete (ctable s) c))
   }"

definition cap_revoke_socket :: "kstate \<Rightarrow> cte_t \<Rightarrow> cap \<Rightarrow> (err_t \<times> kstate) option" where
  "cap_revoke_socket s parent pcap =
    (let child = cte_next (ctable s) parent;
         ccap = cte_cap (ctable s) child
     in if cap_type ccap = CAPTY_SOCKET \<and> sock_chan pcap = sock_chan ccap \<and> sock_tag pcap = 0
        then do {
          let s = set_ctable s (cte_delete (ctable s) child);
          p \<leftarrow> proc_get s (cte_pid child);
          s \<leftarrow> cap_sock_clear s ccap p;
          Some (CONTINUE, s)
        } else Some (SUCCESS, s))"

definition cap_derive_socket ::
  "kstate \<Rightarrow> cte_t \<Rightarrow> cap \<Rightarrow> cte_t \<Rightarrow> cap \<Rightarrow> (err_t \<times> kstate) option" where
  "cap_derive_socket s src cap dst new_cap =
    (if cap_type new_cap = CAPTY_SOCKET \<and> sock_chan new_cap = sock_chan cap
        \<and> sock_perm new_cap = sock_perm cap \<and> sock_mode new_cap = sock_mode cap
        \<and> sock_tag cap = 0 \<and> sock_tag new_cap \<noteq> 0
     then Some (SUCCESS, set_ctable s (cte_insert (ctable s) dst new_cap src))
     else Some (ERR_INVALID_DERIVATION, s))"

section \<open>Dispatch\<close>

fun delete_handlers :: "capty \<Rightarrow> (kstate \<Rightarrow> cte_t \<Rightarrow> cap \<Rightarrow> (err_t \<times> kstate) option) option" where
  "delete_handlers CAPTY_TIME = Some cap_delete_time"
| "delete_handlers CAPTY_MEMORY = Some cap_delete_memory"
| "delete_handlers CAPTY_PMP = Some cap_delete_pmp"
| "delete_handlers CAPTY_MONITOR = Some cap_delete_monitor"
| "delete_handlers CAPTY_CHANNEL = Some cap_delete_channel"
| "delete_handlers CAPTY_SOCKET = Some cap_delete_socket"
| "delete_handlers _ = None"

fun revoke_handlers :: "capty \<Rightarrow> (kstate \<Rightarrow> cte_t \<Rightarrow> cap \<Rightarrow> (err_t \<times> kstate) option) option" where
  "revoke_handlers CAPTY_TIME = Some cap_revoke_time"
| "revoke_handlers CAPTY_MEMORY = Some cap_revoke_memory"
| "revoke_handlers CAPTY_PMP = Some cap_revoke_pmp"
| "revoke_handlers CAPTY_MONITOR = Some cap_revoke_monitor"
| "revoke_handlers CAPTY_CHANNEL = Some cap_revoke_channel"
| "revoke_handlers CAPTY_SOCKET = Some cap_revoke_socket"
| "revoke_handlers _ = None"

fun derive_handlers ::
  "capty \<Rightarrow> (kstate \<Rightarrow> cte_t \<Rightarrow> cap \<Rightarrow> cte_t \<Rightarrow> cap \<Rightarrow> (err_t \<times> kstate) option) option" where
  "derive_handlers CAPTY_TIME = Some cap_derive_time"
| "derive_handlers CAPTY_MEMORY = Some cap_derive_memory"
| "derive_handlers CAPTY_PMP = Some cap_derive_pmp"
| "derive_handlers CAPTY_MONITOR = Some cap_derive_monitor"
| "derive_handlers CAPTY_CHANNEL = Some cap_derive_channel"
| "derive_handlers CAPTY_SOCKET = Some cap_derive_socket"
| "derive_handlers _ = None"

definition cap_delete :: "kstate \<Rightarrow> cte_t \<Rightarrow> (err_t \<times> kstate) option" where
  "cap_delete s c =
    (if cte_is_empty (ctable s) c then Some (ERR_EMPTY, s)
     else do {
       let cap = cte_cap (ctable s) c;
       h \<leftarrow> delete_handlers (cap_type cap);
       h s c cap
     })"

text \<open>
  The loop of \<open>cap_revoke\<close>: call the handler until it is done or the kernel is preempted.
\<close>

partial_function (option) cap_revoke_loop ::
  "(kstate \<Rightarrow> cte_t \<Rightarrow> cap \<Rightarrow> (err_t \<times> kstate) option) \<Rightarrow> kstate \<Rightarrow> cte_t
    \<Rightarrow> (err_t \<times> kstate) option" where
  "cap_revoke_loop h s parent = do {
     (err, s) \<leftarrow> h s parent (cte_cap (ctable s) parent);
     if err = CONTINUE then
       (let (preempt, s) = kernel_preempt s
        in if preempt then Some (ERR_PREEMPTED, s) else cap_revoke_loop h s parent)
     else Some (SUCCESS, s)
   }"

definition cap_revoke :: "kstate \<Rightarrow> cte_t \<Rightarrow> (err_t \<times> kstate) option" where
  "cap_revoke s parent =
    (let pcap = cte_cap (ctable s) parent
     in if cap_type pcap = CAPTY_NONE then Some (ERR_EMPTY, s)
        else do {
          h \<leftarrow> revoke_handlers (cap_type pcap);
          cap_revoke_loop h s parent
        })"

definition cap_derive :: "kstate \<Rightarrow> cte_t \<Rightarrow> cte_t \<Rightarrow> cap \<Rightarrow> (err_t \<times> kstate) option" where
  "cap_derive s src dst ncap =
    (if cte_is_empty (ctable s) src then Some (ERR_SRC_EMPTY, s)
     else if \<not> cte_is_empty (ctable s) dst then Some (ERR_DST_OCCUPIED, s)
     else do {
       let scap = cte_cap (ctable s) src;
       h \<leftarrow> derive_handlers (cap_type scap);
       h s src scap dst ncap
     })"

section \<open>The operations keep the invariant\<close>

text \<open>The operation returns, keeps the invariant and leaves alone what \<open>frame\<close> lists.\<close>

abbreviation keeps :: "kstate \<Rightarrow> ('e \<times> kstate) option \<Rightarrow> bool" where
  "keeps s m \<equiv> ok (\<lambda>(err, s'). kinv s' \<and> frame s s') m"

lemma sched_update_ok:
  assumes "kinv s" "hart_ok hart" "to \<le> S3K_SLOT_CNT"
  shows "sched_update s p e hart from to = Some (s\<lparr>slots := assign_hart hart p e from to (slots s)\<rparr>)"
  using assms by (simp add: sched_update_eq kinv_lengths)

lemma sched_delete_ok:
  assumes "kinv s" "hart_ok hart" "to \<le> S3K_SLOT_CNT"
  shows "sched_delete s hart from to = Some (s\<lparr>slots := clear_hart hart from to (slots s)\<rparr>)"
  using assms by (simp add: sched_delete_eq kinv_lengths)

lemma sched_kinv:
  "\<lbrakk>kinv s; hart_ok hart; p < S3K_PROC_CNT; to \<le> e; e \<le> S3K_SLOT_CNT\<rbrakk>
    \<Longrightarrow> kinv (s\<lparr>slots := assign_hart hart p e from to (slots s)\<rparr>)"
  "kinv s \<Longrightarrow> hart_ok hart \<Longrightarrow> kinv (s\<lparr>slots := clear_hart hart from to (slots s)\<rparr>)"
  by (simp_all add: kinv_slots kinvD slots_ok_assign slots_ok_clear)

lemma kinv_pid: "kinv s \<Longrightarrow> c < length (ctable s) \<Longrightarrow> cte_pid c < S3K_PROC_CNT"
  by (simp add: kinv_lengths cte_pid_bound)

lemma cap_sock_clear_ok:
  assumes "kinv s" "unat (sock_chan cp) < S3K_CHAN_CNT"
  shows "ok (\<lambda>s'. kinv s' \<and> frame s s' \<and> ctable s' = ctable s) (cap_sock_clear s cp p)"
  using assms
  by (auto simp: cap_sock_clear_def kinv_get_chan chan_ok_def intro!: upd_chan_ok)

lemma cap_empty_iff: "cap_type cp = CAPTY_NONE \<longleftrightarrow> (\<exists>r. cp = NoCap r)" if "cap_ok cp"
  using that by (cases cp) simp_all

lemma cap_ipc_move_hook_ok:
  assumes inv: "kinv s" and c: "src < length (ctable s)" "dst < length (ctable s)"
  shows "ok (\<lambda>s'. kinv s' \<and> frame s s' \<and> length (ctable s') = length (ctable s)
      \<and> (\<forall>x < length (ctable s). cap_type (cte_cap (ctable s') x) = cap_type (cte_cap (ctable s) x))
      \<and> used_of (cte_cap (ctable s') src) = None) (cap_ipc_move_hook s src dst)"
proof (cases "cte_cap (ctable s) src")
  case (TimeCap pad hart bgn mrk end')
  with kinv_cap_ok [OF inv c(1)] inv show ?thesis
    by (simp add: cap_ipc_move_hook_def sched_update_ok sched_kinv kinv_pid [OF inv c(2)])
next
  case (PmpCap rwx used slot addr)
  show ?thesis
  proof (cases used)
    case True
    with PmpCap kinv_cap_ok [OF inv c(1)] have slot: "unat slot < S3K_PMP_CNT" by simp
    have "kinv (set_ctable (upd_proc s (cte_pid src) (clear_slot (unat slot)))
        (cte_set_cap (ctable s) src (PmpCap rwx False 0 addr)))"
      using PmpCap True kinvD(1) [OF inv] c(1)
      by (intro kinv_unload [OF inv c(1)]) (simp_all add: table_ok_set_cap pmp_used_ops)
    with PmpCap True slot c show ?thesis
      by (simp add: cap_ipc_move_hook_def kinv_proc_get_cte [OF inv] proc_pmp_unload_eq cte_get_set)
  next
    case False
    with PmpCap inv show ?thesis by (simp add: cap_ipc_move_hook_def)
  qed
qed (use inv kinv_cap_ok [OF inv c(1)] in \<open>simp_all add: cap_ipc_move_hook_def\<close>)

lemma cap_move_ok:
  assumes inv: "kinv s" and c: "src < length (ctable s)" "dst < length (ctable s)"
  shows "keeps s (cap_move s src dst)"
proof (cases "cte_is_empty (ctable s) src \<or> \<not> cte_is_empty (ctable s) dst")
  case True
  with inv show ?thesis by (auto simp: cap_move_def)
next
  case False
  then have neq: "src \<noteq> dst" by auto
  show ?thesis
  proof (cases "cte_pid src = cte_pid dst")
    case True
    with False neq inv c show ?thesis by (simp add: cap_move_def kinv_move)
  next
    case pids: False
    have "ok (\<lambda>s'. kinv (set_ctable s' (cte_move (ctable s') src dst)) \<and> frame s s')
        (cap_ipc_move_hook s src dst)"
      using False c neq by (intro ok_mono [OF cap_ipc_move_hook_ok [OF inv c]])
        (auto simp: cte_is_empty_def intro: kinv_move)
    with False pids show ?thesis by (simp add: cap_move_def wp)
  qed
qed

lemma cap_delete_pmp_ok:
  assumes inv: "kinv s" and c: "c < length (ctable s)"
    and cap: "cte_cap (ctable s) c = PmpCap rwx used slot addr"
  shows "keeps s (cap_delete_pmp s c (PmpCap rwx used slot addr))"
proof (cases used)
  case True
  with kinv_cap_ok [OF inv c] cap have slot: "unat slot < S3K_PMP_CNT" by simp
  have "kinv (set_ctable (upd_proc s (cte_pid c) (clear_slot (unat slot))) (cte_delete (ctable s) c))"
    using cap True kinvD(1) [OF inv] c
    by (intro kinv_unload [OF inv c]) (simp_all add: table_ok_delete pmp_used_ops)
  with True slot c show ?thesis
    by (simp add: cap_delete_pmp_def kinv_proc_get_cte [OF inv] proc_pmp_unload_eq)
next
  case False
  with inv c cap show ?thesis
    by (simp add: cap_delete_pmp_def kinv_proc_get_cte [OF inv] kinv_delete)
qed

lemma sock_clear_deleted:
  assumes "kinv s" "unat (sock_chan cp) < S3K_CHAN_CNT" "c < length (ctable s)"
    "used_of (cte_cap (ctable s) c) = None"
  shows "ok (\<lambda>s'. kinv (set_ctable s' (cte_delete (ctable s') c)) \<and> frame s s') (cap_sock_clear s cp p)"
proof (rule ok_mono [OF cap_sock_clear_ok [OF assms(1,2)]])
  fix s'
  assume "kinv s' \<and> frame s s' \<and> ctable s' = ctable s"
  then show "kinv (set_ctable s' (cte_delete (ctable s') c)) \<and> frame s s'"
    using kinv_delete [of s' c] assms(3,4) by simp
qed

lemma cap_delete_socket_ok:
  assumes inv: "kinv s" and c: "c < length (ctable s)"
    and cap: "cte_cap (ctable s) c = SockCap mode perm chan tag"
  shows "keeps s (cap_delete_socket s c (SockCap mode perm chan tag))"
  using sock_clear_deleted [OF inv _ c, of "SockCap mode perm chan tag" "cte_pid c"]
    kinv_cap_ok [OF inv c] cap
  by (simp add: cap_delete_socket_def kinv_proc_get_cte [OF inv c] wp)

lemma cap_delete_ok:
  assumes inv: "kinv s" and c: "c < length (ctable s)"
  shows "keeps s (cap_delete s c)"
proof (cases "cte_cap (ctable s) c")
  case (TimeCap pad hart bgn mrk end')
  with kinv_cap_ok [OF inv c] inv c show ?thesis
    using kinv_delete [OF sched_kinv(2) [OF inv], of "unat hart" c]
    by (simp add: cap_delete_def cte_is_empty_def cap_delete_time_def sched_delete_ok)
next
  case (PmpCap rwx used slot addr)
  with cap_delete_pmp_ok [OF inv c PmpCap] show ?thesis
    by (simp add: cap_delete_def cte_is_empty_def)
next
  case (SockCap mode perm chan tag)
  with cap_delete_socket_ok [OF inv c SockCap] show ?thesis
    by (simp add: cap_delete_def cte_is_empty_def)
qed (use inv c kinv_cap_ok [OF inv c] in \<open>simp_all add: cap_delete_def cte_is_empty_def
      cap_delete_memory_def cap_delete_monitor_def cap_delete_channel_def kinv_delete\<close>)

text \<open>Deriving: the source keeps its type, the new capability goes into an empty entry.\<close>

lemma derive_insert:
  assumes inv: "kinv s" and c: "src < length (ctable s)" "dst < length (ctable s)"
    and dst: "cte_is_empty (ctable s) dst" "src \<noteq> dst"
    and cp: "cap_ok cp" "used_of cp = used_of (cte_cap (ctable s) src)"
    and new: "cap_ok ncap" "used_of ncap = None"
  shows "kinv (set_ctable s (cte_insert (cte_set_cap (ctable s) src cp) dst ncap src))"
proof -
  have "kinv (set_ctable s (cte_set_cap (ctable s) src cp))"
    using inv c(1) cp by (rule kinv_set_cap)
  from kinv_insert [OF this, of dst src ncap] c dst new show ?thesis
    by (simp add: cte_is_empty_def cte_get_set)
qed

lemma cap_derive_time_ok:
  assumes inv: "kinv s" and c: "src < length (ctable s)" "dst < length (ctable s)"
    and dst: "cte_is_empty (ctable s) dst" "src \<noteq> dst"
    and cap: "cte_cap (ctable s) src = TimeCap pad hart bgn mrk end'" and new: "cap_is_valid ncap"
  shows "keeps s (cap_derive_time s src (TimeCap pad hart bgn mrk end') dst ncap)"
proof (cases ncap)
  case (TimeCap npad nhart nbgn nmrk nend)
  let ?ss = "assign_hart (unat nhart) (cte_pid dst) (unat nend) (unat nbgn) (unat nend) (slots s)"
  show ?thesis
  proof (cases "nhart = hart \<and> nbgn = mrk \<and> nend \<le> end'")
    case True
    note old = kinv_cap_ok [OF inv c(1), unfolded cap]
    from True new TimeCap old have new_ok: "cap_ok ncap" "cap_ok (TimeCap pad hart bgn nend end')"
      by (auto simp: word_le_nat_alt word_less_nat_alt)
    have h: "hart_ok (unat nhart)" "unat nend \<le> S3K_SLOT_CNT"
      using True TimeCap new_ok by simp_all
    have "kinv (s\<lparr>slots := ?ss\<rparr>)" using h by (intro sched_kinv(1) [OF inv]) (simp_all add: kinv_pid [OF inv c(2)])
    then have "keeps s (Some (SUCCESS, set_ctable (s\<lparr>slots := ?ss\<rparr>)
        (cte_insert (cte_set_cap (ctable s) src (TimeCap pad hart bgn nend end')) dst ncap src)))"
      using derive_insert [where s = "s\<lparr>slots := ?ss\<rparr>" and src = src and dst = dst] c dst cap TimeCap new_ok
      by simp
    moreover note h
    ultimately show ?thesis
      using True TimeCap by (simp add: cap_derive_time_def sched_update_ok [OF inv])
  next
    case False
    with TimeCap inv show ?thesis by (auto simp: cap_derive_time_def)
  qed
qed (use inv in \<open>simp_all add: cap_derive_time_def\<close>)

lemma cap_derive_memory_ok:
  assumes inv: "kinv s" and c: "src < length (ctable s)" "dst < length (ctable s)"
    and dst: "cte_is_empty (ctable s) dst" "src \<noteq> dst"
    and cap: "cte_cap (ctable s) src = MemCap rwx lck tag bgn mrk end'" and new: "cap_is_valid ncap"
  shows "keeps s (cap_derive_memory s src (MemCap rwx lck tag bgn mrk end') dst ncap)"
proof -
  note old = kinv_cap_ok [OF inv c(1), unfolded cap] and ins = derive_insert [OF inv c dst]
  show ?thesis
  proof (cases ncap)
    case (MemCap nrwx nlck ntag nbgn nmrk nend)
    with old new cap inv show ?thesis
      by (auto simp: cap_derive_memory_def Let_def word_le_nat_alt word_less_nat_alt intro!: ins)
  next
    case (PmpCap nrwx used slot addr)
    with old new cap inv show ?thesis
      by (auto simp: cap_derive_memory_def Let_def case_prod_beta intro!: ins)
  qed (use inv in \<open>simp_all add: cap_derive_memory_def\<close>)
qed

lemma cap_derive_monitor_ok:
  assumes inv: "kinv s" and c: "src < length (ctable s)" "dst < length (ctable s)"
    and dst: "cte_is_empty (ctable s) dst" "src \<noteq> dst"
    and cap: "cte_cap (ctable s) src = MonCap pad bgn mrk end'" and new: "cap_is_valid ncap"
  shows "keeps s (cap_derive_monitor s src (MonCap pad bgn mrk end') dst ncap)"
proof -
  note old = kinv_cap_ok [OF inv c(1), unfolded cap] and ins = derive_insert [OF inv c dst]
  show ?thesis
  proof (cases ncap)
    case (MonCap npad nbgn nmrk nend)
    with old new cap inv show ?thesis
      by (auto simp: cap_derive_monitor_def Let_def word_le_nat_alt word_less_nat_alt intro!: ins)
  qed (use inv in \<open>simp_all add: cap_derive_monitor_def\<close>)
qed

lemma cap_derive_channel_ok:
  assumes inv: "kinv s" and c: "src < length (ctable s)" "dst < length (ctable s)"
    and dst: "cte_is_empty (ctable s) dst" "src \<noteq> dst"
    and cap: "cte_cap (ctable s) src = ChanCap pad bgn mrk end'" and new: "cap_is_valid ncap"
  shows "keeps s (cap_derive_channel s src (ChanCap pad bgn mrk end') dst ncap)"
proof -
  note old = kinv_cap_ok [OF inv c(1), unfolded cap] and ins = derive_insert [OF inv c dst]
  show ?thesis
  proof (cases ncap)
    case (ChanCap npad nbgn nmrk nend)
    with old new cap inv show ?thesis
      by (auto simp: cap_derive_channel_def Let_def word_le_nat_alt word_less_nat_alt intro!: ins)
  next
    case (SockCap mode perm chan tag)
    have "bgn \<le> chan + 1" if "mrk \<le> chan" "chan < end'"
      using unat_succ [OF that(2)] that old by (simp add: word_le_nat_alt)
    with SockCap old new cap inv show ?thesis
      by (auto simp: cap_derive_channel_def Let_def word_less_nat_alt intro!: ins)
  qed (use inv in \<open>simp_all add: cap_derive_channel_def\<close>)
qed

lemma cap_derive_ok:
  assumes inv: "kinv s" and c: "src < length (ctable s)" "dst < length (ctable s)"
    and new: "cap_is_valid ncap"
  shows "keeps s (cap_derive s src dst ncap)"
proof (cases "cte_is_empty (ctable s) src \<or> \<not> cte_is_empty (ctable s) dst")
  case True
  with inv show ?thesis by (auto simp: cap_derive_def)
next
  case False
  then have dst: "cte_is_empty (ctable s) dst" "src \<noteq> dst" and src: "\<not> cte_is_empty (ctable s) src"
    by auto
  note args = inv c dst
  show ?thesis
  proof (cases "cte_cap (ctable s) src")
    case (NoCap r)
    with src show ?thesis by (simp add: cte_is_empty_def)
  next
    case (OtherCap t r)
    with kinv_cap_ok [OF inv c(1)] show ?thesis by simp
  next
    case (SockCap mode perm chan tag)
    have "keeps s (Some (SUCCESS, set_ctable s (cte_insert (ctable s) dst ncap src)))"
      if "cap_type ncap = CAPTY_SOCKET" "sock_chan ncap = chan"
      using that new kinv_cap_ok [OF inv c(1)] SockCap kinv_insert [OF inv c(2,1) dst(1), of ncap]
      by (cases ncap) simp_all
    with SockCap dst src inv show ?thesis
      by (auto simp: cap_derive_def cap_derive_socket_def)
  qed (use dst src inv cap_derive_time_ok [OF args _ new] cap_derive_memory_ok [OF args _ new]
      cap_derive_monitor_ok [OF args _ new] cap_derive_channel_ok [OF args _ new] in
      \<open>simp_all add: cap_derive_def cap_derive_pmp_def\<close>)
qed

text \<open>Revoking: one round deletes the next entry and returns its share to the parent.\<close>

lemma revoke_step:
  assumes inv: "kinv s" and c: "child < length (ctable s)" "used_of (cte_cap (ctable s) child) = None"
    and p: "parent < length (ctable s)" "used_of (cte_cap (ctable s) parent) = None"
    and cp: "cap_ok cp" "used_of cp = None"
  shows "kinv (set_ctable s (cte_set_cap (cte_delete (ctable s) child) parent cp))"
proof -
  have "kinv (set_ctable s (cte_delete (ctable s) child))" by (rule kinv_delete [OF inv c])
  from kinv_set_cap [OF this, of parent cp] p c cp show ?thesis
    by (simp add: cte_cap_delete split: if_splits)
qed

lemma cap_revoke_time_ok:
  assumes inv: "kinv s" and p: "parent < length (ctable s)"
    and cap: "cte_cap (ctable s) parent = TimeCap pad hart bgn mrk end'"
  shows "keeps s (cap_revoke_time s parent (TimeCap pad hart bgn mrk end'))"
proof -
  let ?child = "cte_next (ctable s) parent"
  have c: "?child < length (ctable s)" using kinvD(1) [OF inv] p by (rule table_okD)
  note cok = kinv_cap_ok [OF inv c] and pok = kinv_cap_ok [OF inv p, unfolded cap]
  from pok have m: "unat mrk \<le> S3K_SLOT_CNT" and h: "hart_ok (unat hart)"
    by (auto simp: word_le_nat_alt)
  have keep: "keeps s (do {
      s \<leftarrow> sched_update s (cte_pid parent) (unat end') (unat hart) (unat bgn) (unat mrk);
      Some (SUCCESS, set_ctable s (cte_set_cap (ctable s) parent (TimeCap pad hart bgn bgn end')))})"
    using kinv_set_cap [OF sched_kinv(1) [OF inv h kinv_pid [OF inv p]], of "unat mrk" "unat end'" parent] p cap pok inv
    by (simp add: sched_update_ok [OF inv h m] order.strict_implies_order word_le_nat_alt)
  show ?thesis
  proof (cases "cte_cap (ctable s) ?child")
    case (TimeCap cpad chart cbgn cmrk cend)
    let ?s = "set_ctable s (cte_delete (ctable s) ?child)"
    have del: "kinv ?s" using TimeCap by (intro kinv_delete [OF inv c]) simp
    have "cap_ok (TimeCap pad hart bgn cmrk end')" if "is_time_child (TimeCap pad hart bgn mrk end')
        (TimeCap cpad chart cbgn cmrk cend)"
      using that cok pok TimeCap by (auto simp: is_time_child_def)
    then have "keeps s (Some (e, set_ctable (?s\<lparr>slots := ss\<rparr>)
        (cte_set_cap (cte_delete (ctable s) ?child) parent (TimeCap pad hart bgn cmrk end'))))"
      if "is_time_child (TimeCap pad hart bgn mrk end') (TimeCap cpad chart cbgn cmrk cend)"
        "slots_ok ss" for e ss
      using that revoke_step [OF kinv_slots [OF inv that(2)], of ?child parent] TimeCap cap c p
      by (simp add: set_ctable_def frame_def)
    moreover have "slots_ok (assign_hart (unat hart) (cte_pid parent) (unat end') (unat cmrk) (unat mrk) (slots s))"
      using pok by (intro slots_ok_assign [OF kinvD(4) [OF inv] h kinv_pid [OF inv p]]) (auto simp: word_le_nat_alt)
    ultimately show ?thesis
      using keep TimeCap by (simp add: cap_revoke_time_def Let_def sched_update_ok [OF del h m] cte_simps)
  qed (use keep in \<open>simp_all add: cap_revoke_time_def Let_def\<close>)
qed

lemma cap_revoke_memory_ok:
  assumes inv: "kinv s" and p: "parent < length (ctable s)"
    and cap: "cte_cap (ctable s) parent = MemCap rwx lck tag bgn mrk end'"
  shows "keeps s (cap_revoke_memory s parent (MemCap rwx lck tag bgn mrk end'))"
proof -
  let ?child = "cte_next (ctable s) parent"
  have c: "?child < length (ctable s)" using kinvD(1) [OF inv] p by (rule table_okD)
  note cok = kinv_cap_ok [OF inv c] and pok = kinv_cap_ok [OF inv p, unfolded cap]
  have keep: "kinv (set_ctable s (cte_set_cap (ctable s) parent (MemCap rwx False tag bgn bgn end')))"
    using kinv_set_cap [OF inv p] cap pok by simp
  show ?thesis
  proof (cases "cte_cap (ctable s) ?child")
    case (MemCap crwx clck ctag cbgn cmrk cend)
    then have "kinv (set_ctable s (cte_set_cap (cte_delete (ctable s) ?child) parent
        (MemCap rwx clck tag bgn cmrk end')))" if "bgn \<le> cbgn"
      using that revoke_step [OF inv c _ p] cok pok cap by auto
    with keep MemCap show ?thesis by (auto simp: cap_revoke_memory_def Let_def)
  next
    case (PmpCap crwx used slot addr)
    let ?s = "set_ctable s (cte_delete (ctable s) ?child)"
    have get: "proc_get (set_ctable s ct) (cte_pid ?child) = Some (cte_pid ?child)" for ct
      using kinv_proc_get_cte [OF inv c] by (simp add: proc_get_def)
    show ?thesis
    proof (cases used)
      case True
      with PmpCap cok have slot: "unat slot < S3K_PMP_CNT" by simp
      have "kinv (set_ctable (upd_proc s (cte_pid ?child) (clear_slot (unat slot)))
          (cte_delete (ctable s) ?child))"
        using PmpCap True kinvD(1) [OF inv] c
        by (intro kinv_unload [OF inv c]) (simp_all add: table_ok_delete pmp_used_ops)
      with PmpCap True slot keep show ?thesis
        by (simp add: cap_revoke_memory_def Let_def get proc_pmp_unload_eq)
    next
      case False
      with PmpCap keep kinv_delete [OF inv c] show ?thesis
        by (simp add: cap_revoke_memory_def Let_def)
    qed
  qed (use keep in \<open>simp_all add: cap_revoke_memory_def Let_def\<close>)
qed

lemma cap_revoke_monitor_ok:
  assumes inv: "kinv s" and p: "parent < length (ctable s)"
    and cap: "cte_cap (ctable s) parent = MonCap pad bgn mrk end'"
  shows "keeps s (cap_revoke_monitor s parent (MonCap pad bgn mrk end'))"
proof -
  let ?child = "cte_next (ctable s) parent"
  have c: "?child < length (ctable s)" using kinvD(1) [OF inv] p by (rule table_okD)
  note cok = kinv_cap_ok [OF inv c] and pok = kinv_cap_ok [OF inv p, unfolded cap]
  have keep: "kinv (set_ctable s (cte_set_cap (ctable s) parent (MonCap pad bgn bgn end')))"
    using kinv_set_cap [OF inv p] cap pok by simp
  show ?thesis
  proof (cases "cte_cap (ctable s) ?child")
    case (MonCap cpad cbgn cmrk cend)
    then have "kinv (set_ctable s (cte_set_cap (cte_delete (ctable s) ?child) parent
        (MonCap pad bgn cmrk end')))" if "bgn \<le> cbgn"
      using that revoke_step [OF inv c _ p] cok pok cap by auto
    with keep MonCap show ?thesis by (auto simp: cap_revoke_monitor_def Let_def)
  qed (use keep in \<open>simp_all add: cap_revoke_monitor_def Let_def\<close>)
qed

text \<open>Deleting a socket that is revoked.\<close>

lemma revoke_socket_child:
  assumes inv: "kinv s" and c: "child < length (ctable s)"
    and cap: "cte_cap (ctable s) child = SockCap mode perm chan tag"
  shows "keeps s (do {
     p \<leftarrow> proc_get (set_ctable s (cte_delete (ctable s) child)) (cte_pid child);
     s \<leftarrow> cap_sock_clear (set_ctable s (cte_delete (ctable s) child)) (SockCap mode perm chan tag) p;
     Some (CONTINUE, s)})"
proof -
  let ?s = "set_ctable s (cte_delete (ctable s) child)"
  have del: "kinv ?s" using cap by (intro kinv_delete [OF inv c]) simp
  have "ok (\<lambda>s'. kinv s' \<and> frame s s') (cap_sock_clear ?s (SockCap mode perm chan tag) (cte_pid child))"
    using kinv_cap_ok [OF inv c] cap
    by (intro ok_mono [OF cap_sock_clear_ok [OF del]]) (auto simp: frame_def)
  with c show ?thesis by (simp add: kinv_proc_get_cte [OF del] wp)
qed

lemma cap_revoke_channel_ok:
  assumes inv: "kinv s" and p: "parent < length (ctable s)"
    and cap: "cte_cap (ctable s) parent = ChanCap pad bgn mrk end'"
  shows "keeps s (cap_revoke_channel s parent (ChanCap pad bgn mrk end'))"
proof -
  let ?child = "cte_next (ctable s) parent"
  have c: "?child < length (ctable s)" using kinvD(1) [OF inv] p by (rule table_okD)
  note cok = kinv_cap_ok [OF inv c] and pok = kinv_cap_ok [OF inv p, unfolded cap]
  have keep: "kinv (set_ctable s (cte_set_cap (ctable s) parent (ChanCap pad bgn bgn end')))"
    using kinv_set_cap [OF inv p] cap pok by simp
  show ?thesis
  proof (cases "cte_cap (ctable s) ?child")
    case (ChanCap cpad cbgn cmrk cend)
    then have "kinv (set_ctable s (cte_set_cap (cte_delete (ctable s) ?child) parent
        (ChanCap pad bgn cmrk end')))" if "bgn \<le> cbgn"
      using that revoke_step [OF inv c _ p] cok pok cap by auto
    with keep ChanCap show ?thesis by (auto simp: cap_revoke_channel_def Let_def)
  next
    case (SockCap mode perm chan tag)
    with keep revoke_socket_child [OF inv c SockCap] show ?thesis
      by (simp add: cap_revoke_channel_def Let_def)
  qed (use keep in \<open>simp_all add: cap_revoke_channel_def Let_def\<close>)
qed

lemma cap_revoke_socket_ok:
  assumes inv: "kinv s" and p: "parent < length (ctable s)"
  shows "keeps s (cap_revoke_socket s parent pcap)"
proof -
  let ?child = "cte_next (ctable s) parent"
  have c: "?child < length (ctable s)" using kinvD(1) [OF inv] p by (rule table_okD)
  show ?thesis
  proof (cases "cte_cap (ctable s) ?child")
    case (SockCap mode perm chan tag)
    with inv revoke_socket_child [OF inv c SockCap] show ?thesis
      by (simp add: cap_revoke_socket_def Let_def)
  qed (use inv kinv_cap_ok [OF inv c] in \<open>simp_all add: cap_revoke_socket_def Let_def\<close>)
qed

end
