(* ===== verification/Revoke.thy ===== *)
theory Revoke
  imports CapOps "HOL-Library.Sublist"
begin

text \<open>
  Revocation as a whole: the loop of \<open>cap_revoke\<close> over the handler of one capability type.
  The interface \<open>revoke_handler\<close> states what the loop relies on, every handler of
  \<open>kernel/src/cap_ops.c\<close> provides it, and the termination and the effect of the loop are
  proved once from it.
\<close>

section \<open>Which capability a handler deletes\<close>

fun revocable :: "cap \<Rightarrow> cap \<Rightarrow> bool" where
  "revocable (TimeCap pad hart bgn mrk end') c \<longleftrightarrow> is_time_child (TimeCap pad hart bgn mrk end') c"
| "revocable (MemCap rwx lck tag bgn mrk end') (MemCap crwx clck ctag cbgn cmrk cend) \<longleftrightarrow>
     tag = ctag \<and> bgn \<le> cbgn"
| "revocable (MemCap rwx lck tag bgn mrk end') (PmpCap crwx used slot addr) \<longleftrightarrow>
     tag_block_to_addr tag bgn \<le> fst (pmp_napot_decode (ucast addr))"
| "revocable (MonCap pad bgn mrk end') (MonCap cpad cbgn cmrk cend) \<longleftrightarrow> bgn \<le> cbgn"
| "revocable (ChanCap pad bgn mrk end') (ChanCap cpad cbgn cmrk cend) \<longleftrightarrow> bgn \<le> cbgn"
| "revocable (ChanCap pad bgn mrk end') (SockCap mode perm chan tag) \<longleftrightarrow> bgn \<le> chan"
| "revocable (SockCap mode perm chan tag) (SockCap cmode cperm cchan ctag) \<longleftrightarrow>
     chan = cchan \<and> tag = 0"
| "revocable _ _ \<longleftrightarrow> False"

section \<open>The interface of a handler\<close>

text \<open>
  One round of the loop on the table: the next entry is deleted if it is revocable, and the
  parent is overwritten by a capability that can revoke the same ones.
\<close>

definition revoke_table :: "kstate \<Rightarrow> cte_t \<Rightarrow> err_t \<Rightarrow> cte list \<Rightarrow> bool" where
  "revoke_table s p e ct' \<longleftrightarrow>
    (let ct = ctable s; pcap = cte_cap ct p; child = cte_next ct p; b = revocable pcap (cte_cap ct child)
     in (e = CONTINUE \<longrightarrow> b) \<and> (\<exists>cp. revocable cp = revocable pcap \<and> cap_type cp = cap_type pcap
        \<and> ct' = cte_set_cap (if b then cte_delete ct child else ct) p cp))"

locale revoke_handler =
  fixes h :: "kstate \<Rightarrow> cte_t \<Rightarrow> cap \<Rightarrow> (err_t \<times> kstate) option"
    and ty :: capty
    and pre :: "cap \<Rightarrow> bool"
  assumes handler_pre: "cap_type cp = ty \<Longrightarrow> pre cp"
    and handler_keeps: "\<lbrakk>kinv s; p < length (ctable s); pre (cte_cap (ctable s) p)\<rbrakk> \<Longrightarrow>
      ok (\<lambda>(e, s'). kinv s' \<and> frame s s' \<and> pre (cte_cap (ctable s') p))
        (h s p (cte_cap (ctable s) p))"
    and handler_table: "\<lbrakk>kinv s; p < length (ctable s); cap_type (cte_cap (ctable s) p) = ty;
        cte_next (ctable s) p \<noteq> p\<rbrakk> \<Longrightarrow>
      ok (\<lambda>(e, s'). revoke_table s p e (ctable s')) (h s p (cte_cap (ctable s) p))"
begin

text \<open>A pending timer interrupt ends the loop, whatever the table looks like.\<close>

lemma loop_timer:
  assumes "kinv s" "p < length (ctable s)" "pre (cte_cap (ctable s) p)"
    and "reads s \<le> n" "mip s n AND 0x80 \<noteq> 0"
  shows "ok (\<lambda>(e, s'). kinv s' \<and> frame (s\<lparr>reads := reads s'\<rparr>) s') (cap_revoke_loop h s p)"
  using assms
proof (induction "n - reads s" arbitrary: s)
  case 0
  from okD [OF handler_keeps [OF 0(2,3,4)]] obtain e s'
    where h: "h s p (cte_cap (ctable s) p) = Some (e, s')" and s': "kinv s'" "frame s s'"
    by auto
  have "kernel_preempt s' = (True, s'\<lparr>reads := reads s' + 1\<rparr>)"
    using 0 s'(2) by (simp add: kernel_preempt_def frame_def)
  with h s' show ?case by (subst cap_revoke_loop.simps) (simp add: frame_def)
next
  case (Suc m)
  from okD [OF handler_keeps [OF Suc(3,4,5)]] obtain e s'
    where h: "h s p (cte_cap (ctable s) p) = Some (e, s')" and s': "kinv s'" "frame s s'"
      "pre (cte_cap (ctable s') p)"
    by auto
  have "length (ctable s') = length (ctable s)" using Suc(3) s'(1) by (simp add: kinv_lengths)
  note s' = s' this
  let ?t = "s'\<lparr>reads := reads s' + 1\<rparr>"
  have k: "kernel_preempt s' = (mip s (reads s) AND 0x80 \<noteq> 0, ?t)"
    using s'(2) by (simp add: kernel_preempt_def frame_def)
  have "ok (\<lambda>(e, s'). kinv s' \<and> frame (?t\<lparr>reads := reads s'\<rparr>) s') (cap_revoke_loop h ?t p)"
  proof (rule Suc(1))
    show "m = n - reads ?t" "reads ?t \<le> n" "mip ?t n AND 0x80 \<noteq> 0"
      using Suc(2,6,7) s'(2) by (auto simp: frame_def)
  qed (use s' Suc(4) in simp_all)
  then have "ok (\<lambda>(e, s'). kinv s' \<and> frame (s\<lparr>reads := reads s'\<rparr>) s') (cap_revoke_loop h ?t p)"
    by (rule ok_mono) (use s'(2) in \<open>auto simp: frame_def\<close>)
  with h s' k show ?case by (subst cap_revoke_loop.simps) (auto simp: frame_def)
qed

text \<open>
  The effect of the loop: the entries after the parent are deleted from the front while the
  parent can revoke them, up to an entry that it cannot revoke; all others are untouched.
\<close>

lemma loop_ring:
  assumes "kinv s" "cap_type (cte_cap (ctable s) p) = ty" "ring (ctable s) (us @ p # ds @ z # vs)"
    and "\<forall>d \<in> set ds. revocable (cte_cap (ctable s) p) (cte_cap (ctable s) d)"
    and "\<not> revocable (cte_cap (ctable s) p) (cte_cap (ctable s) z)"
  shows "ok (\<lambda>(e, s'). kinv s' \<and> e \<in> {SUCCESS, ERR_PREEMPTED} \<and> (\<exists>ds'. suffix ds' ds
      \<and> ring (ctable s') (us @ p # ds' @ z # vs)
      \<and> (\<forall>x. x \<notin> set (p # ds) \<or> x \<in> set ds' \<longrightarrow> cte_cap (ctable s') x = cte_cap (ctable s) x)))
    (cap_revoke_loop h s p)"
  using assms
proof (induction ds arbitrary: s)
  case Nil
  let ?ct = "ctable s"
  note r = Nil(3)
  have p: "p < length ?ct" using ringD(3) [OF r, of p] by simp
  have z: "cte_next ?ct p = z" using ct.rep_next_split [of _ us p z vs] r by simp
  have "z \<noteq> p" using ringD(1) [OF r] by auto
  with z have zp: "cte_next ?ct p \<noteq> p" by simp
  from okD [OF handler_keeps [OF Nil(1) p handler_pre [OF Nil(2)]]] okD [OF handler_table [OF Nil(1) p Nil(2) zp]]
  obtain e s' cp where h: "h s p (cte_cap ?ct p) = Some (e, s')" "kinv s'" "e \<noteq> CONTINUE"
    "cap_type cp = cap_type (cte_cap ?ct p)" "ctable s' = cte_set_cap ?ct p cp"
    using Nil(5) z by (auto simp: revoke_table_def Let_def)
  have "cap_type cp \<noteq> CAPTY_NONE"
    using ringD(2) [OF r] h(4) by (auto simp: occupied_def cte_is_empty_def)
  then have "ring (ctable s') (us @ p # z # vs)" using h(5) r by (simp add: ring_set_cap)
  with h p show ?case
    by (subst cap_revoke_loop.simps) (simp add: cte_get_set)
next
  case (Cons d ds)
  let ?ct = "ctable s"
  have r: "ring ?ct (us @ p # d # (ds @ z # vs))" using Cons(4) by simp
  have p: "p < length ?ct" "d < length ?ct" using ringD(3) [OF r] by simp_all
  have d: "cte_next ?ct p = d" by (rule ct.rep_next_split [OF r])
  have dist: "d \<noteq> p" "z \<noteq> p" "z \<noteq> d" "d \<notin> set ds" "p \<notin> set ds" using ringD(1) [OF r] by auto
  with d have dp: "cte_next ?ct p \<noteq> p" by simp
  have rev: "revocable (cte_cap ?ct p) (cte_cap ?ct d)" using Cons(5) by simp
  from okD [OF handler_keeps [OF Cons(2) p(1) handler_pre [OF Cons(3)]]]
    okD [OF handler_table [OF Cons(2) p(1) Cons(3) dp]]
  obtain e s' cp where h: "h s p (cte_cap ?ct p) = Some (e, s')" "kinv s'" "revocable cp = revocable (cte_cap ?ct p)"
    "cap_type cp = cap_type (cte_cap ?ct p)" "ctable s' = cte_set_cap (cte_delete ?ct d) p cp"
    using rev d by (auto simp: revoke_table_def Let_def)
  have "cap_type cp \<noteq> CAPTY_NONE"
    using ringD(2) [OF r] h(4) by (auto simp: occupied_def cte_is_empty_def)
  then have r': "ring (ctable s') (us @ p # ds @ z # vs)"
    using ct.rep_del_next [OF r] h(5) d by (simp add: ring_set_cap)
  have caps: "cte_cap (ctable s') x = (if x = p then cp else if x = d then NoCap 0 else cte_cap ?ct x)" for x
    using p h(5) by (simp add: cte_get_set cte_cap_delete)
  let ?t = "s'\<lparr>reads := reads s' + 1\<rparr>"
  have IH: "ok (\<lambda>(e, s''). kinv s'' \<and> e \<in> {SUCCESS, ERR_PREEMPTED} \<and> (\<exists>ds'. suffix ds' ds
      \<and> ring (ctable s'') (us @ p # ds' @ z # vs)
      \<and> (\<forall>x. x \<notin> set (p # ds) \<or> x \<in> set ds' \<longrightarrow> cte_cap (ctable s'') x = cte_cap (ctable ?t) x)))
    (cap_revoke_loop h ?t p)"
    using h(2,3,4) r' Cons(3,5,6) dist by (intro Cons(1)) (simp_all add: caps, metis)
  have goal: "kinv t \<and> (\<exists>ds'. suffix ds' (d # ds) \<and> ring (ctable t) (us @ p # ds' @ z # vs)
      \<and> (\<forall>x. x \<notin> set (p # d # ds) \<or> x \<in> set ds' \<longrightarrow> cte_cap (ctable t) x = cte_cap ?ct x))"
    if "kinv t" "suffix ds' ds" "ring (ctable t) (us @ p # ds' @ z # vs)"
      "\<forall>x. x \<notin> set (p # ds) \<or> x \<in> set ds' \<longrightarrow> cte_cap (ctable t) x = cte_cap (ctable s') x" for t ds'
  proof -
    have "set ds' \<subseteq> set ds" using that(2) by (auto simp: suffix_def)
    with that dist show ?thesis
      by (intro conjI exI [of _ ds'] suffix_ConsI) (auto simp: caps)
  qed
  have stop: "kinv t \<and> (\<exists>ds'. suffix ds' (d # ds) \<and> ring (ctable t) (us @ p # ds' @ z # vs)
      \<and> (\<forall>x. x \<notin> set (p # d # ds) \<or> x \<in> set ds' \<longrightarrow> cte_cap (ctable t) x = cte_cap ?ct x))"
    if "kinv t" "ctable t = ctable s'" for t
    using goal [of t ds] that r' by simp
  have rest: "ok (\<lambda>(e, s'). kinv s' \<and> e \<in> {SUCCESS, ERR_PREEMPTED} \<and> (\<exists>ds'. suffix ds' (d # ds)
      \<and> ring (ctable s') (us @ p # ds' @ z # vs)
      \<and> (\<forall>x. x \<notin> set (p # d # ds) \<or> x \<in> set ds' \<longrightarrow> cte_cap (ctable s') x = cte_cap ?ct x)))
    (cap_revoke_loop h ?t p)"
    by (rule ok_mono [OF IH]) (use goal in \<open>auto split: prod.splits\<close>)
  have k: "kernel_preempt s' = (mip s' (reads s') AND 0x80 \<noteq> 0, ?t)"
    by (simp add: kernel_preempt_def)
  show ?case
    using rest stop [of ?t] stop [of s'] h(2)
    by (subst cap_revoke_loop.simps) (simp add: h(1) k)
qed

end

section \<open>The handlers provide the interface\<close>

lemma cap_type_cases:
  assumes "cap_ok cp"
  shows "cap_type cp = CAPTY_TIME \<Longrightarrow> \<exists>pad hart bgn mrk end'. cp = TimeCap pad hart bgn mrk end'"
    "cap_type cp = CAPTY_MEMORY \<Longrightarrow> \<exists>rwx lck tag bgn mrk end'. cp = MemCap rwx lck tag bgn mrk end'"
    "cap_type cp = CAPTY_PMP \<Longrightarrow> \<exists>rwx used slot addr. cp = PmpCap rwx used slot addr"
    "cap_type cp = CAPTY_MONITOR \<Longrightarrow> \<exists>pad bgn mrk end'. cp = MonCap pad bgn mrk end'"
    "cap_type cp = CAPTY_CHANNEL \<Longrightarrow> \<exists>pad bgn mrk end'. cp = ChanCap pad bgn mrk end'"
    "cap_type cp = CAPTY_SOCKET \<Longrightarrow> \<exists>mode perm chan tag. cp = SockCap mode perm chan tag"
  using assms by (cases cp; simp)+

lemma cte_set_cap_id: "cte_set_cap ct p (cte_cap ct p) = ct"
  by (simp add: cte_set_cap_def cte_cap_def)

lemma cap_sock_clear_ctable: "cap_sock_clear s cp p = Some s' \<Longrightarrow> ctable s' = ctable s"
  by (auto simp: cap_sock_clear_def upd_chan_def get_chan_def bind_eq_Some_conv split: if_splits)

lemma cte_set_cap_same: "p \<noteq> c \<Longrightarrow> c < length ct \<Longrightarrow> cte_set_cap (cte_delete ct c) p (cte_cap ct p) = cte_delete ct c"
  using cte_set_cap_id [of "cte_delete ct c" p] by (simp add: cte_cap_delete)

text \<open>Moving the mark of a capability does not change what it can revoke.\<close>

lemma revocable_mark:
  "revocable (TimeCap pad hart bgn mrk end') = revocable (TimeCap pad hart bgn mrk' end')"
  "revocable (MemCap rwx lck tag bgn mrk end') = revocable (MemCap rwx lck' tag bgn mrk' end')"
  "revocable (MonCap mpad bgn mrk end') = revocable (MonCap mpad bgn mrk' end')"
  "revocable (ChanCap mpad bgn mrk end') = revocable (ChanCap mpad bgn mrk' end')"
proof -
  show "revocable (TimeCap pad hart bgn mrk end') = revocable (TimeCap pad hart bgn mrk' end')"
    by (rule ext) (simp add: is_time_child_def split: cap.splits)
  show "revocable (MemCap rwx lck tag bgn mrk end') = revocable (MemCap rwx lck' tag bgn mrk' end')"
    "revocable (MonCap mpad bgn mrk end') = revocable (MonCap mpad bgn mrk' end')"
    "revocable (ChanCap mpad bgn mrk end') = revocable (ChanCap mpad bgn mrk' end')"
    by (rule ext, case_tac x; simp)+
qed

lemma sched_update_ctable: "sched_update s p e hart from to = Some s' \<Longrightarrow> ctable s' = ctable s"
  by (auto simp: sched_update_def bind_eq_Some_conv split: if_splits)

lemma revoke_tableI:
  assumes "e = CONTINUE \<Longrightarrow> revocable (cte_cap (ctable s) p) (cte_cap (ctable s) (cte_next (ctable s) p))"
    and "revocable cp = revocable (cte_cap (ctable s) p)" "cap_type cp = cap_type (cte_cap (ctable s) p)"
    and "ct' = cte_set_cap (if revocable (cte_cap (ctable s) p) (cte_cap (ctable s) (cte_next (ctable s) p))
      then cte_delete (ctable s) (cte_next (ctable s) p) else ctable s) p cp"
  shows "revoke_table s p e ct'"
  using assms by (auto simp: revoke_table_def Let_def)

lemma cap_revoke_time_table:
  assumes "cap_revoke_time s p (TimeCap pad hart bgn mrk end') = Some (e, s')"
    and cap: "cte_cap (ctable s) p = TimeCap pad hart bgn mrk end'"
  shows "revoke_table s p e (ctable s')"
proof -
  let ?c = "cte_cap (ctable s) (cte_next (ctable s) p)"
  have "\<exists>m. ctable s' = cte_set_cap (if is_time_child (cte_cap (ctable s) p) ?c
      then cte_delete (ctable s) (cte_next (ctable s) p) else ctable s) p (TimeCap pad hart bgn m end')
      \<and> (e = CONTINUE \<longrightarrow> is_time_child (cte_cap (ctable s) p) ?c)"
    using assms
    by (cases ?c) (auto simp: cap_revoke_time_def Let_def bind_eq_Some_conv is_time_child_def
        dest!: sched_update_ctable split: if_splits)
  then obtain m where "ctable s' = cte_set_cap (if revocable (cte_cap (ctable s) p) ?c
      then cte_delete (ctable s) (cte_next (ctable s) p) else ctable s) p (TimeCap pad hart bgn m end')"
    "e = CONTINUE \<Longrightarrow> revocable (cte_cap (ctable s) p) ?c"
    using cap by auto
  then show ?thesis
    by (intro revoke_tableI [where cp = "TimeCap pad hart bgn m end'"])
      (simp_all add: cap revocable_mark(1) [of pad hart bgn m end' mrk])
qed

lemma proc_pmp_unload_ctable: "proc_pmp_unload s q k = Some s' \<Longrightarrow> ctable s' = ctable s"
  by (auto simp: proc_pmp_unload_def split: if_splits)

lemma cap_revoke_memory_table:
  assumes h: "cap_revoke_memory s p (MemCap rwx lck tag bgn mrk end') = Some (e, s')"
    and cap: "cte_cap (ctable s) p = MemCap rwx lck tag bgn mrk end'"
    and c: "cte_next (ctable s) p < length (ctable s)"
  shows "revoke_table s p e (ctable s')"
proof -
  let ?ct = "ctable s" and ?c = "cte_cap (ctable s) (cte_next (ctable s) p)"
  have table: "revoke_table s p e (ctable s')"
    if "ctable s' = cte_set_cap (if revocable (cte_cap ?ct p) ?c
        then cte_delete ?ct (cte_next ?ct p) else ?ct) p (MemCap rwx l tag bgn m end')"
      "e = CONTINUE \<Longrightarrow> revocable (cte_cap ?ct p) ?c" for l m
    using that cap revocable_mark(2) [of rwx l tag bgn m end' lck mrk]
    by (intro revoke_tableI [where cp = "MemCap rwx l tag bgn m end'"]) simp_all
  show ?thesis
  proof (cases ?c)
    case (MemCap crwx clck ctag cbgn cmrk cend)
    then show ?thesis
      using h cap table [of clck cmrk] table [of False bgn]
      by (cases "tag = ctag \<and> bgn \<le> cbgn") (auto simp: cap_revoke_memory_def Let_def split: if_splits)
  next
    case (PmpCap crwx used slot addr)
    then have "cte_set_cap (cte_delete ?ct (cte_next ?ct p)) p (MemCap rwx lck tag bgn mrk end')
        = cte_delete ?ct (cte_next ?ct p)"
      using cte_set_cap_same [of p "cte_next ?ct p" ?ct] cap c
      by (cases "p = cte_next ?ct p") simp_all
    with PmpCap show ?thesis
      using h cap table [of lck mrk] table [of False bgn]
      by (cases "revocable (cte_cap ?ct p) ?c")
        (auto simp: cap_revoke_memory_def Let_def bind_eq_Some_conv dest!: proc_pmp_unload_ctable
          split: if_splits)
  qed (use h cap table [of False bgn] in \<open>auto simp: cap_revoke_memory_def Let_def\<close>)
qed

lemma cap_revoke_monitor_table:
  assumes h: "cap_revoke_monitor s p (MonCap pad bgn mrk end') = Some (e, s')"
    and cap: "cte_cap (ctable s) p = MonCap pad bgn mrk end'"
  shows "revoke_table s p e (ctable s')"
proof -
  let ?ct = "ctable s" and ?c = "cte_cap (ctable s) (cte_next (ctable s) p)"
  have table: "revoke_table s p e (ctable s')"
    if "ctable s' = cte_set_cap (if revocable (cte_cap ?ct p) ?c
        then cte_delete ?ct (cte_next ?ct p) else ?ct) p (MonCap pad bgn m end')"
      "e = CONTINUE \<Longrightarrow> revocable (cte_cap ?ct p) ?c" for m
    using that cap revocable_mark(3) [of pad bgn m end' mrk]
    by (intro revoke_tableI [where cp = "MonCap pad bgn m end'"]) simp_all
  show ?thesis
  proof (cases ?c)
    case (MonCap cpad cbgn cmrk cend)
    then show ?thesis
      using h cap table [of cmrk] table [of bgn]
      by (cases "bgn \<le> cbgn") (auto simp: cap_revoke_monitor_def Let_def split: if_splits)
  qed (use h cap table [of bgn] in \<open>auto simp: cap_revoke_monitor_def Let_def\<close>)
qed

lemma cap_revoke_channel_table:
  assumes h: "cap_revoke_channel s p (ChanCap pad bgn mrk end') = Some (e, s')"
    and cap: "cte_cap (ctable s) p = ChanCap pad bgn mrk end'"
    and c: "cte_next (ctable s) p < length (ctable s)"
  shows "revoke_table s p e (ctable s')"
proof -
  let ?ct = "ctable s" and ?c = "cte_cap (ctable s) (cte_next (ctable s) p)"
  have table: "revoke_table s p e (ctable s')"
    if "ctable s' = cte_set_cap (if revocable (cte_cap ?ct p) ?c
        then cte_delete ?ct (cte_next ?ct p) else ?ct) p (ChanCap pad bgn m end')"
      "e = CONTINUE \<Longrightarrow> revocable (cte_cap ?ct p) ?c" for m
    using that cap revocable_mark(4) [of pad bgn m end' mrk]
    by (intro revoke_tableI [where cp = "ChanCap pad bgn m end'"]) simp_all
  show ?thesis
  proof (cases ?c)
    case (ChanCap cpad cbgn cmrk cend)
    then show ?thesis
      using h cap table [of cmrk] table [of bgn]
      by (cases "bgn \<le> cbgn") (auto simp: cap_revoke_channel_def Let_def split: if_splits)
  next
    case (SockCap mode perm chan tag)
    then have "cte_set_cap (cte_delete ?ct (cte_next ?ct p)) p (ChanCap pad bgn mrk end')
        = cte_delete ?ct (cte_next ?ct p)"
      using cte_set_cap_same [of p "cte_next ?ct p" ?ct] cap c
      by (cases "p = cte_next ?ct p") simp_all
    with SockCap show ?thesis
      using h cap table [of mrk] table [of bgn]
      by (cases "revocable (cte_cap ?ct p) ?c")
        (auto simp: cap_revoke_channel_def Let_def bind_eq_Some_conv dest!: cap_sock_clear_ctable)
  qed (use h cap table [of bgn] in \<open>auto simp: cap_revoke_channel_def Let_def\<close>)
qed

lemma cap_revoke_socket_table:
  assumes h: "cap_revoke_socket s p (SockCap mode perm chan tag) = Some (e, s')"
    and cap: "cte_cap (ctable s) p = SockCap mode perm chan tag"
    and c: "cte_next (ctable s) p < length (ctable s)" "cte_next (ctable s) p \<noteq> p"
    and ok: "cap_ok (cte_cap (ctable s) (cte_next (ctable s) p))"
  shows "revoke_table s p e (ctable s')"
proof -
  let ?ct = "ctable s" and ?c = "cte_cap (ctable s) (cte_next (ctable s) p)"
  have "cte_set_cap (cte_delete ?ct (cte_next ?ct p)) p (SockCap mode perm chan tag)
      = cte_delete ?ct (cte_next ?ct p)" "cte_set_cap ?ct p (SockCap mode perm chan tag) = ?ct"
    using cte_set_cap_same [of p "cte_next ?ct p" ?ct] cte_set_cap_id [of ?ct p] cap c by auto
  with h cap ok show ?thesis
    by (intro revoke_tableI [where cp = "SockCap mode perm chan tag"]; cases ?c)
      (auto simp: cap_revoke_socket_def Let_def bind_eq_Some_conv dest!: cap_sock_clear_ctable
        split: if_splits)
qed

text \<open>From the lemmas on a handler to the laws of the interface.\<close>

lemma handler_laws:
  assumes keep: "keeps s (h s p (cte_cap (ctable s) p))" and p: "p < length (ctable s)"
    and table: "\<And>e s'. h s p (cte_cap (ctable s) p) = Some (e, s') \<Longrightarrow> revoke_table s p e (ctable s')"
    and ty: "cap_type (cte_cap (ctable s) p) = ty"
  shows "ok (\<lambda>(e, s'). kinv s' \<and> frame s s' \<and> cap_type (cte_cap (ctable s') p) = ty)
      (h s p (cte_cap (ctable s) p))"
    "ok (\<lambda>(e, s'). revoke_table s p e (ctable s')) (h s p (cte_cap (ctable s) p))"
proof -
  from keep obtain e s' where h: "h s p (cte_cap (ctable s) p) = Some (e, s')" "kinv s'" "frame s s'"
    by (auto simp: ok_iff)
  from table [OF h(1)] have "cap_type (cte_cap (ctable s') p) = ty"
    using p ty by (auto simp: revoke_table_def Let_def cte_get_set)
  with h table [OF h(1)] show "ok (\<lambda>(e, s'). kinv s' \<and> frame s s' \<and> cap_type (cte_cap (ctable s') p) = ty)
      (h s p (cte_cap (ctable s) p))"
    "ok (\<lambda>(e, s'). revoke_table s p e (ctable s')) (h s p (cte_cap (ctable s) p))"
    by simp_all
qed

lemma revoke_time_laws:
  assumes inv: "kinv s" and p: "p < length (ctable s)" and ty: "cap_type (cte_cap (ctable s) p) = CAPTY_TIME"
  shows "ok (\<lambda>(e, s'). kinv s' \<and> frame s s' \<and> cap_type (cte_cap (ctable s') p) = CAPTY_TIME)
      (cap_revoke_time s p (cte_cap (ctable s) p))"
    "ok (\<lambda>(e, s'). revoke_table s p e (ctable s')) (cap_revoke_time s p (cte_cap (ctable s) p))"
proof -
  obtain pad hart bgn mrk end' where cap: "cte_cap (ctable s) p = TimeCap pad hart bgn mrk end'"
    using cap_type_cases(1) [OF kinv_cap_ok [OF inv p] ty] by blast
  have keep: "keeps s (cap_revoke_time s p (cte_cap (ctable s) p))"
    using cap_revoke_time_ok [OF inv p cap] cap by simp
  have table: "revoke_table s p e (ctable s')"
    if "cap_revoke_time s p (cte_cap (ctable s) p) = Some (e, s')" for e s'
    using cap_revoke_time_table [OF that [unfolded cap] cap] .
  note laws = handler_laws [where h = cap_revoke_time, OF keep p table ty]
  show "ok (\<lambda>(e, s'). kinv s' \<and> frame s s' \<and> cap_type (cte_cap (ctable s') p) = CAPTY_TIME)
      (cap_revoke_time s p (cte_cap (ctable s) p))" by (rule laws(1))
  show "ok (\<lambda>(e, s'). revoke_table s p e (ctable s')) (cap_revoke_time s p (cte_cap (ctable s) p))"
    by (rule laws(2))
qed

lemma revoke_memory_laws:
  assumes inv: "kinv s" and p: "p < length (ctable s)" and ty: "cap_type (cte_cap (ctable s) p) = CAPTY_MEMORY"
  shows "ok (\<lambda>(e, s'). kinv s' \<and> frame s s' \<and> cap_type (cte_cap (ctable s') p) = CAPTY_MEMORY)
      (cap_revoke_memory s p (cte_cap (ctable s) p))"
    "ok (\<lambda>(e, s'). revoke_table s p e (ctable s')) (cap_revoke_memory s p (cte_cap (ctable s) p))"
proof -
  obtain rwx lck tag bgn mrk end' where cap: "cte_cap (ctable s) p = MemCap rwx lck tag bgn mrk end'"
    using cap_type_cases(2) [OF kinv_cap_ok [OF inv p] ty] by blast
  have keep: "keeps s (cap_revoke_memory s p (cte_cap (ctable s) p))"
    using cap_revoke_memory_ok [OF inv p cap] cap by simp
  have table: "revoke_table s p e (ctable s')"
    if "cap_revoke_memory s p (cte_cap (ctable s) p) = Some (e, s')" for e s'
    using cap_revoke_memory_table [OF that [unfolded cap] cap table_okD(2) [OF kinvD(1) [OF inv] p]] .
  note laws = handler_laws [where h = cap_revoke_memory, OF keep p table ty]
  show "ok (\<lambda>(e, s'). kinv s' \<and> frame s s' \<and> cap_type (cte_cap (ctable s') p) = CAPTY_MEMORY)
      (cap_revoke_memory s p (cte_cap (ctable s) p))" by (rule laws(1))
  show "ok (\<lambda>(e, s'). revoke_table s p e (ctable s')) (cap_revoke_memory s p (cte_cap (ctable s) p))"
    by (rule laws(2))
qed

lemma revoke_monitor_laws:
  assumes inv: "kinv s" and p: "p < length (ctable s)" and ty: "cap_type (cte_cap (ctable s) p) = CAPTY_MONITOR"
  shows "ok (\<lambda>(e, s'). kinv s' \<and> frame s s' \<and> cap_type (cte_cap (ctable s') p) = CAPTY_MONITOR)
      (cap_revoke_monitor s p (cte_cap (ctable s) p))"
    "ok (\<lambda>(e, s'). revoke_table s p e (ctable s')) (cap_revoke_monitor s p (cte_cap (ctable s) p))"
proof -
  obtain pad bgn mrk end' where cap: "cte_cap (ctable s) p = MonCap pad bgn mrk end'"
    using cap_type_cases(4) [OF kinv_cap_ok [OF inv p] ty] by blast
  have keep: "keeps s (cap_revoke_monitor s p (cte_cap (ctable s) p))"
    using cap_revoke_monitor_ok [OF inv p cap] cap by simp
  have table: "revoke_table s p e (ctable s')"
    if "cap_revoke_monitor s p (cte_cap (ctable s) p) = Some (e, s')" for e s'
    using cap_revoke_monitor_table [OF that [unfolded cap] cap] .
  note laws = handler_laws [where h = cap_revoke_monitor, OF keep p table ty]
  show "ok (\<lambda>(e, s'). kinv s' \<and> frame s s' \<and> cap_type (cte_cap (ctable s') p) = CAPTY_MONITOR)
      (cap_revoke_monitor s p (cte_cap (ctable s) p))" by (rule laws(1))
  show "ok (\<lambda>(e, s'). revoke_table s p e (ctable s')) (cap_revoke_monitor s p (cte_cap (ctable s) p))"
    by (rule laws(2))
qed

lemma revoke_channel_laws:
  assumes inv: "kinv s" and p: "p < length (ctable s)" and ty: "cap_type (cte_cap (ctable s) p) = CAPTY_CHANNEL"
  shows "ok (\<lambda>(e, s'). kinv s' \<and> frame s s' \<and> cap_type (cte_cap (ctable s') p) = CAPTY_CHANNEL)
      (cap_revoke_channel s p (cte_cap (ctable s) p))"
    "ok (\<lambda>(e, s'). revoke_table s p e (ctable s')) (cap_revoke_channel s p (cte_cap (ctable s) p))"
proof -
  obtain pad bgn mrk end' where cap: "cte_cap (ctable s) p = ChanCap pad bgn mrk end'"
    using cap_type_cases(5) [OF kinv_cap_ok [OF inv p] ty] by blast
  have keep: "keeps s (cap_revoke_channel s p (cte_cap (ctable s) p))"
    using cap_revoke_channel_ok [OF inv p cap] cap by simp
  have table: "revoke_table s p e (ctable s')"
    if "cap_revoke_channel s p (cte_cap (ctable s) p) = Some (e, s')" for e s'
    using cap_revoke_channel_table [OF that [unfolded cap] cap table_okD(2) [OF kinvD(1) [OF inv] p]] .
  note laws = handler_laws [where h = cap_revoke_channel, OF keep p table ty]
  show "ok (\<lambda>(e, s'). kinv s' \<and> frame s s' \<and> cap_type (cte_cap (ctable s') p) = CAPTY_CHANNEL)
      (cap_revoke_channel s p (cte_cap (ctable s) p))" by (rule laws(1))
  show "ok (\<lambda>(e, s'). revoke_table s p e (ctable s')) (cap_revoke_channel s p (cte_cap (ctable s) p))"
    by (rule laws(2))
qed

lemma revoke_socket_law:
  assumes inv: "kinv s" and p: "p < length (ctable s)" and ty: "cap_type (cte_cap (ctable s) p) = CAPTY_SOCKET"
    and next_p: "cte_next (ctable s) p \<noteq> p"
  shows "ok (\<lambda>(e, s'). revoke_table s p e (ctable s')) (cap_revoke_socket s p (cte_cap (ctable s) p))"
proof -
  have c: "cte_next (ctable s) p < length (ctable s)" by (rule table_okD(2) [OF kinvD(1) [OF inv] p])
  obtain mode perm chan tag where cap: "cte_cap (ctable s) p = SockCap mode perm chan tag"
    using cap_type_cases(6) [OF kinv_cap_ok [OF inv p] ty] by blast
  have table: "revoke_table s p e (ctable s')"
    if "cap_revoke_socket s p (cte_cap (ctable s) p) = Some (e, s')" for e s'
    using cap_revoke_socket_table [OF that [unfolded cap] cap c next_p kinv_cap_ok [OF inv c]] .
  show ?thesis
    by (rule handler_laws(2) [where h = cap_revoke_socket, OF cap_revoke_socket_ok [OF inv p] p table ty])
qed

interpretation rtime: revoke_handler cap_revoke_time CAPTY_TIME "\<lambda>c. cap_type c = CAPTY_TIME"
  by unfold_locales (simp_all add: revoke_time_laws)

interpretation rmem: revoke_handler cap_revoke_memory CAPTY_MEMORY "\<lambda>c. cap_type c = CAPTY_MEMORY"
  by unfold_locales (simp_all add: revoke_memory_laws)

interpretation rmon: revoke_handler cap_revoke_monitor CAPTY_MONITOR "\<lambda>c. cap_type c = CAPTY_MONITOR"
  by unfold_locales (simp_all add: revoke_monitor_laws)

interpretation rchan: revoke_handler cap_revoke_channel CAPTY_CHANNEL "\<lambda>c. cap_type c = CAPTY_CHANNEL"
  by unfold_locales (simp_all add: revoke_channel_laws)

interpretation rsock: revoke_handler cap_revoke_socket CAPTY_SOCKET "\<lambda>c. True"
  by unfold_locales (simp_all add: revoke_socket_law cap_revoke_socket_ok)

section \<open>Revocation of any capability\<close>

lemma revoke_pmp_loop:
  "cap_revoke_loop cap_revoke_pmp s p = Some (SUCCESS, s)"
  by (subst cap_revoke_loop.simps) (simp add: cap_revoke_pmp_def)

lemma cap_revoke_timer:
  assumes inv: "kinv s" and p: "p < length (ctable s)" and timer: "reads s \<le> n" "mip s n AND 0x80 \<noteq> 0"
  shows "ok (\<lambda>(e, s'). kinv s' \<and> frame (s\<lparr>reads := reads s'\<rparr>) s') (cap_revoke s p)"
proof (cases "cte_cap (ctable s) p")
  case (PmpCap rwx used slot addr)
  with inv show ?thesis by (simp add: cap_revoke_def Let_def revoke_pmp_loop)
qed (use inv kinv_cap_ok [OF inv p] rtime.loop_timer [OF inv p _ timer] rmem.loop_timer [OF inv p _ timer]
    rmon.loop_timer [OF inv p _ timer] rchan.loop_timer [OF inv p _ timer]
    rsock.loop_timer [OF inv p _ timer] in \<open>simp_all add: cap_revoke_def Let_def\<close>)

lemma cap_revoke_ring:
  assumes inv: "kinv s" and r: "ring (ctable s) (us @ p # ds @ z # vs)"
    and ds: "\<forall>d \<in> set ds. revocable (cte_cap (ctable s) p) (cte_cap (ctable s) d)"
    and z: "\<not> revocable (cte_cap (ctable s) p) (cte_cap (ctable s) z)"
  shows "ok (\<lambda>(e, s'). kinv s' \<and> e \<in> {SUCCESS, ERR_PREEMPTED} \<and> (\<exists>ds'. suffix ds' ds
      \<and> ring (ctable s') (us @ p # ds' @ z # vs)
      \<and> (\<forall>x. x \<notin> set (p # ds) \<or> x \<in> set ds' \<longrightarrow> cte_cap (ctable s') x = cte_cap (ctable s) x)))
    (cap_revoke s p)"
proof -
  have p: "p < length (ctable s)" "\<not> cte_is_empty (ctable s) p"
    using ringD(2) [OF r] by (auto simp: occupied_def)
  show ?thesis
  proof (cases "cte_cap (ctable s) p")
    case (PmpCap rwx used slot addr)
    with ds have "ds = []" by (cases ds) auto
    with PmpCap inv r show ?thesis by (simp add: cap_revoke_def Let_def revoke_pmp_loop)
  qed (use p kinv_cap_ok [OF inv p(1)] rtime.loop_ring [OF inv _ r ds z] rmem.loop_ring [OF inv _ r ds z]
      rmon.loop_ring [OF inv _ r ds z] rchan.loop_ring [OF inv _ r ds z] rsock.loop_ring [OF inv _ r ds z]
      in \<open>simp_all add: cap_revoke_def Let_def cte_is_empty_def\<close>)
qed

section \<open>Revocation resets the parent\<close>

fun mark_reset :: "cap \<Rightarrow> bool" where
  "mark_reset (TimeCap pad hart bgn mrk end') \<longleftrightarrow> mrk = bgn"
| "mark_reset (MemCap rwx lck tag bgn mrk end') \<longleftrightarrow> mrk = bgn \<and> \<not> lck"
| "mark_reset (MonCap pad bgn mrk end') \<longleftrightarrow> mrk = bgn"
| "mark_reset (ChanCap pad bgn mrk end') \<longleftrightarrow> mrk = bgn"
| "mark_reset c \<longleftrightarrow> True"

definition resets :: "(kstate \<Rightarrow> cte_t \<Rightarrow> cap \<Rightarrow> (err_t \<times> kstate) option) \<Rightarrow> capty \<Rightarrow> bool" where
  "resets h ty \<longleftrightarrow> (\<forall>s p e s'. h s p (cte_cap (ctable s) p) = Some (e, s') \<longrightarrow> p < length (ctable s) \<longrightarrow>
     cap_type (cte_cap (ctable s) p) = ty \<longrightarrow> length (ctable s') = length (ctable s)
     \<and> cap_type (cte_cap (ctable s') p) = ty \<and> (e \<noteq> CONTINUE \<longrightarrow> mark_reset (cte_cap (ctable s') p)))"

lemma resets_handlers:
  "resets cap_revoke_time CAPTY_TIME" "resets cap_revoke_memory CAPTY_MEMORY"
  "resets cap_revoke_monitor CAPTY_MONITOR" "resets cap_revoke_channel CAPTY_CHANNEL"
proof -
  note defs = Let_def bind_eq_Some_conv cte_get_set cte_cap_delete_other
  note frames = sched_update_ctable proc_pmp_unload_ctable cap_sock_clear_ctable
  have next_ne: "cte_next (ctable s) p \<noteq> p" if "cap_type (cte_cap (ctable s) (cte_next (ctable s) p)) \<noteq> cap_type (cte_cap (ctable s) p)" for s p
    using that by auto
  show "resets cap_revoke_time CAPTY_TIME"
    unfolding resets_def
  proof (intro allI impI, goal_cases)
    case (1 s p e s')
    then show ?case
      by (cases "cte_cap (ctable s) p"; cases "cte_cap (ctable s) (cte_next (ctable s) p)")
        (auto simp: cap_revoke_time_def defs split: if_splits dest!: frames)
  qed
  show "resets cap_revoke_memory CAPTY_MEMORY"
    unfolding resets_def
  proof (intro allI impI, goal_cases)
    case (1 s p e s')
    then show ?case using next_ne [of s p]
      by (cases "cte_cap (ctable s) p"; cases "cte_cap (ctable s) (cte_next (ctable s) p)")
        (auto simp: cap_revoke_memory_def defs split: if_splits dest!: frames)
  qed
  show "resets cap_revoke_monitor CAPTY_MONITOR"
    unfolding resets_def
  proof (intro allI impI, goal_cases)
    case (1 s p e s')
    then show ?case
      by (cases "cte_cap (ctable s) p"; cases "cte_cap (ctable s) (cte_next (ctable s) p)")
        (auto simp: cap_revoke_monitor_def defs split: if_splits)
  qed
  show "resets cap_revoke_channel CAPTY_CHANNEL"
    unfolding resets_def
  proof (intro allI impI, goal_cases)
    case (1 s p e s')
    then show ?case using next_ne [of s p]
      by (cases "cte_cap (ctable s) p"; cases "cte_cap (ctable s) (cte_next (ctable s) p)")
        (auto simp: cap_revoke_channel_def defs split: if_splits dest!: frames)
  qed
qed

lemma resetsD:
  assumes "resets h ty" "h s p (cte_cap (ctable s) p) = Some (e, s')" "p < length (ctable s)"
    "cap_type (cte_cap (ctable s) p) = ty"
  shows "length (ctable s') = length (ctable s)" "cap_type (cte_cap (ctable s') p) = ty"
    "e \<noteq> CONTINUE \<Longrightarrow> mark_reset (cte_cap (ctable s') p)"
  using assms unfolding resets_def by blast+

lemma loop_resets:
  assumes h: "resets h ty" and l: "cap_revoke_loop h s p = Some (e, s')"
    and p: "p < length (ctable s)" "cap_type (cte_cap (ctable s) p) = ty"
  shows "e \<noteq> ERR_PREEMPTED \<longrightarrow> mark_reset (cte_cap (ctable s') p)"
proof -
  have "resets h ty \<longrightarrow> p < length (ctable s) \<longrightarrow> cap_type (cte_cap (ctable s) p) = ty \<longrightarrow>
    fst (e, s') \<noteq> ERR_PREEMPTED \<longrightarrow> mark_reset (cte_cap (ctable (snd (e, s'))) p)"
  proof (rule cap_revoke_loop.raw_induct [where P = "\<lambda>h s p r. resets h ty \<longrightarrow> p < length (ctable s) \<longrightarrow>
      cap_type (cte_cap (ctable s) p) = ty \<longrightarrow> fst r \<noteq> ERR_PREEMPTED \<longrightarrow> mark_reset (cte_cap (ctable (snd r)) p)", OF _ l])
    fix loop h s p r
    assume IH: "\<And>h s p r. loop h s p = Some r \<Longrightarrow> resets h ty \<longrightarrow> p < length (ctable s) \<longrightarrow>
      cap_type (cte_cap (ctable s) p) = ty \<longrightarrow> fst r \<noteq> ERR_PREEMPTED \<longrightarrow> mark_reset (cte_cap (ctable (snd r)) p)"
      and r: "(h s p (cte_cap (ctable s) p) \<bind> (\<lambda>(err, s). if err = CONTINUE then
         (let (preempt, s) = kernel_preempt s in if preempt then Some (ERR_PREEMPTED, s) else loop h s p)
         else Some (SUCCESS, s))) = Some r"
    from r obtain e t where t: "h s p (cte_cap (ctable s) p) = Some (e, t)" by (auto simp: bind_eq_Some_conv)
    show "resets h ty \<longrightarrow> p < length (ctable s) \<longrightarrow> cap_type (cte_cap (ctable s) p) = ty \<longrightarrow>
      fst r \<noteq> ERR_PREEMPTED \<longrightarrow> mark_reset (cte_cap (ctable (snd r)) p)"
    proof (intro impI)
      assume a: "resets h ty" "p < length (ctable s)" "cap_type (cte_cap (ctable s) p) = ty" "fst r \<noteq> ERR_PREEMPTED"
      note d = resetsD [OF a(1) t a(2,3)]
      show "mark_reset (cte_cap (ctable (snd r)) p)"
      proof (cases "e = CONTINUE")
        case True
        with r t a(4) have "loop h (t\<lparr>reads := reads t + 1\<rparr>) p = Some r"
          by (auto simp: kernel_preempt_def split: if_splits)
        from IH [OF this] a d show ?thesis by simp
      next
        case False
        with r t d(3) show ?thesis by auto
      qed
    qed
  qed
  with assms show ?thesis by simp
qed

section \<open>Deriving a time slice and revoking it\<close>

lemma derive_time_step:
  assumes inv: "kinv s" and c: "src < length (ctable s)" "dst < length (ctable s)"
    and cap: "cte_cap (ctable s) src = TimeCap pad h bgn bgn end'" and dst: "cte_is_empty (ctable s) dst"
    and n: "bgn < nend" "nend \<le> end'"
  shows "cap_derive s src dst (TimeCap npad h bgn bgn nend) = Some (SUCCESS,
    s\<lparr>slots := assign_hart (unat h) (cte_pid dst) (unat nend) (unat bgn) (unat nend) (slots s),
      ctable := cte_insert (cte_set_cap (ctable s) src (TimeCap pad h bgn nend end')) dst
        (TimeCap npad h bgn bgn nend) src\<rparr>)"
proof -
  have ok: "hart_ok (unat h)" "unat end' \<le> S3K_SLOT_CNT" using kinv_cap_ok [OF inv c(1)] cap by simp_all
  then have "unat nend \<le> S3K_SLOT_CNT" using n(2) by (simp add: word_le_nat_alt)
  then have "sched_update s (cte_pid dst) (unat nend) (unat h) (unat bgn) (unat nend)
    = Some (s\<lparr>slots := assign_hart (unat h) (cte_pid dst) (unat nend) (unat bgn) (unat nend) (slots s)\<rparr>)"
    by (rule sched_update_ok [OF inv ok(1)])
  with cap dst n show ?thesis
    by (simp add: cap_derive_def cap_derive_time_def cte_is_empty_def set_ctable_def)
qed

lemma revoke_time_step:
  assumes inv: "kinv s" and p: "p < length (ctable s)" "cte_next (ctable s) p = c" "c \<noteq> p"
    and cap: "cte_cap (ctable s) p = TimeCap pad h bgn mrk end'"
    and child: "cte_cap (ctable s) c = TimeCap cpad h bgn bgn cend" "cend \<le> end'"
  shows "cap_revoke s p = Some (SUCCESS,
    s\<lparr>slots := assign_hart (unat h) (cte_pid p) (unat end') (unat bgn) (unat mrk) (slots s),
      ctable := cte_set_cap (cte_delete (ctable s) c) p (TimeCap pad h bgn bgn end')\<rparr>)"
proof -
  have ok: "hart_ok (unat h)" "unat end' \<le> S3K_SLOT_CNT" "mrk \<le> end'" using kinv_cap_ok [OF inv p(1)] cap by simp_all
  let ?t = "set_ctable s (cte_delete (ctable s) c)"
  have "unat mrk \<le> length (slots ?t)" using ok kinv_lengths(4) [OF inv] by (simp add: word_le_nat_alt)
  then have "sched_update ?t (cte_pid p) (unat end') (unat h) (unat bgn) (unat mrk)
    = Some (?t\<lparr>slots := assign_hart (unat h) (cte_pid p) (unat end') (unat bgn) (unat mrk) (slots ?t)\<rparr>)"
    by (intro sched_update_eq) (use ok in auto)
  with cap child p show ?thesis
    by (simp add: cap_revoke_def cap_revoke_loop.simps [of cap_revoke_time] cap_revoke_time_def is_time_child_def set_ctable_def)
qed

end
