(* ===== verification/CapPmp.thy ===== *)
theory CapPmp
  imports Revoke
begin

text \<open>
  Loading and unloading PMP frames, \<open>kernel/src/cap_pmp.c\<close>: the PMP configuration of a
  process is built from the PMP capabilities in its own part of the capability table.
\<close>

definition cap_pmp_load :: "kstate \<Rightarrow> cte_t \<Rightarrow> pmp_slot_t \<Rightarrow> (err_t \<times> kstate) option" where
  "cap_pmp_load s pmp slot = do {
     p \<leftarrow> proc_get s (cte_pid pmp);
     (case cte_cap (ctable s) pmp of
        NoCap _ \<Rightarrow> Some (ERR_EMPTY, s)
      | PmpCap rwx used old addr \<Rightarrow>
          if used then Some (ERR_INVALID_PMP, s)
          else do {
            avail \<leftarrow> proc_pmp_avail s p slot;
            if \<not> avail then Some (ERR_DST_OCCUPIED, s)
            else do {
              s \<leftarrow> proc_pmp_load s p slot rwx (ucast addr);
              Some (SUCCESS, set_ctable s
                (cte_set_cap (ctable s) pmp (PmpCap rwx True slot addr)))
            }
          }
      | _ \<Rightarrow> Some (ERR_INVALID_PMP, s))
   }"

definition cap_pmp_unload :: "kstate \<Rightarrow> cte_t \<Rightarrow> (err_t \<times> kstate) option" where
  "cap_pmp_unload s pmp = do {
     p \<leftarrow> proc_get s (cte_pid pmp);
     (case cte_cap (ctable s) pmp of
        NoCap _ \<Rightarrow> Some (ERR_EMPTY, s)
      | PmpCap rwx used slot addr \<Rightarrow>
          if \<not> used then Some (ERR_INVALID_PMP, s)
          else do {
            s \<leftarrow> proc_pmp_unload s p slot;
            Some (SUCCESS, set_ctable s
              (cte_set_cap (ctable s) pmp (PmpCap rwx False 0 addr)))
          }
      | _ \<Rightarrow> Some (ERR_INVALID_PMP, s))
   }"

section \<open>The operations keep the invariant\<close>

lemma cap_pmp_load_ok:
  assumes inv: "kinv s" and c: "c < length (ctable s)" and slot: "unat slot < S3K_PMP_CNT"
  shows "keeps s (cap_pmp_load s c slot)"
proof (cases "cte_cap (ctable s) c")
  case (PmpCap rwx used old addr)
  let ?p = "cte_pid c"
  let ?ps = "(procs s)[?p := load_slot (unat slot) (ucast rwx OR 0x18) (ucast addr) (procs s ! ?p)]"
  have p: "?p < S3K_PROC_CNT" using inv c by (simp add: kinv_lengths cte_pid_bound)
  note q = kinv_proc_ok [OF inv p]
  show ?thesis
  proof (cases "used \<or> pmpcfg (procs s ! ?p) ! unat slot \<noteq> 0")
    case True
    with PmpCap inv slot show ?thesis
      by (auto simp: cap_pmp_load_def kinv_proc_get_cte [OF inv c] proc_pmp_avail_def)
  next
    case False
    let ?ct = "cte_set_cap (ctable s) c (PmpCap rwx True slot addr)"
    have "pmp_inv (pmp_used ?ct) ?ps"
      using pmp_inv_load [OF kinvD(5) [OF inv], of c "unat slot" rwx addr] q p slot False PmpCap c
      by (simp add: kinv_lengths [OF inv] pmp_used_ops pmp_used_cap proc_ok_def)
    moreover have "procs_ok ?ps"
      using kinvD(2) [OF inv] q p
      by (simp add: procs_ok_def nth_list_update load_slot_def proc_ok_def)
    moreover have "table_ok ?ct" using kinvD(1) [OF inv] slot by (simp add: table_ok_set_cap)
    ultimately have "kinv (set_ctable (upd_proc s ?p (load_slot (unat slot) (ucast rwx OR 0x18) (ucast addr))) ?ct)"
      using inv by (simp add: kinv_def upd_proc_def)
    with PmpCap False slot show ?thesis
      by (simp add: cap_pmp_load_def kinv_proc_get_cte [OF inv c] proc_pmp_avail_def proc_pmp_load_eq)
  qed
qed (use inv in \<open>simp_all add: cap_pmp_load_def kinv_proc_get_cte [OF inv c]\<close>)

lemma cap_pmp_unload_ok:
  assumes inv: "kinv s" and c: "c < length (ctable s)"
  shows "keeps s (cap_pmp_unload s c)"
proof (cases "cte_cap (ctable s) c")
  case (PmpCap rwx used slot addr)
  show ?thesis
  proof (cases used)
    case True
    with PmpCap kinv_cap_ok [OF inv c] have slot: "unat slot < S3K_PMP_CNT" by simp
    have "kinv (set_ctable (upd_proc s (cte_pid c) (clear_slot (unat slot)))
        (cte_set_cap (ctable s) c (PmpCap rwx False 0 addr)))"
      using PmpCap True kinvD(1) [OF inv] c
      by (intro kinv_unload [OF inv c]) (simp_all add: table_ok_set_cap pmp_used_ops)
    with PmpCap True slot show ?thesis
      by (simp add: cap_pmp_unload_def kinv_proc_get_cte [OF inv c] proc_pmp_unload_eq)
  next
    case False
    with PmpCap inv show ?thesis by (simp add: cap_pmp_unload_def kinv_proc_get_cte [OF inv c])
  qed
qed (use inv in \<open>simp_all add: cap_pmp_unload_def kinv_proc_get_cte [OF inv c]\<close>)

end
