(* ===== verification/CapMonitor.thy ===== *)
theory CapMonitor
  imports CapPmp
begin

text \<open>
  Monitor operations, \<open>kernel/src/cap_monitor.c\<close>: a monitor capability gives control over
  the processes \<open>mrk \<le> pid < end\<close>. A result that the C function writes through a pointer is
  returned as an option, \<open>None\<close> when the pointer is not written.
\<close>

definition check_monitor :: "kstate \<Rightarrow> cte_t \<Rightarrow> pid_t \<Rightarrow> bool \<Rightarrow> err_t option" where
  "check_monitor s mon p check_suspended = (case cte_cap (ctable s) mon of
     MonCap pad bgn mrk end' \<Rightarrow>
       if p < mrk \<or> end' \<le> p then Some ERR_INVALID_MONITOR
       else if check_suspended then do {
         q \<leftarrow> proc_get s (unat p);
         Some (if \<not> proc_is_suspended s q then ERR_INVALID_STATE else SUCCESS)
       } else Some SUCCESS
   | _ \<Rightarrow> Some ERR_INVALID_MONITOR)"

definition check_monitor_move :: "kstate \<Rightarrow> cte_t \<Rightarrow> cte_t \<Rightarrow> cte_t \<Rightarrow> err_t option" where
  "check_monitor_move s mon src dst = do {
     err \<leftarrow> (if cte_pid mon \<noteq> cte_pid src
             then check_monitor s mon (of_nat (cte_pid src)) True else Some SUCCESS);
     if err \<noteq> SUCCESS then Some err
     else if cte_pid mon \<noteq> cte_pid dst
       then check_monitor s mon (of_nat (cte_pid dst)) True else Some SUCCESS
   }"

definition cap_monitor_suspend :: "kstate \<Rightarrow> cte_t \<Rightarrow> pid_t \<Rightarrow> (err_t \<times> kstate) option" where
  "cap_monitor_suspend s mon p = do {
     err \<leftarrow> check_monitor s mon p False;
     if err = SUCCESS then do { q \<leftarrow> proc_get s (unat p); Some (err, proc_suspend s q) }
     else Some (err, s)
   }"

definition cap_monitor_resume :: "kstate \<Rightarrow> cte_t \<Rightarrow> pid_t \<Rightarrow> (err_t \<times> kstate) option" where
  "cap_monitor_resume s mon p = do {
     err \<leftarrow> check_monitor s mon p False;
     if err = SUCCESS then do { q \<leftarrow> proc_get s (unat p); Some (err, proc_resume s q) }
     else Some (err, s)
   }"

definition cap_monitor_state_get :: "kstate \<Rightarrow> cte_t \<Rightarrow> pid_t \<Rightarrow> (err_t \<times> u64 option) option" where
  "cap_monitor_state_get s mon p = do {
     err \<leftarrow> check_monitor s mon p False;
     if err = SUCCESS then do { q \<leftarrow> proc_get s (unat p); Some (err, Some (pstate (procs s ! q))) }
     else Some (err, None)
   }"

definition cap_monitor_yield ::
  "kstate \<Rightarrow> cte_t \<Rightarrow> pid_t \<Rightarrow> proc_ptr option \<Rightarrow> (err_t \<times> proc_ptr option \<times> kstate) option" where
  "cap_monitor_yield s mon p next = do {
     err \<leftarrow> check_monitor s mon p False;
     if err = SUCCESS then do {
       q \<leftarrow> proc_get s (unat p);
       let (acquired, s) = proc_acquire s q;
       Some (if acquired then (SUCCESS, Some q, s) else (ERR_INVALID_STATE, next, s))
     } else Some (err, next, s)
   }"

definition cap_monitor_reg_read ::
  "kstate \<Rightarrow> cte_t \<Rightarrow> pid_t \<Rightarrow> u32 \<Rightarrow> (err_t \<times> u64 option) option" where
  "cap_monitor_reg_read s mon p reg = do {
     err \<leftarrow> check_monitor s mon p True;
     if err = SUCCESS then do {
       q \<leftarrow> proc_get s (unat p);
       r \<leftarrow> reg_of (unat reg);
       Some (err, Some (get_reg s q r))
     } else Some (err, None)
   }"

definition cap_monitor_reg_write ::
  "kstate \<Rightarrow> cte_t \<Rightarrow> pid_t \<Rightarrow> u32 \<Rightarrow> u64 \<Rightarrow> (err_t \<times> kstate) option" where
  "cap_monitor_reg_write s mon p reg val = do {
     err \<leftarrow> check_monitor s mon p True;
     if err = SUCCESS then do {
       q \<leftarrow> proc_get s (unat p);
       r \<leftarrow> reg_of (unat reg);
       Some (err, set_reg s q r val)
     } else Some (err, s)
   }"

definition cap_monitor_cap_read :: "kstate \<Rightarrow> cte_t \<Rightarrow> cte_t \<Rightarrow> (err_t \<times> cap option) option" where
  "cap_monitor_cap_read s mon src = do {
     err \<leftarrow> check_monitor s mon (of_nat (cte_pid src)) True;
     if err = SUCCESS then (let (err, cp) = cap_read (ctable s) src in Some (err, Some cp))
     else Some (err, None)
   }"

definition cap_monitor_cap_move ::
  "kstate \<Rightarrow> cte_t \<Rightarrow> cte_t \<Rightarrow> cte_t \<Rightarrow> (err_t \<times> kstate) option" where
  "cap_monitor_cap_move s mon src dst = do {
     err \<leftarrow> check_monitor_move s mon src dst;
     if err = SUCCESS then cap_move s src dst else Some (err, s)
   }"

definition cap_monitor_pmp_load ::
  "kstate \<Rightarrow> cte_t \<Rightarrow> cte_t \<Rightarrow> pmp_slot_t \<Rightarrow> (err_t \<times> kstate) option" where
  "cap_monitor_pmp_load s mon pmp slot = do {
     err \<leftarrow> check_monitor s mon (of_nat (cte_pid pmp)) True;
     if err = SUCCESS then cap_pmp_load s pmp slot else Some (err, s)
   }"

definition cap_monitor_pmp_unload :: "kstate \<Rightarrow> cte_t \<Rightarrow> cte_t \<Rightarrow> (err_t \<times> kstate) option" where
  "cap_monitor_pmp_unload s mon pmp = do {
     err \<leftarrow> check_monitor s mon (of_nat (cte_pid pmp)) True;
     if err = SUCCESS then cap_pmp_unload s pmp else Some (err, s)
   }"

section \<open>The operations keep the invariant\<close>

text \<open>
  A successful check means that the capability is a monitor whose free part contains the
  process, and that the process is suspended if that is asked for.
\<close>

lemma check_monitor_iff:
  assumes inv: "kinv s" and mon: "mon < length (ctable s)"
  shows "\<exists>e. check_monitor s mon p b = Some e \<and> (e = SUCCESS \<longleftrightarrow>
      (\<exists>pad bgn mrk end'. cte_cap (ctable s) mon = MonCap pad bgn mrk end' \<and> mrk \<le> p \<and> p < end')
      \<and> (b \<longrightarrow> proc_is_suspended s (unat p)))"
proof (cases "cte_cap (ctable s) mon")
  case (MonCap pad bgn mrk end')
  show ?thesis
  proof (cases "mrk \<le> p \<and> p < end'")
    case True
    with MonCap kinv_cap_ok [OF inv mon] have "unat p < S3K_PROC_CNT"
      by (auto simp: word_less_nat_alt)
    with MonCap True show ?thesis
      by (auto simp: check_monitor_def kinv_proc_get [OF inv])
  next
    case False
    with MonCap show ?thesis by (auto simp: check_monitor_def not_le not_less)
  qed
qed (simp_all add: check_monitor_def)

lemma check_monitor_success:
  assumes inv: "kinv s" and mon: "mon < length (ctable s)" and "check_monitor s mon p b = Some SUCCESS"
  shows "unat p < S3K_PROC_CNT"
  using check_monitor_iff [OF inv mon, of p b] assms(3) kinv_cap_ok [OF inv mon]
  by (auto simp: word_less_nat_alt)

text \<open>The operation returns, keeps the invariant, the environment and the running processes.\<close>

abbreviation steps :: "kstate \<Rightarrow> ('e \<times> kstate) option \<Rightarrow> bool" where
  "steps s m \<equiv> ok (\<lambda>(e, s'). kinv s' \<and> env_same s s' \<and> runs_on s s') m"

lemma keeps_steps: "kinv s \<Longrightarrow> keeps s m \<Longrightarrow> steps s m"
  by (erule ok_mono) (auto simp: frame_env frame_runs)

lemma monitor_guard:
  assumes inv: "kinv s" and mon: "mon < length (ctable s)"
    and body: "\<lbrakk>check_monitor s mon p b = Some SUCCESS; unat p < S3K_PROC_CNT\<rbrakk> \<Longrightarrow> ok Q (f SUCCESS)"
    and fail: "\<And>e. e \<noteq> SUCCESS \<Longrightarrow> ok Q (f e)"
  shows "ok Q (check_monitor s mon p b \<bind> f)"
proof -
  from check_monitor_iff [OF inv mon, of p b] obtain e where e: "check_monitor s mon p b = Some e"
    by blast
  then show ?thesis
    using body fail check_monitor_success [OF inv mon, of p b] by (cases "e = SUCCESS") auto
qed

lemma proc_suspend_ok:
  assumes inv: "kinv s" and p: "p < S3K_PROC_CNT"
  shows "kinv (proc_suspend s p)" "env_same s (proc_suspend s p)" "runs_on s (proc_suspend s p)"
proof -
  have st: "state_ok (pstate (procs s ! p))" using kinv_proc_ok [OF inv p] by (simp add: proc_ok_def)
  have len: "p < length (procs s)" using p kinv_lengths(2) [OF inv] by simp
  have upd: "upd_proc s p (\<lambda>q. q\<lparr>pstate := pstate q OR PSF_SUSPENDED\<rparr>)
      = upd_proc s p (\<lambda>q. q\<lparr>pstate := pstate (procs s ! p) OR PSF_SUSPENDED\<rparr>)"
    by (simp add: upd_proc_def)
  show "kinv (proc_suspend s p)"
    using state_ok_suspend [OF st] inv
    by (auto simp: proc_suspend_def Let_def o_def upd intro!: kinv_set_reg kinv_set_state)
  show "env_same s (proc_suspend s p)" by (simp add: proc_suspend_def Let_def)
  have "\<not> bit (PSF_BUSY :: u64) 1" "\<not> bit (PSF_BUSY OR PSF_SUSPENDED :: u64) 1"
    by (simp_all add: bit_simps bit_PSF)
  then show "runs_on s (proc_suspend s p)"
    using len by (auto simp: runs_on_def running_def proc_suspend_def Let_def o_def
        procs_upd_proc procs_set_reg and_PSF_iff PSF_values)
qed

lemma proc_resume_ok:
  assumes inv: "kinv s" and p: "p < S3K_PROC_CNT"
  shows "kinv (proc_resume s p)" "env_same s (proc_resume s p)" "runs_on s (proc_resume s p)"
proof -
  have st: "state_ok (pstate (procs s ! p))" using kinv_proc_ok [OF inv p] by (simp add: proc_ok_def)
  have len: "p < length (procs s)" using p kinv_lengths(2) [OF inv] by simp
  show "kinv (proc_resume s p)"
    unfolding proc_resume_def Let_def
    by (intro kinv_upd_proc) (use inv in \<open>auto simp: proc_ok_def state_ok_resume\<close>)
  show "env_same s (proc_resume s p)" by (simp add: proc_resume_def Let_def)
  show "runs_on s (proc_resume s p)"
    using len by (auto simp: runs_on_def running_def proc_resume_def Let_def o_def
        procs_upd_proc PSF_values)
qed

lemma proc_acquire_ok:
  assumes inv: "kinv s" and p: "p < S3K_PROC_CNT" and a: "proc_acquire s p = (b, s')"
  shows "kinv s'" "env_same s s'" "runs_on s s'" "b \<Longrightarrow> running s' p"
    "\<And>q. q \<noteq> p \<or> \<not> b \<Longrightarrow> procs s' ! q = procs s ! q" "b \<Longrightarrow> \<not> running s p"
proof -
  have len: "p < length (procs s)" using p kinv_lengths(2) [OF inv] by simp
  show "kinv s'" using a inv by (auto simp: proc_acquire_def split: if_splits)
  show "env_same s s'" using a by (auto simp: proc_acquire_def env_same_def split: if_splits)
  show "b \<Longrightarrow> \<not> running s p"
    using a by (auto simp: proc_acquire_def running_def PSF_values split: if_splits)
  show "runs_on s s'" "b \<Longrightarrow> running s' p" "\<And>q. q \<noteq> p \<or> \<not> b \<Longrightarrow> procs s' ! q = procs s ! q"
    using a len by (auto simp: proc_acquire_def runs_on_def running_def procs_upd_proc
        split: if_splits)
qed

lemma monitor_state_ok:
  assumes inv: "kinv s" and mon: "mon < length (ctable s)"
  shows "steps s (cap_monitor_suspend s mon p)" "steps s (cap_monitor_resume s mon p)"
    "ok (\<lambda>_. True) (cap_monitor_state_get s mon p)"
  unfolding cap_monitor_suspend_def cap_monitor_resume_def cap_monitor_state_get_def
  by (rule monitor_guard [OF inv mon];
      use inv in \<open>simp add: kinv_proc_get proc_suspend_ok proc_resume_ok\<close>)+

lemma cap_monitor_yield_ok:
  assumes inv: "kinv s" and mon: "mon < length (ctable s)"
  shows "ok (\<lambda>(e, n, s'). kinv s' \<and> env_same s s' \<and> runs_on s s'
      \<and> (n = next \<or> (\<exists>q < S3K_PROC_CNT. n = Some q \<and> running s' q \<and> \<not> running s q)))
    (cap_monitor_yield s mon p next)"
  unfolding cap_monitor_yield_def
proof (rule monitor_guard [OF inv mon], goal_cases)
  case 1
  obtain b s' where a: "proc_acquire s (unat p) = (b, s')" by fastforce
  from proc_acquire_ok [OF inv 1(2) a] 1 a show ?case
    by (auto simp: kinv_proc_get [OF inv])
qed (use inv in simp)

lemma reg_of_bound: "n < REG_CNT \<Longrightarrow> \<exists>r. reg_of n = Some r"
  by (simp add: reg_of_def)

lemma monitor_reg_ok:
  assumes inv: "kinv s" and mon: "mon < length (ctable s)" and reg: "unat reg < REG_CNT"
  shows "ok (\<lambda>_. True) (cap_monitor_reg_read s mon p reg)"
    "steps s (cap_monitor_reg_write s mon p reg val)"
proof -
  from reg_of_bound [OF reg] obtain r where r: "reg_of (unat reg) = Some r" ..
  show "ok (\<lambda>_. True) (cap_monitor_reg_read s mon p reg)"
    "steps s (cap_monitor_reg_write s mon p reg val)"
    unfolding cap_monitor_reg_read_def cap_monitor_reg_write_def
    by (rule monitor_guard [OF inv mon]; use inv in \<open>auto simp: kinv_proc_get r\<close>)+
qed

lemma monitor_cap_ok:
  assumes inv: "kinv s" and mon: "mon < length (ctable s)"
    and c: "src < length (ctable s)" "dst < length (ctable s)"
  shows "ok (\<lambda>_. True) (cap_monitor_cap_read s mon src)"
    "keeps s (cap_monitor_cap_move s mon src dst)"
    "keeps s (cap_monitor_pmp_unload s mon src)"
    "unat slot < S3K_PMP_CNT \<Longrightarrow> keeps s (cap_monitor_pmp_load s mon src slot)"
proof -
  show "ok (\<lambda>_. True) (cap_monitor_cap_read s mon src)"
    unfolding cap_monitor_cap_read_def
    by (rule monitor_guard [OF inv mon]) (simp_all add: cap_read_def Let_def)
  show "keeps s (cap_monitor_pmp_unload s mon src)"
    unfolding cap_monitor_pmp_unload_def
    by (rule monitor_guard [OF inv mon]) (use inv cap_pmp_unload_ok [OF inv c(1)] in simp_all)
  show "keeps s (cap_monitor_pmp_load s mon src slot)" if "unat slot < S3K_PMP_CNT"
    unfolding cap_monitor_pmp_load_def
    by (rule monitor_guard [OF inv mon]) (use inv cap_pmp_load_ok [OF inv c(1) that] in simp_all)
  have "ok (\<lambda>e. True) (check_monitor_move s mon src dst)"
    unfolding check_monitor_move_def
    using check_monitor_iff [OF inv mon, of "of_nat (cte_pid src)" True]
      check_monitor_iff [OF inv mon, of "of_nat (cte_pid dst)" True]
    by auto
  with inv cap_move_ok [OF inv c] show "keeps s (cap_monitor_cap_move s mon src dst)"
    by (auto simp: cap_monitor_cap_move_def ok_iff)
qed

definition monitors :: "kstate \<Rightarrow> cte_t \<Rightarrow> nat \<Rightarrow> bool" where
  "monitors s mon p \<longleftrightarrow> (\<exists>pad bgn mrk end'. cte_cap (ctable s) mon = MonCap pad bgn mrk end'
     \<and> unat mrk \<le> p \<and> p < unat end')"

lemma check_monitor_authority:
  assumes "kinv s" "mon < length (ctable s)" "check_monitor s mon p b = Some e"
  shows "e = SUCCESS \<longleftrightarrow> monitors s mon (unat p) \<and> (b \<longrightarrow> proc_is_suspended s (unat p))"
  using check_monitor_iff [OF assms(1,2), of p b] assms(3)
  by (auto simp: monitors_def word_le_nat_alt word_less_nat_alt)

lemma unat_cte_pid: "kinv s \<Longrightarrow> c < length (ctable s) \<Longrightarrow> unat (of_nat (cte_pid c) :: pid_t) = cte_pid c"
  using kinv_pid [of s c] config_bounds(2) by (simp add: unsigned_of_nat take_bit_nat_eq_self)

end
