(* ===== verification/CapIpc.thy ===== *)
theory CapIpc
  imports CapMonitor
begin

text \<open>
  Inter-process communication over sockets, \<open>kernel/src/cap_ipc.c\<close>. A socket with tag 0 is
  the server end of its channel, the others are client ends. The in-out parameter
  \<open>proc_t **next\<close>, the process to run after the call, is an argument and a result.
\<close>

record ipc_msg_t =
  msg_cap_buf :: cte_t
  msg_send_cap :: bool
  msg_data :: "u64 list"

text \<open>Delivery of a message to the process \<open>recv\<close>, which has been acquired.\<close>

definition deliver ::
  "kstate \<Rightarrow> cap \<Rightarrow> ipc_msg_t \<Rightarrow> cte_t option \<Rightarrow> proc_ptr \<Rightarrow> kstate option" where
  "deliver s cap msg buf recv =
    (let s = set_reg s recv REG_T0 (err_code SUCCESS);
         s = set_reg s recv REG_A0 (ucast (sock_tag cap));
         s = set_reg s recv REG_A2 (msg_data msg ! 0);
         s = set_reg s recv REG_A3 (msg_data msg ! 1);
         s = set_reg s recv REG_A4 (msg_data msg ! 2);
         s = set_reg s recv REG_A5 (msg_data msg ! 3)
     in if msg_send_cap msg then do {
          let s = set_reg s recv REG_A1 (raw_of_cap (cte_cap (ctable s) (msg_cap_buf msg)));
          b \<leftarrow> buf;
          (_, s) \<leftarrow> cap_move s (msg_cap_buf msg) b;
          Some s
        } else Some (set_reg s recv REG_A1 0))"

text \<open>The part of \<open>do_send\<close> after the receiver is known.\<close>

definition send_to ::
  "kstate \<Rightarrow> cap \<Rightarrow> ipc_msg_t \<Rightarrow> cte_t option \<Rightarrow> proc_ptr \<Rightarrow> proc_ptr option
    \<Rightarrow> (err_t \<times> proc_ptr option \<times> kstate) option" where
  "send_to s cap msg buf recv next =
    (let (acquired, s) = proc_ipc_acquire s recv (sock_chan cap)
     in if acquired then do {
          s \<leftarrow> deliver s cap msg buf recv;
          if sock_mode cap = IPC_YIELD then do {
            n \<leftarrow> next;
            Some (SUCCESS, Some recv,
              upd_proc s recv (\<lambda>q. q\<lparr>timeout := timeout (procs s ! n)\<rparr>))
          } else if sock_mode cap = IPC_NOYIELD then do {
            s \<leftarrow> proc_release (upd_proc s recv (\<lambda>q. q\<lparr>timeout := 0\<rparr>)) recv;
            Some (SUCCESS, next, s)
          } else None
        } else Some (ERR_NO_RECEIVER, next, s))"

definition do_send ::
  "kstate \<Rightarrow> cap \<Rightarrow> ipc_msg_t \<Rightarrow> proc_ptr option \<Rightarrow> (err_t \<times> proc_ptr option \<times> kstate) option"
  where
  "do_send s cap msg next = do {
     ch \<leftarrow> get_chan s (sock_chan cap);
     let (curr_time, s) = time_get s;
     let t = timeout_get s (mhartid s);
     if t \<le> curr_time then Some (ERR_PREEMPTED, next, s)
     else if sock_tag cap = 0 then
       (case client ch of
          None \<Rightarrow> Some (ERR_NO_RECEIVER, next, s)
        | Some recv \<Rightarrow> do {
            s \<leftarrow> upd_chan s (sock_chan cap) (\<lambda>c. c\<lparr>client := None\<rparr>);
            send_to s cap msg (cap_buf ch) recv next
          })
     else
       (case server ch of
          None \<Rightarrow> Some (ERR_NO_RECEIVER, next, s)
        | Some recv \<Rightarrow>
            if sock_mode cap = IPC_YIELD \<and> t \<le> curr_time + get_reg s recv REG_SERVTIME
            then Some (ERR_NO_RECEIVER, next, s)
            else send_to s cap msg (cap_buf ch) recv next)
   }"

definition do_recv :: "kstate \<Rightarrow> cap \<Rightarrow> cte_t \<Rightarrow> proc_ptr \<Rightarrow> kstate option" where
  "do_recv s cap buf recv =
    (if sock_tag cap = 0 then do {
       s \<leftarrow> upd_chan s (sock_chan cap) (\<lambda>c. c\<lparr>server := Some recv, cap_buf := Some buf\<rparr>);
       proc_ipc_wait (upd_proc s recv (\<lambda>q. q\<lparr>timeout := - 1\<rparr>)) recv (sock_chan cap)
     } else do {
       s \<leftarrow> upd_chan s (sock_chan cap) (\<lambda>c. c\<lparr>client := Some recv, cap_buf := Some buf\<rparr>);
       let s = (if sock_mode cap = IPC_NOYIELD
                then upd_proc s recv (\<lambda>q. q\<lparr>timeout := - 1\<rparr>) else s);
       proc_ipc_wait s recv (sock_chan cap)
     })"

definition reply ::
  "kstate \<Rightarrow> cap \<Rightarrow> ipc_msg_t \<Rightarrow> proc_ptr option \<Rightarrow> (err_t \<times> proc_ptr option \<times> kstate) option"
  where
  "reply s cap msg next =
    (if msg_send_cap msg \<and> sock_perm cap AND IPC_SCAP = 0 then Some (ERR_INVALID_SOCKET, next, s)
     else do_send s cap msg next)"

definition send ::
  "kstate \<Rightarrow> cap \<Rightarrow> ipc_msg_t \<Rightarrow> proc_ptr option \<Rightarrow> (err_t \<times> proc_ptr option \<times> kstate) option"
  where
  "send s cap msg next =
    (if msg_send_cap msg \<and> sock_perm cap AND IPC_CCAP = 0 then Some (ERR_INVALID_SOCKET, next, s)
     else do_send s cap msg next)"

definition replyrecv ::
  "kstate \<Rightarrow> cap \<Rightarrow> ipc_msg_t \<Rightarrow> proc_ptr \<Rightarrow> (err_t \<times> proc_ptr option \<times> kstate) option"
  where
  "replyrecv s cap msg srv = do {
     let buf = msg_cap_buf msg;
     KASSERT (pstate (procs s ! srv) = PSF_BUSY);
     if msg_send_cap msg \<and> sock_perm cap AND IPC_SCAP = 0
     then Some (ERR_INVALID_SOCKET, Some srv, s)
     else if sock_perm cap AND IPC_CCAP \<noteq> 0 \<and> \<not> cte_is_empty (ctable s) buf \<and> \<not> msg_send_cap msg
     then Some (ERR_DST_OCCUPIED, Some srv, s)
     else do {
       (err, next, s) \<leftarrow> do_send s cap msg (Some srv);
       if err = ERR_PREEMPTED then Some (err, None, s)
       else do {
         s \<leftarrow> (if err = ERR_NO_RECEIVER \<and> msg_send_cap msg
               then do { (_, s) \<leftarrow> cap_delete s (msg_cap_buf msg); Some s } else Some s);
         s \<leftarrow> do_recv s cap buf srv;
         Some (ERR_TIMEOUT, if next = Some srv then None else next, s)
       }
     }
   }"

definition call ::
  "kstate \<Rightarrow> cap \<Rightarrow> ipc_msg_t \<Rightarrow> proc_ptr \<Rightarrow> (err_t \<times> proc_ptr option \<times> kstate) option"
  where
  "call s cap msg clt = do {
     let buf = msg_cap_buf msg;
     if msg_send_cap msg \<and> sock_perm cap AND IPC_CCAP = 0
     then Some (ERR_INVALID_SOCKET, Some clt, s)
     else if sock_perm cap AND IPC_SCAP \<noteq> 0 \<and> \<not> cte_is_empty (ctable s) buf \<and> \<not> msg_send_cap msg
     then Some (ERR_DST_OCCUPIED, Some clt, s)
     else do {
       (err, next, s) \<leftarrow> do_send s cap msg (Some clt);
       if err \<noteq> SUCCESS then Some (err, next, s)
       else do {
         s \<leftarrow> do_recv s cap buf clt;
         Some (ERR_TIMEOUT, if next = Some clt then None else next, s)
       }
     }
   }"

section \<open>Entry points\<close>

definition cap_sock_send ::
  "kstate \<Rightarrow> cte_t \<Rightarrow> ipc_msg_t \<Rightarrow> proc_ptr \<Rightarrow> (err_t \<times> proc_ptr option \<times> kstate) option" where
  "cap_sock_send s sock msg p =
    (let cap = cte_cap (ctable s) sock
     in if cap_type cap = CAPTY_NONE then Some (ERR_EMPTY, Some p, s)
        else if cap_type cap \<noteq> CAPTY_SOCKET then Some (ERR_INVALID_SOCKET, Some p, s)
        else if pstate (procs s ! p) AND PSF_SUSPENDED \<noteq> 0 then Some (ERR_PREEMPTED, None, s)
        else if sock_tag cap = 0 then reply s cap msg (Some p)
        else send s cap msg (Some p))"

definition cap_sock_recv ::
  "kstate \<Rightarrow> cte_t \<Rightarrow> cte_t \<Rightarrow> proc_ptr \<Rightarrow> (err_t \<times> proc_ptr option \<times> kstate) option" where
  "cap_sock_recv s sock buf p =
    (let cap = cte_cap (ctable s) sock
     in if cap_type cap = CAPTY_NONE then Some (ERR_EMPTY, Some p, s)
        else if cap_type cap \<noteq> CAPTY_SOCKET then Some (ERR_INVALID_CAPABILITY, Some p, s)
        else if sock_perm cap AND IPC_CCAP \<noteq> 0 \<and> \<not> cte_is_empty (ctable s) buf
        then Some (ERR_DST_OCCUPIED, Some p, s)
        else if pstate (procs s ! p) AND PSF_SUSPENDED \<noteq> 0 then Some (ERR_PREEMPTED, None, s)
        else if sock_tag cap = 0 then do {
          s \<leftarrow> do_recv s cap buf p;
          Some (ERR_TIMEOUT, None, s)
        } else do {
          ch \<leftarrow> get_chan s (sock_chan cap);
          if client ch = Some p then
            (case server ch of
               None \<Rightarrow> Some (ERR_TIMEOUT, Some p, s)
             | Some srv \<Rightarrow>
                 if sock_mode cap = IPC_YIELD then
                   (let (acquired, s) = proc_acquire s srv
                    in if acquired then do {
                         s \<leftarrow> proc_ipc_wait s p (sock_chan cap);
                         s \<leftarrow> upd_chan s (sock_chan cap) (\<lambda>c. c\<lparr>cap_buf := Some buf\<rparr>);
                         Some (ERR_TIMEOUT, Some srv,
                           upd_proc s srv (\<lambda>q. q\<lparr>timeout := timeout (procs s ! p)\<rparr>))
                       } else Some (ERR_TIMEOUT, Some p, s))
                 else Some (ERR_TIMEOUT, Some p, s))
          else Some (ERR_INVALID_STATE, Some p, s)
        })"

definition cap_sock_sendrecv ::
  "kstate \<Rightarrow> cte_t \<Rightarrow> ipc_msg_t \<Rightarrow> proc_ptr \<Rightarrow> (err_t \<times> proc_ptr option \<times> kstate) option" where
  "cap_sock_sendrecv s sock msg p =
    (let cap = cte_cap (ctable s) sock
     in if cap_type cap = CAPTY_NONE then Some (ERR_EMPTY, Some p, s)
        else if cap_type cap \<noteq> CAPTY_SOCKET then Some (ERR_INVALID_CAPABILITY, Some p, s)
        else if pstate (procs s ! p) AND PSF_SUSPENDED \<noteq> 0 then Some (ERR_PREEMPTED, None, s)
        else do {
          KASSERT (pstate (procs s ! p) = PSF_BUSY);
          if sock_tag cap = 0 then replyrecv s cap msg p else call s cap msg p
        })"

section \<open>The operations keep the invariant\<close>

text \<open>The processes that run keep their state.\<close>

definition states_kept :: "kstate \<Rightarrow> kstate \<Rightarrow> bool" where
  "states_kept s s' \<longleftrightarrow>
     (\<forall>q < S3K_PROC_CNT. running s q \<longrightarrow> pstate (procs s' ! q) = pstate (procs s ! q))"

lemma states_kept_refl [simp]: "states_kept s s"
  by (simp add: states_kept_def)

lemma states_kept_trans: "states_kept s t \<Longrightarrow> states_kept t u \<Longrightarrow> states_kept s u"
  by (simp add: states_kept_def running_def)

lemma states_kept_running: "states_kept s s' \<Longrightarrow> q < S3K_PROC_CNT \<Longrightarrow> running s q \<Longrightarrow> running s' q"
  by (auto simp: states_kept_def running_def)

lemma frame_states: "kinv s \<Longrightarrow> frame s s' \<Longrightarrow> states_kept s s'"
  by (simp add: states_kept_def frame_proc kinv_lengths)

lemma pstate_upd [simp]:
  "pstate (procs (set_reg s p r v) ! q) = pstate (procs s ! q)"
  "pstate (procs (upd_proc s p (\<lambda>q. q\<lparr>timeout := t\<rparr>)) ! q) = pstate (procs s ! q)"
  by (cases "p < length (procs s)";
      simp add: set_reg_def upd_proc_def nth_list_update list_update_beyond)+

lemma states_kept_upd [simp]:
  "states_kept s (set_reg t p r v) = states_kept s t"
  "states_kept s (upd_proc t p (\<lambda>q. q\<lparr>timeout := u\<rparr>)) = states_kept s t"
  "states_kept s (t\<lparr>reads := n\<rparr>) = states_kept s t"
  "states_kept s (t\<lparr>channels := cs\<rparr>) = states_kept s t"
  by (simp_all add: states_kept_def)

lemma deliver_ok:
  assumes inv: "kinv s" and c: "msg_cap_buf msg < length (ctable s)"
    and b: "buf = Some b" "b < length (ctable s)"
  shows "ok (\<lambda>s'. kinv s' \<and> env_same s s' \<and> (\<forall>q < S3K_PROC_CNT. pstate (procs s' ! q) = pstate (procs s ! q)))
      (deliver s cap msg buf recv)"
proof -
  define t where "t = set_reg (set_reg (set_reg (set_reg (set_reg (set_reg s recv REG_T0 (err_code SUCCESS))
    recv REG_A0 (ucast (sock_tag cap))) recv REG_A2 (msg_data msg ! 0)) recv REG_A3 (msg_data msg ! 1))
    recv REG_A4 (msg_data msg ! 2)) recv REG_A5 (msg_data msg ! 3)"
  have t: "kinv t" "env_same s t" "ctable t = ctable s" "\<And>q. pstate (procs t ! q) = pstate (procs s ! q)"
    using inv by (auto simp: t_def)
  have eq: "deliver s cap msg buf recv = (if msg_send_cap msg then do {
      (_, s) \<leftarrow> cap_move (set_reg t recv REG_A1 (raw_of_cap (cte_cap (ctable t) (msg_cap_buf msg)))) (msg_cap_buf msg) b;
      Some s } else Some (set_reg t recv REG_A1 0))"
    using b(1) by (simp add: deliver_def Let_def t_def)
  let ?u = "set_reg t recv REG_A1 (raw_of_cap (cte_cap (ctable t) (msg_cap_buf msg)))"
  have u: "kinv ?u" using t(1) by blast
  have "keeps ?u (cap_move ?u (msg_cap_buf msg) b)"
    using cap_move_ok [OF u] c b(2) t(3) by simp
  then have "ok (\<lambda>(e, s'). kinv s' \<and> env_same s s' \<and> (\<forall>q < S3K_PROC_CNT. pstate (procs s' ! q) = pstate (procs s ! q)))
      (cap_move ?u (msg_cap_buf msg) b)"
  proof (rule ok_mono_pair)
    fix e s'
    assume "case (e, s') of (err, s') \<Rightarrow> kinv s' \<and> frame ?u s'"
    then have s': "kinv s'" "frame ?u s'" by simp_all
    have "env_same ?u s'" "env_same s ?u" using frame_env [OF s'(2)] t(2) by simp_all
    then have "env_same s s'" using env_same_trans by blast
    then show "case (e, s') of (e, s') \<Rightarrow>
        kinv s' \<and> env_same s s' \<and> (\<forall>q < S3K_PROC_CNT. pstate (procs s' ! q) = pstate (procs s ! q))"
      using s'(1) frame_proc(1) [OF s'(2)] t(4) kinv_lengths(2) [OF u] by simp
  qed
  with t eq show ?thesis by (auto simp: wp ok_iff)
qed

lemma proc_ipc_acquire_ok:
  assumes inv: "kinv s" and p: "p < S3K_PROC_CNT" and a: "proc_ipc_acquire s p ch = (b, s')"
  shows "kinv s'" "env_same s s'" "states_kept s s'" "ctable s' = ctable s"
    "b \<Longrightarrow> pstate (procs s' ! p) = PSF_BUSY \<and> \<not> running s p"
proof -
  have len: "p < length (procs s)" using p kinv_lengths(2) [OF inv] by simp
  have "blocked_on ch \<noteq> PSF_BUSY" "blocked_on ch \<noteq> PSF_BUSY OR PSF_SUSPENDED"
    using blocked_bits(2) [of ch] by (auto simp: bit_simps bit_PSF)
  then show "kinv s'" "env_same s s'" "states_kept s s'" "ctable s' = ctable s"
    "b \<Longrightarrow> pstate (procs s' ! p) = PSF_BUSY \<and> \<not> running s p"
    using a len inv by (auto simp: proc_ipc_acquire_def states_kept_def running_def procs_upd_proc
        env_same_def split: if_splits)
qed

lemma proc_release_ok:
  assumes inv: "kinv s" and p: "p < S3K_PROC_CNT" "busy s p"
  shows "ok (\<lambda>s'. kinv s' \<and> env_same s s' \<and> (\<forall>q. q \<noteq> p \<longrightarrow> procs s' ! q = procs s ! q)) (proc_release s p)"
proof -
  have "kinv (upd_proc s p (\<lambda>q. q\<lparr>pstate := pstate (procs s ! p) XOR PSF_BUSY\<rparr>))"
    "kinv (upd_proc s p (\<lambda>q. q\<lparr>pstate := pstate (procs s ! p) AND NOT PSF_BUSY\<rparr>))"
    using kinv_proc_ok [OF inv p(1)] state_ok_release [of "pstate (procs s ! p)"] p(2) inv
    by (auto simp: proc_ok_def busy_def)
  then show ?thesis
    using p(2) by (auto simp: proc_release_def KASSERT_def busy_def and_PSF_iff env_same_def upd_proc_def)
qed

text \<open>The receiver has been acquired: it either runs next or is ready.\<close>

lemma send_to_ok:
  assumes inv: "kinv s" and c: "msg_cap_buf msg < length (ctable s)"
    and b: "buf = Some b" "b < length (ctable s)" and r: "recv < S3K_PROC_CNT"
    and mode: "sock_mode cap = IPC_YIELD \<or> sock_mode cap = IPC_NOYIELD" and n: "next = Some p"
  shows "ok (\<lambda>(e, n, s'). kinv s' \<and> env_same s s' \<and> states_kept s s'
      \<and> (n = next \<or> n = Some recv \<and> running s' recv \<and> \<not> running s recv)) (send_to s cap msg buf recv next)"
proof -
  obtain a t where a: "proc_ipc_acquire s recv (sock_chan cap) = (a, t)" by fastforce
  note t = proc_ipc_acquire_ok [OF inv r a]
  show ?thesis
  proof (cases a)
    case False
    with a t inv show ?thesis by (simp add: send_to_def)
  next
    case True
    note busy = t(5) [OF True]
    from okD [OF deliver_ok [OF t(1), of msg buf b cap recv]] obtain u
      where d: "deliver t cap msg buf recv = Some u" "kinv u" "env_same t u"
        "\<And>q. q < S3K_PROC_CNT \<Longrightarrow> pstate (procs u ! q) = pstate (procs t ! q)"
      using c b t(4) by auto
    have env: "env_same s u" using t(2) d(3) by (rule env_same_trans)
    have keep: "states_kept s u" using t(3) d(4) by (simp add: states_kept_def)
    show ?thesis
    proof (cases "sock_mode cap = IPC_YIELD")
      case y: True
      have "running u recv" using d(4) [OF r] busy by (simp add: running_def)
      with y a True d(1,2) env keep n busy show ?thesis by (simp add: send_to_def)
    next
      case False
      let ?u = "upd_proc u recv (\<lambda>q. q\<lparr>timeout := 0\<rparr>)"
      have "busy ?u recv" using d(4) [OF r] busy by (simp add: busy_def bit_PSF)
      from okD [OF proc_release_ok [OF kinv_set_timeout [OF d(2)] r this]] obtain v
        where v: "proc_release ?u recv = Some v" "kinv v" "env_same ?u v"
          "\<And>q. q \<noteq> recv \<Longrightarrow> procs v ! q = procs ?u ! q" by auto
      have "pstate (procs v ! q) = pstate (procs s ! q)" if "q < S3K_PROC_CNT" "running s q" for q
      proof -
        have "q \<noteq> recv" using that(2) busy by auto
        with v(4) keep that show ?thesis by (simp add: states_kept_def)
      qed
      then have "states_kept s v" by (simp add: states_kept_def)
      with False mode a True d(1) v env show ?thesis
        by (auto simp: send_to_def env_same_def)
    qed
  qed
qed

definition sock_ok :: "cap \<Rightarrow> bool" where
  "sock_ok cap \<longleftrightarrow> unat (sock_chan cap) < S3K_CHAN_CNT
     \<and> (sock_mode cap = IPC_YIELD \<or> sock_mode cap = IPC_NOYIELD)"

lemma do_send_ok:
  assumes inv: "kinv s" and c: "msg_cap_buf msg < length (ctable s)" and cap: "sock_ok cap"
    and n: "next = Some p"
  shows "ok (\<lambda>(e, n, s'). kinv s' \<and> env_same s s' \<and> states_kept s s'
      \<and> (n = next \<or> (\<exists>q < S3K_PROC_CNT. n = Some q \<and> running s' q \<and> \<not> running s q))) (do_send s cap msg next)"
proof -
  let ?ch = "channels s ! unat (sock_chan cap)" and ?s = "s\<lparr>reads := reads s + 1\<rparr>"
  from cap have ch: "unat (sock_chan cap) < S3K_CHAN_CNT"
    and mode: "sock_mode cap = IPC_YIELD \<or> sock_mode cap = IPC_NOYIELD" by (auto simp: sock_ok_def)
  note get = kinv_get_chan [OF inv ch]
  have send: "ok (\<lambda>(e, n, s'). kinv s' \<and> env_same s s' \<and> states_kept s s'
      \<and> (n = next \<or> (\<exists>q < S3K_PROC_CNT. n = Some q \<and> running s' q \<and> \<not> running s q))) (send_to t cap msg (cap_buf ?ch) recv next)"
    if "server ?ch = Some recv \<or> client ?ch = Some recv" "kinv t" "env_same s t" "states_kept s t"
      "length (ctable t) = length (ctable s)" for t recv
  proof -
    from get(2) that(1) obtain b where b: "cap_buf ?ch = Some b" "b < S3K_PROC_CNT * S3K_CAP_CNT"
      and r: "recv < S3K_PROC_CNT" by (auto simp: chan_ok_def)
    from b(2) have b': "b < length (ctable t)" using kinv_lengths(1) [OF that(2)] by simp
    show ?thesis
      by (rule ok_mono [OF send_to_ok [OF that(2) _ b(1) b' r mode n, of msg]])
        (use c that r in \<open>auto intro: env_same_trans states_kept_trans dest: states_kept_running [OF that(4)]\<close>)
  qed
  have upd: "ok (\<lambda>t. kinv t \<and> env_same s t \<and> states_kept s t \<and> length (ctable t) = length (ctable s))
      (upd_chan ?s (sock_chan cap) (\<lambda>c. c\<lparr>client := None\<rparr>))"
    using inv ch by (intro upd_chan_ok) (auto simp: chan_ok_def env_same_def kinv_misc)
  have base: "kinv ?s" "env_same s ?s" "states_kept s ?s" using inv by (simp_all add: env_same_def)
  show ?thesis
  proof (cases "sock_tag cap = 0")
    case True
    have "ok (\<lambda>(e, n, s'). kinv s' \<and> env_same s s' \<and> states_kept s s'
        \<and> (n = next \<or> (\<exists>q < S3K_PROC_CNT. n = Some q \<and> running s' q \<and> \<not> running s q)))
        (upd_chan ?s (sock_chan cap) (\<lambda>c. c\<lparr>client := None\<rparr>) \<bind>
          (\<lambda>t. send_to t cap msg (cap_buf ?ch) recv next))" if "client ?ch = Some recv" for recv
      unfolding ok_bind by (rule ok_mono [OF upd]) (use send that in blast)
    with True base n show ?thesis
      by (auto simp: do_send_def get(1) Let_def split: option.split)
  next
    case False
    with base n send [of _ ?s] show ?thesis
      by (auto simp: do_send_def get(1) Let_def split: option.split)
  qed
qed

lemma do_recv_ok:
  assumes inv: "kinv s" and c: "buf < length (ctable s)" and cap: "sock_ok cap"
    and p: "p < S3K_PROC_CNT" "pstate (procs s ! p) = PSF_BUSY"
  shows "ok (\<lambda>s'. kinv s' \<and> env_same s s' \<and> busy s' p
      \<and> (\<forall>q. q \<noteq> p \<longrightarrow> pstate (procs s' ! q) = pstate (procs s ! q))) (do_recv s cap buf p)"
proof -
  from cap have ch: "unat (sock_chan cap) < S3K_CHAN_CNT" by (simp add: sock_ok_def)
  have len: "p < length (procs s)" using p(1) kinv_lengths(2) [OF inv] by simp
  have wait: "ok (\<lambda>s'. kinv s' \<and> env_same s s' \<and> busy s' p
      \<and> (\<forall>q. q \<noteq> p \<longrightarrow> pstate (procs s' ! q) = pstate (procs s ! q))) (proc_ipc_wait t p (sock_chan cap))"
    if t: "kinv t" "env_same s t" "\<And>q. pstate (procs t ! q) = pstate (procs s ! q)" for t
  proof -
    have "p < length (procs t)" using p(1) kinv_lengths(2) [OF t(1)] by simp
    with t p show ?thesis
      by (simp add: proc_ipc_wait_def KASSERT_def busy_def procs_upd_proc blocked_bits)
  qed
  have upd: "ok Q (upd_chan s (sock_chan cap) f)"
    if "f \<in> {\<lambda>c. c\<lparr>server := Some p, cap_buf := Some buf\<rparr>, \<lambda>c. c\<lparr>client := Some p, cap_buf := Some buf\<rparr>}"
      and "\<And>chs. kinv (s\<lparr>channels := chs\<rparr>) \<Longrightarrow> Q (s\<lparr>channels := chs\<rparr>)" for Q f
    using inv ch c p(1) that kinv_lengths(1) [OF inv]
    by (intro upd_chan_ok) (auto simp: chan_ok_def)
  show ?thesis
    unfolding do_recv_def
    by (auto simp: ok_bind Let_def intro!: upd wait)
qed

text \<open>
  The contract of an IPC system call by process \<open>p\<close>: the caller stays busy until it is
  released, the other running processes go on running, and the process to run next, if any,
  is running.
\<close>

definition ipc_post :: "kstate \<Rightarrow> proc_ptr \<Rightarrow> err_t \<times> proc_ptr option \<times> kstate \<Rightarrow> bool" where
  "ipc_post s p = (\<lambda>(e, n, s'). kinv s' \<and> env_same s s' \<and> busy s' p
     \<and> (\<forall>q < S3K_PROC_CNT. q \<noteq> p \<longrightarrow> running s q \<longrightarrow> running s' q \<and> n \<noteq> Some q)
     \<and> (\<forall>q. n = Some q \<longrightarrow> q < S3K_PROC_CNT \<and> running s' q))"

lemma ipc_post_stay:
  "\<lbrakk>kinv s; p < S3K_PROC_CNT; running s p\<rbrakk> \<Longrightarrow> ipc_post s p (e, Some p, s)"
  "\<lbrakk>kinv s; running s p\<rbrakk> \<Longrightarrow> ipc_post s p (e, None, s)"
  by (auto simp: ipc_post_def dest: running_busy)

lemma ipc_post_send:
  assumes "kinv s'" "env_same s s'" "states_kept s s'" "p < S3K_PROC_CNT" "running s p"
    and "n = Some p \<or> n = None \<or> (\<exists>q < S3K_PROC_CNT. n = Some q \<and> running s' q \<and> \<not> running s q)"
  shows "ipc_post s p (e, n, s')"
  using assms states_kept_running [OF assms(3)] running_busy [of s' p]
  by (auto simp: ipc_post_def)

lemma ipc_post_recv:
  assumes t: "kinv t" "env_same s t" "states_kept s t" and p: "p < S3K_PROC_CNT" "running s p"
    and buf: "buf < length (ctable t)" and cap: "sock_ok cap" and st: "pstate (procs t ! p) = PSF_BUSY"
    and n: "n = Some p \<or> (\<exists>q < S3K_PROC_CNT. n = Some q \<and> running t q \<and> \<not> running s q)"
  shows "ok (ipc_post s p) (do {
      s' \<leftarrow> do_recv t cap buf p;
      Some (ERR_TIMEOUT, if n = Some p then None else n, s')})"
proof -
  have "ok (\<lambda>s'. ipc_post s p (ERR_TIMEOUT, if n = Some p then None else n, s')) (do_recv t cap buf p)"
  proof (rule ok_mono [OF do_recv_ok [OF t(1) buf cap p(1) st]], elim conjE)
    fix s'
    assume s': "kinv s'" "env_same t s'" "busy s' p"
      "\<forall>q. q \<noteq> p \<longrightarrow> pstate (procs s' ! q) = pstate (procs t ! q)"
    have "running s' q" if "running t q" "q \<noteq> p" for q
      using that s'(4) by (simp add: running_def)
    with s' t n show "ipc_post s p (ERR_TIMEOUT, if n = Some p then None else n, s')"
      using states_kept_running [OF t(3)] env_same_trans [OF t(2) s'(2)]
      by (auto simp: ipc_post_def)
  qed
  then show ?thesis by (simp add: ok_bind)
qed

lemma replyrecv_ok:
  assumes inv: "kinv s" and c: "msg_cap_buf msg < length (ctable s)" and cap: "sock_ok cap"
    and p: "p < S3K_PROC_CNT" "pstate (procs s ! p) = PSF_BUSY"
  shows "ok (ipc_post s p) (replyrecv s cap msg p)"
proof -
  have run: "running s p" using p(2) by (simp add: running_def)
  from okD [OF do_send_ok [OF inv c cap, of "Some p" p]] obtain e n t
    where t: "do_send s cap msg (Some p) = Some (e, n, t)" "kinv t" "env_same s t" "states_kept s t"
      "n = Some p \<or> (\<exists>q < S3K_PROC_CNT. n = Some q \<and> running t q \<and> \<not> running s q)" by auto
  have st: "pstate (procs t ! p) = PSF_BUSY" using t(4) p run by (simp add: states_kept_def)
  have buf: "msg_cap_buf msg < length (ctable t)"
    using c kinv_lengths(1) [OF inv] kinv_lengths(1) [OF t(2)] by simp
  from okD [OF cap_delete_ok [OF t(2) buf]] obtain e' u
    where u: "cap_delete t (msg_cap_buf msg) = Some (e', u)" "kinv u" "frame t u" by auto
  note fu = frame_env [OF u(3)] frame_states [OF t(2) u(3)] frame_proc(1) [OF u(3)]
  have del: "ok (ipc_post s p) (do {
      s' \<leftarrow> do_recv u cap (msg_cap_buf msg) p;
      Some (ERR_TIMEOUT, if n = Some p then None else n, s')})"
    using t u(2) fu p run cap st buf kinv_lengths(1) [OF u(2)] kinv_lengths [OF t(2)]
    by (intro ipc_post_recv)
      (auto intro: env_same_trans states_kept_trans states_kept_running)
  show ?thesis
    using p run inv t u(1) ipc_post_stay [OF inv] ipc_post_send [OF t(2-4) p(1) run, of None] del
      ipc_post_recv [OF t(2-4) p(1) run buf cap st t(5)]
    by (auto simp: replyrecv_def Let_def KASSERT_def)
qed

lemma call_ok:
  assumes inv: "kinv s" and c: "msg_cap_buf msg < length (ctable s)" and cap: "sock_ok cap"
    and p: "p < S3K_PROC_CNT" "pstate (procs s ! p) = PSF_BUSY"
  shows "ok (ipc_post s p) (call s cap msg p)"
proof -
  have run: "running s p" using p(2) by (simp add: running_def)
  from okD [OF do_send_ok [OF inv c cap, of "Some p" p]] obtain e n t
    where t: "do_send s cap msg (Some p) = Some (e, n, t)" "kinv t" "env_same s t" "states_kept s t"
      "n = Some p \<or> (\<exists>q < S3K_PROC_CNT. n = Some q \<and> running t q \<and> \<not> running s q)" by auto
  have st: "pstate (procs t ! p) = PSF_BUSY" using t(4) p run by (simp add: states_kept_def)
  have buf: "msg_cap_buf msg < length (ctable t)"
    using c kinv_lengths(1) [OF inv] kinv_lengths(1) [OF t(2)] by simp
  show ?thesis
    using p run inv t ipc_post_stay [OF inv] ipc_post_send [OF t(2-4) p(1) run, of n]
      ipc_post_recv [OF t(2-4) p(1) run buf cap st t(5)]
    by (auto simp: call_def Let_def)
qed

lemma sock_cap_ok:
  assumes "kinv s" "sock < length (ctable s)" "cap_type (cte_cap (ctable s) sock) = CAPTY_SOCKET"
  shows "sock_ok (cte_cap (ctable s) sock)"
  using kinv_cap_ok [OF assms(1,2)] cap_type_cases(6) [OF kinv_cap_ok [OF assms(1,2)] assms(3)]
  by (auto simp: sock_ok_def)

lemma running_not_suspended:
  "running s p \<Longrightarrow> pstate (procs s ! p) AND PSF_SUSPENDED = 0 \<Longrightarrow> pstate (procs s ! p) = PSF_BUSY"
  by (auto simp: running_def PSF_values)

lemma cap_sock_send_ok:
  assumes inv: "kinv s" and c: "sock < length (ctable s)" "msg_cap_buf msg < length (ctable s)"
    and p: "p < S3K_PROC_CNT" "running s p"
  shows "ok (ipc_post s p) (cap_sock_send s sock msg p)"
proof -
  have send: "ok (ipc_post s p) (do_send s cap msg (Some p))" if "sock_ok cap" for cap
    by (rule ok_mono [OF do_send_ok [OF inv c(2) that refl]])
      (use p in \<open>auto intro!: ipc_post_send\<close>)
  show ?thesis
    using ipc_post_stay [OF inv] p send [OF sock_cap_ok [OF inv c(1)]]
    by (auto simp: cap_sock_send_def Let_def reply_def send_def)
qed

lemma cap_sock_sendrecv_ok:
  assumes inv: "kinv s" and c: "sock < length (ctable s)" "msg_cap_buf msg < length (ctable s)"
    and p: "p < S3K_PROC_CNT" "running s p"
  shows "ok (ipc_post s p) (cap_sock_sendrecv s sock msg p)"
  using ipc_post_stay [OF inv] p replyrecv_ok [OF inv c(2) sock_cap_ok [OF inv c(1)]]
    call_ok [OF inv c(2) sock_cap_ok [OF inv c(1)]] running_not_suspended [OF p(2)]
  by (auto simp: cap_sock_sendrecv_def Let_def KASSERT_def)

text \<open>A client that waits again for its server lends it the processor.\<close>

lemma sock_recv_yield_ok:
  assumes inv: "kinv s" and c: "buf < length (ctable s)" and cap: "sock_ok cap"
    and p: "p < S3K_PROC_CNT" "pstate (procs s ! p) = PSF_BUSY"
    and srv: "srv < S3K_PROC_CNT" "server ch = Some srv"
    and a: "proc_acquire s srv = (True, t)"
  shows "ok (ipc_post s p) (do {
      s \<leftarrow> proc_ipc_wait t p (sock_chan cap);
      s \<leftarrow> upd_chan s (sock_chan cap) (\<lambda>c. c\<lparr>cap_buf := Some buf\<rparr>);
      Some (ERR_TIMEOUT, Some srv, upd_proc s srv (\<lambda>q. q\<lparr>timeout := timeout (procs s ! p)\<rparr>))})"
proof -
  note t = proc_acquire_ok [OF inv srv(1) a]
  have neq: "srv \<noteq> p"
    using a p(2) by (auto simp: proc_acquire_def PSF_values split: if_splits)
  let ?u = "upd_proc t p (\<lambda>q. q\<lparr>pstate := blocked_on (sock_chan cap) OR PSF_BUSY\<rparr>)"
  have len: "p < length (procs t)" using p(1) kinv_lengths(2) [OF t(1)] by simp
  have "pstate (procs t ! p) = PSF_BUSY" using t(5) [of p] neq p(2) by simp
  then have w: "proc_ipc_wait t p (sock_chan cap) = Some ?u"
    by (simp add: proc_ipc_wait_def KASSERT_def)
  have u: "kinv ?u" "env_same s ?u" "busy ?u p" "\<And>q. q \<noteq> p \<Longrightarrow> running ?u q = running t q"
    using t(1,2) len by (auto simp: busy_def running_def procs_upd_proc blocked_bits)
  have "ok (\<lambda>v. ipc_post s p (ERR_TIMEOUT, Some srv,
      upd_proc v srv (\<lambda>q. q\<lparr>timeout := timeout (procs v ! p)\<rparr>)))
    (upd_chan ?u (sock_chan cap) (\<lambda>c. c\<lparr>cap_buf := Some buf\<rparr>))"
    using u t(3,4,6) cap srv neq p c kinv_lengths(1) [OF inv]
    by (intro upd_chan_ok) (auto simp: sock_ok_def chan_ok_def ipc_post_def busy_def runs_on_def)
  with w show ?thesis by (simp add: ok_bind)
qed

lemma cap_sock_recv_ok:
  assumes inv: "kinv s" and c: "sock < length (ctable s)" "buf < length (ctable s)"
    and p: "p < S3K_PROC_CNT" "running s p"
  shows "ok (ipc_post s p) (cap_sock_recv s sock buf p)"
proof (cases "cap_type (cte_cap (ctable s) sock) = CAPTY_SOCKET
    \<and> pstate (procs s ! p) AND PSF_SUSPENDED = 0")
  case False
  with ipc_post_stay [OF inv] p show ?thesis by (auto simp: cap_sock_recv_def Let_def)
next
  case True
  let ?cap = "cte_cap (ctable s) sock"
  have cap: "sock_ok ?cap" and st: "pstate (procs s ! p) = PSF_BUSY"
    using sock_cap_ok [OF inv c(1)] running_not_suspended [OF p(2)] True by simp_all
  have ch: "unat (sock_chan ?cap) < S3K_CHAN_CNT" using cap by (simp add: sock_ok_def)
  note get = kinv_get_chan [OF inv ch]
  have recv: "ok (ipc_post s p) (do { s \<leftarrow> do_recv s ?cap buf p; Some (ERR_TIMEOUT, None, s) })"
    using ipc_post_recv [OF inv _ _ p c(2) cap st, where n = "Some p"] by simp
  have cli: "ok (ipc_post s p) (let (acquired, t) = proc_acquire s srv
      in if acquired then do {
           s \<leftarrow> proc_ipc_wait t p (sock_chan ?cap);
           s \<leftarrow> upd_chan s (sock_chan ?cap) (\<lambda>c. c\<lparr>cap_buf := Some buf\<rparr>);
           Some (ERR_TIMEOUT, Some srv, upd_proc s srv (\<lambda>q. q\<lparr>timeout := timeout (procs s ! p)\<rparr>))
         } else Some (ERR_TIMEOUT, Some p, t))"
    if "server (channels s ! unat (sock_chan ?cap)) = Some srv" for srv
  proof -
    have srv: "srv < S3K_PROC_CNT" using get(2) that by (auto simp: chan_ok_def)
    obtain b t where a: "proc_acquire s srv = (b, t)" by fastforce
    note t = proc_acquire_ok [OF inv srv a]
    show ?thesis
    proof (cases b)
      case True
      with sock_recv_yield_ok [OF inv c(2) cap p(1) st srv that, of t] a show ?thesis by simp
    next
      case False
      with t p a running_busy [of t p] show ?thesis
        by (auto simp: ipc_post_def runs_on_def)
    qed
  qed
  show ?thesis
    using True ipc_post_stay [OF inv] p recv cli
    by (auto simp: cap_sock_recv_def Let_def get(1) split: option.split)
qed

section \<open>Messages\<close>

definition delivered :: "kstate \<Rightarrow> proc_ptr \<Rightarrow> u32 \<Rightarrow> u64 list \<Rightarrow> bool" where
  "delivered s p tag ws \<longleftrightarrow> get_reg s p REG_T0 = err_code SUCCESS \<and> get_reg s p REG_A0 = ucast tag \<and> get_reg s p REG_A1 = 0
     \<and> get_reg s p REG_A2 = ws ! 0 \<and> get_reg s p REG_A3 = ws ! 1 \<and> get_reg s p REG_A4 = ws ! 2 \<and> get_reg s p REG_A5 = ws ! 3"

lemma deliver_regs:
  assumes "q < length (procs s)" "\<not> msg_send_cap msg"
  shows "\<exists>s'. deliver s cap msg buf q = Some s' \<and> delivered s' q (sock_tag cap) (msg_data msg)
    \<and> ctable s' = ctable s \<and> channels s' = channels s \<and> length (procs s') = length (procs s)
    \<and> pstate (procs s' ! q) = pstate (procs s ! q)
    \<and> (\<forall>r. r \<noteq> q \<longrightarrow> procs s' ! r = procs s ! r)"
  using assms by (auto simp: deliver_def Let_def delivered_def get_set_reg) (simp_all add: set_reg_def upd_proc_def)

end
