(* ===== verification/Syscall.thy ===== *)
theory Syscall
  imports CapIpc
begin

text \<open>
  System calls, \<open>kernel/src/syscall.c\<close>: validation of the arguments, the handlers and the
  dispatcher. A system call takes its number from \<open>t0\<close> and its arguments from \<open>a0\<close> to
  \<open>a7\<close>, and leaves its error code in \<open>t0\<close>. The union \<open>sys_args_t\<close> is the record of the
  eight registers: field \<open>n\<close> of every member of the union is \<open>a\<close>\<open>n\<close>.

  The validators take the arguments through parameters of the types \<open>cidx_t\<close>, \<open>pid_t\<close>,
  \<open>pmp_slot_t\<close> and \<open>reg_t\<close>, which drops the upper bits of the 64-bit argument; the
  handlers pass the 64-bit argument to \<open>ctable_get\<close> and use it as an index in \<open>regs\<close>.
\<close>

section \<open>Numbers and arguments\<close>

datatype syscall_t =
    SYS_GET_INFO | SYS_REG_READ | SYS_REG_WRITE | SYS_SYNC | SYS_SLEEP | SYS_CAP_READ |
    SYS_CAP_MOVE | SYS_CAP_DELETE | SYS_CAP_REVOKE | SYS_CAP_DERIVE | SYS_PMP_LOAD |
    SYS_PMP_UNLOAD | SYS_MON_SUSPEND | SYS_MON_RESUME | SYS_MON_STATE_GET |
    SYS_MON_YIELD | SYS_MON_REG_READ | SYS_MON_REG_WRITE | SYS_MON_CAP_READ |
    SYS_MON_CAP_MOVE | SYS_MON_PMP_LOAD | SYS_MON_PMP_UNLOAD | SYS_SOCK_SEND |
    SYS_SOCK_RECV | SYS_SOCK_SENDRECV

definition all_syscalls :: "syscall_t list" where
  "all_syscalls =
    [SYS_GET_INFO, SYS_REG_READ, SYS_REG_WRITE, SYS_SYNC, SYS_SLEEP, SYS_CAP_READ,
    SYS_CAP_MOVE, SYS_CAP_DELETE, SYS_CAP_REVOKE, SYS_CAP_DERIVE, SYS_PMP_LOAD,
    SYS_PMP_UNLOAD, SYS_MON_SUSPEND, SYS_MON_RESUME, SYS_MON_STATE_GET, SYS_MON_YIELD,
    SYS_MON_REG_READ, SYS_MON_REG_WRITE, SYS_MON_CAP_READ, SYS_MON_CAP_MOVE,
    SYS_MON_PMP_LOAD, SYS_MON_PMP_UNLOAD, SYS_SOCK_SEND, SYS_SOCK_RECV,
    SYS_SOCK_SENDRECV]"

primrec syscall_no :: "syscall_t \<Rightarrow> nat" where
  "syscall_no SYS_GET_INFO = 0"
| "syscall_no SYS_REG_READ = 1"
| "syscall_no SYS_REG_WRITE = 2"
| "syscall_no SYS_SYNC = 3"
| "syscall_no SYS_SLEEP = 4"
| "syscall_no SYS_CAP_READ = 5"
| "syscall_no SYS_CAP_MOVE = 6"
| "syscall_no SYS_CAP_DELETE = 7"
| "syscall_no SYS_CAP_REVOKE = 8"
| "syscall_no SYS_CAP_DERIVE = 9"
| "syscall_no SYS_PMP_LOAD = 10"
| "syscall_no SYS_PMP_UNLOAD = 11"
| "syscall_no SYS_MON_SUSPEND = 12"
| "syscall_no SYS_MON_RESUME = 13"
| "syscall_no SYS_MON_STATE_GET = 14"
| "syscall_no SYS_MON_YIELD = 15"
| "syscall_no SYS_MON_REG_READ = 16"
| "syscall_no SYS_MON_REG_WRITE = 17"
| "syscall_no SYS_MON_CAP_READ = 18"
| "syscall_no SYS_MON_CAP_MOVE = 19"
| "syscall_no SYS_MON_PMP_LOAD = 20"
| "syscall_no SYS_MON_PMP_UNLOAD = 21"
| "syscall_no SYS_SOCK_SEND = 22"
| "syscall_no SYS_SOCK_RECV = 23"
| "syscall_no SYS_SOCK_SENDRECV = 24"

instantiation syscall_t :: linorder
begin

definition less_eq_syscall_t :: "syscall_t \<Rightarrow> syscall_t \<Rightarrow> bool" where
  "less_eq_syscall_t a b \<longleftrightarrow> syscall_no a \<le> syscall_no b"

definition less_syscall_t :: "syscall_t \<Rightarrow> syscall_t \<Rightarrow> bool" where
  "less_syscall_t a b \<longleftrightarrow> syscall_no a < syscall_no b"

instance
proof
  have inj: "syscall_no a = syscall_no b \<Longrightarrow> a = b" for a b
    by (cases a; cases b) simp_all
  fix x y z :: syscall_t
  show "x < y \<longleftrightarrow> x \<le> y \<and> \<not> y \<le> x" "x \<le> x" "x \<le> y \<Longrightarrow> y \<le> z \<Longrightarrow> x \<le> z" "x \<le> y \<or> y \<le> x"
    by (auto simp: less_eq_syscall_t_def less_syscall_t_def)
  show "x \<le> y \<Longrightarrow> y \<le> x \<Longrightarrow> x = y"
    by (simp add: less_eq_syscall_t_def inj)
qed

end

text \<open>The entry of the tables of validators and handlers, if the number is in range.\<close>

definition syscall_of :: "u64 \<Rightarrow> syscall_t option" where
  "syscall_of n =
    (if unat n < length all_syscalls then Some (all_syscalls ! unat n) else None)"

record sys_args_t =
  a0 :: u64
  a1 :: u64
  a2 :: u64
  a3 :: u64
  a4 :: u64
  a5 :: u64
  a6 :: u64
  a7 :: u64

text \<open>The arguments of a process. Every handler reads them before it writes a register.\<close>

definition sys_args :: "kstate \<Rightarrow> proc_ptr \<Rightarrow> sys_args_t" where
  "sys_args s p = \<lparr>a0 = get_reg s p REG_A0, a1 = get_reg s p REG_A1, a2 = get_reg s p REG_A2,
    a3 = get_reg s p REG_A3, a4 = get_reg s p REG_A4, a5 = get_reg s p REG_A5,
    a6 = get_reg s p REG_A6, a7 = get_reg s p REG_A7\<rparr>"

section \<open>Validation\<close>

definition valid_idx :: "cidx_t \<Rightarrow> bool" where
  "valid_idx idx \<longleftrightarrow> unat idx < S3K_CAP_CNT"

definition valid_slot :: "pmp_slot_t \<Rightarrow> bool" where
  "valid_slot slot \<longleftrightarrow> unat slot < S3K_PMP_CNT"

definition valid_pid :: "pid_t \<Rightarrow> bool" where
  "valid_pid p \<longleftrightarrow> unat p < S3K_PROC_CNT"

definition valid_reg :: "u32 \<Rightarrow> bool" where
  "valid_reg reg \<longleftrightarrow> unat reg < REG_CNT"

definition validate_get_info :: "sys_args_t \<Rightarrow> err_t" where
  "validate_get_info args = SUCCESS"

definition validate_reg_read :: "sys_args_t \<Rightarrow> err_t" where
  "validate_reg_read args =
    (if \<not> valid_reg (ucast (a0 args)) then ERR_INVALID_REGISTER
     else SUCCESS)"

definition validate_reg_write :: "sys_args_t \<Rightarrow> err_t" where
  "validate_reg_write args =
    (if \<not> valid_reg (ucast (a0 args)) then ERR_INVALID_REGISTER
     else SUCCESS)"

definition validate_sync :: "sys_args_t \<Rightarrow> err_t" where
  "validate_sync args = SUCCESS"

definition validate_sleep :: "sys_args_t \<Rightarrow> err_t" where
  "validate_sleep args = SUCCESS"

definition validate_cap_read :: "sys_args_t \<Rightarrow> err_t" where
  "validate_cap_read args =
    (if \<not> valid_idx (ucast (a0 args)) then ERR_INVALID_INDEX
     else SUCCESS)"

definition validate_cap_move :: "sys_args_t \<Rightarrow> err_t" where
  "validate_cap_move args =
    (if \<not> valid_idx (ucast (a0 args)) then ERR_INVALID_INDEX
     else if \<not> valid_idx (ucast (a1 args)) then ERR_INVALID_INDEX
     else SUCCESS)"

definition validate_cap_delete :: "sys_args_t \<Rightarrow> err_t" where
  "validate_cap_delete args =
    (if \<not> valid_idx (ucast (a0 args)) then ERR_INVALID_INDEX
     else SUCCESS)"

definition validate_cap_revoke :: "sys_args_t \<Rightarrow> err_t" where
  "validate_cap_revoke args =
    (if \<not> valid_idx (ucast (a0 args)) then ERR_INVALID_INDEX
     else SUCCESS)"

definition validate_cap_derive :: "sys_args_t \<Rightarrow> err_t" where
  "validate_cap_derive args =
    (if \<not> valid_idx (ucast (a0 args)) then ERR_INVALID_INDEX
     else if \<not> valid_idx (ucast (a1 args)) then ERR_INVALID_INDEX
     else if \<not> cap_is_valid (cap_of_raw (a2 args)) then ERR_INVALID_DERIVATION
     else SUCCESS)"

definition validate_pmp_load :: "sys_args_t \<Rightarrow> err_t" where
  "validate_pmp_load args =
    (if \<not> valid_idx (ucast (a0 args)) then ERR_INVALID_INDEX
     else if \<not> valid_slot (ucast (a1 args)) then ERR_INVALID_SLOT
     else SUCCESS)"

definition validate_pmp_unload :: "sys_args_t \<Rightarrow> err_t" where
  "validate_pmp_unload args =
    (if \<not> valid_idx (ucast (a0 args)) then ERR_INVALID_INDEX
     else SUCCESS)"

definition validate_mon_suspend :: "sys_args_t \<Rightarrow> err_t" where
  "validate_mon_suspend args =
    (if \<not> valid_idx (ucast (a0 args)) then ERR_INVALID_INDEX
     else if \<not> valid_pid (ucast (a1 args)) then ERR_INVALID_PID
     else SUCCESS)"

definition validate_mon_resume :: "sys_args_t \<Rightarrow> err_t" where
  "validate_mon_resume args =
    (if \<not> valid_idx (ucast (a0 args)) then ERR_INVALID_INDEX
     else if \<not> valid_pid (ucast (a1 args)) then ERR_INVALID_PID
     else SUCCESS)"

definition validate_mon_state_get :: "sys_args_t \<Rightarrow> err_t" where
  "validate_mon_state_get args =
    (if \<not> valid_idx (ucast (a0 args)) then ERR_INVALID_INDEX
     else if \<not> valid_pid (ucast (a1 args)) then ERR_INVALID_PID
     else SUCCESS)"

definition validate_mon_yield :: "sys_args_t \<Rightarrow> err_t" where
  "validate_mon_yield args =
    (if \<not> valid_idx (ucast (a0 args)) then ERR_INVALID_INDEX
     else if \<not> valid_pid (ucast (a1 args)) then ERR_INVALID_PID
     else SUCCESS)"

definition validate_mon_reg_read :: "sys_args_t \<Rightarrow> err_t" where
  "validate_mon_reg_read args =
    (if \<not> valid_idx (ucast (a0 args)) then ERR_INVALID_INDEX
     else if \<not> valid_pid (ucast (a1 args)) then ERR_INVALID_PID
     else if \<not> valid_reg (ucast (a2 args)) then ERR_INVALID_REGISTER
     else SUCCESS)"

definition validate_mon_reg_write :: "sys_args_t \<Rightarrow> err_t" where
  "validate_mon_reg_write args =
    (if \<not> valid_idx (ucast (a0 args)) then ERR_INVALID_INDEX
     else if \<not> valid_pid (ucast (a1 args)) then ERR_INVALID_PID
     else if \<not> valid_reg (ucast (a2 args)) then ERR_INVALID_REGISTER
     else SUCCESS)"

definition validate_mon_cap_read :: "sys_args_t \<Rightarrow> err_t" where
  "validate_mon_cap_read args =
    (if \<not> valid_idx (ucast (a0 args)) then ERR_INVALID_INDEX
     else if \<not> valid_pid (ucast (a1 args)) then ERR_INVALID_PID
     else if \<not> valid_idx (ucast (a2 args)) then ERR_INVALID_INDEX
     else SUCCESS)"

definition validate_mon_cap_move :: "sys_args_t \<Rightarrow> err_t" where
  "validate_mon_cap_move args =
    (if \<not> valid_idx (ucast (a0 args)) then ERR_INVALID_INDEX
     else if \<not> valid_pid (ucast (a1 args)) then ERR_INVALID_PID
     else if \<not> valid_idx (ucast (a2 args)) then ERR_INVALID_INDEX
     else if \<not> valid_pid (ucast (a3 args)) then ERR_INVALID_PID
     else if \<not> valid_idx (ucast (a4 args)) then ERR_INVALID_INDEX
     else SUCCESS)"

definition validate_mon_pmp_load :: "sys_args_t \<Rightarrow> err_t" where
  "validate_mon_pmp_load args =
    (if \<not> valid_idx (ucast (a0 args)) then ERR_INVALID_INDEX
     else if \<not> valid_pid (ucast (a1 args)) then ERR_INVALID_PID
     else if \<not> valid_idx (ucast (a2 args)) then ERR_INVALID_INDEX
     else if \<not> valid_slot (ucast (a3 args)) then ERR_INVALID_SLOT
     else SUCCESS)"

definition validate_mon_pmp_unload :: "sys_args_t \<Rightarrow> err_t" where
  "validate_mon_pmp_unload args =
    (if \<not> valid_idx (ucast (a0 args)) then ERR_INVALID_INDEX
     else if \<not> valid_pid (ucast (a1 args)) then ERR_INVALID_PID
     else if \<not> valid_idx (ucast (a2 args)) then ERR_INVALID_INDEX
     else SUCCESS)"

definition validate_sock_send :: "sys_args_t \<Rightarrow> err_t" where
  "validate_sock_send args =
    (if \<not> valid_idx (ucast (a0 args)) then ERR_INVALID_INDEX
     else if \<not> valid_idx (ucast (a1 args)) then ERR_INVALID_INDEX
     else SUCCESS)"

definition validate_sock_recv :: "sys_args_t \<Rightarrow> err_t" where
  "validate_sock_recv args =
    (if \<not> valid_idx (ucast (a0 args)) then ERR_INVALID_INDEX
     else if \<not> valid_idx (ucast (a1 args)) then ERR_INVALID_INDEX
     else SUCCESS)"

definition validate_sock_sendrecv :: "sys_args_t \<Rightarrow> err_t" where
  "validate_sock_sendrecv args =
    (if \<not> valid_idx (ucast (a0 args)) then ERR_INVALID_INDEX
     else if \<not> valid_idx (ucast (a1 args)) then ERR_INVALID_INDEX
     else SUCCESS)"

primrec validators :: "syscall_t \<Rightarrow> sys_args_t \<Rightarrow> err_t" where
  "validators SYS_GET_INFO = validate_get_info"
| "validators SYS_REG_READ = validate_reg_read"
| "validators SYS_REG_WRITE = validate_reg_write"
| "validators SYS_SYNC = validate_sync"
| "validators SYS_SLEEP = validate_sleep"
| "validators SYS_CAP_READ = validate_cap_read"
| "validators SYS_CAP_MOVE = validate_cap_move"
| "validators SYS_CAP_DELETE = validate_cap_delete"
| "validators SYS_CAP_REVOKE = validate_cap_revoke"
| "validators SYS_CAP_DERIVE = validate_cap_derive"
| "validators SYS_PMP_LOAD = validate_pmp_load"
| "validators SYS_PMP_UNLOAD = validate_pmp_unload"
| "validators SYS_MON_SUSPEND = validate_mon_suspend"
| "validators SYS_MON_RESUME = validate_mon_resume"
| "validators SYS_MON_STATE_GET = validate_mon_state_get"
| "validators SYS_MON_YIELD = validate_mon_yield"
| "validators SYS_MON_REG_READ = validate_mon_reg_read"
| "validators SYS_MON_REG_WRITE = validate_mon_reg_write"
| "validators SYS_MON_CAP_READ = validate_mon_cap_read"
| "validators SYS_MON_CAP_MOVE = validate_mon_cap_move"
| "validators SYS_MON_PMP_LOAD = validate_mon_pmp_load"
| "validators SYS_MON_PMP_UNLOAD = validate_mon_pmp_unload"
| "validators SYS_SOCK_SEND = validate_sock_send"
| "validators SYS_SOCK_RECV = validate_sock_recv"
| "validators SYS_SOCK_SENDRECV = validate_sock_sendrecv"

section \<open>Handlers\<close>

type_synonym handler_t = "kstate \<Rightarrow> proc_ptr \<Rightarrow> sys_args_t \<Rightarrow> (proc_ptr option \<times> kstate) option"

text \<open>The capability table entry of the caller at a 64-bit index.\<close>

definition own_cte :: "kstate \<Rightarrow> proc_ptr \<Rightarrow> u64 \<Rightarrow> cte_t option" where
  "own_cte s p idx = ctable_get (unat (pid (procs s ! p))) (unat idx)"

definition handle_get_info :: handler_t where
  "handle_get_info s p args =
    (let (v, s) =
       (if a0 args = 0 then (ucast (pid (procs s ! p)), s)
        else if a0 args = 1 then time_get s
        else if a0 args = 2 then (timeout_get s (mhartid s), s)
        else (0, s))
     in Some (Some p, set_reg (set_reg s p REG_A0 v) p REG_T0 (err_code SUCCESS)))"

definition handle_reg_read :: handler_t where
  "handle_reg_read s p args =
    (let s = set_reg s p REG_T0 (err_code SUCCESS)
     in do {
       r \<leftarrow> reg_of (unat (a0 args));
       Some (Some p, set_reg s p REG_A0 (get_reg s p r))
     })"

definition handle_reg_write :: handler_t where
  "handle_reg_write s p args =
    (let s = set_reg s p REG_T0 (err_code SUCCESS)
     in do {
       r \<leftarrow> reg_of (unat (a0 args));
       Some (Some p, set_reg s p r (a1 args))
     })"

definition handle_sync :: handler_t where
  "handle_sync s p args =
    (if a0 args \<noteq> 0 then Some (None, upd_proc s p (\<lambda>q. q\<lparr>timeout := 0\<rparr>))
     else Some (Some p, proc_pmp_sync s p))"

definition handle_sleep :: handler_t where
  "handle_sleep s p args =
    (let s = set_reg s p REG_T0 (err_code SUCCESS)
     in Some (None, if a0 args \<noteq> 0 then upd_proc s p (\<lambda>q. q\<lparr>timeout := a0 args\<rparr>) else s))"

definition handle_cap_read :: handler_t where
  "handle_cap_read s p args =
    do {
       c \<leftarrow> own_cte s p (a0 args);
       let (err, cp) = cap_read (ctable s) c;
       Some (Some p, set_reg (set_reg s p REG_A0 (raw_of_cap cp)) p REG_T0 (err_code err))
     }"

definition handle_cap_move :: handler_t where
  "handle_cap_move s p args =
    do {
       src \<leftarrow> own_cte s p (a0 args);
       dst \<leftarrow> own_cte s p (a1 args);
       (err, s) \<leftarrow> cap_move s src dst;
       Some (Some p, set_reg s p REG_T0 (err_code err))
     }"

definition handle_cap_delete :: handler_t where
  "handle_cap_delete s p args =
    do {
       c \<leftarrow> own_cte s p (a0 args);
       (err, s) \<leftarrow> cap_delete s c;
       Some (Some p, set_reg s p REG_T0 (err_code err))
     }"

definition handle_cap_revoke :: handler_t where
  "handle_cap_revoke s p args =
    do {
       c \<leftarrow> own_cte s p (a0 args);
       (err, s) \<leftarrow> cap_revoke s c;
       Some (if err = ERR_PREEMPTED then None else Some p, set_reg s p REG_T0 (err_code err))
     }"

definition handle_cap_derive :: handler_t where
  "handle_cap_derive s p args =
    do {
       src \<leftarrow> own_cte s p (a0 args);
       dst \<leftarrow> own_cte s p (a1 args);
       (err, s) \<leftarrow> cap_derive s src dst (cap_of_raw (a2 args));
       Some (Some p, set_reg s p REG_T0 (err_code err))
     }"

definition handle_pmp_load :: handler_t where
  "handle_pmp_load s p args =
    do {
       pmp \<leftarrow> own_cte s p (a0 args);
       (err, s) \<leftarrow> cap_pmp_load s pmp (ucast (a1 args));
       Some (Some p, set_reg s p REG_T0 (err_code err))
     }"

definition handle_pmp_unload :: handler_t where
  "handle_pmp_unload s p args =
    do {
       pmp \<leftarrow> own_cte s p (a0 args);
       (err, s) \<leftarrow> cap_pmp_unload s pmp;
       Some (Some p, set_reg s p REG_T0 (err_code err))
     }"

definition handle_mon_suspend :: handler_t where
  "handle_mon_suspend s p args =
    do {
       mon \<leftarrow> own_cte s p (a0 args);
       (err, s) \<leftarrow> cap_monitor_suspend s mon (ucast (a1 args));
       Some (Some p, set_reg s p REG_T0 (err_code err))
     }"

definition handle_mon_resume :: handler_t where
  "handle_mon_resume s p args =
    do {
       mon \<leftarrow> own_cte s p (a0 args);
       (err, s) \<leftarrow> cap_monitor_resume s mon (ucast (a1 args));
       Some (Some p, set_reg s p REG_T0 (err_code err))
     }"

text \<open>A result written through the pointer \<open>&p->regs[REG_A0]\<close>, if it is written.\<close>

definition set_a0 :: "kstate \<Rightarrow> proc_ptr \<Rightarrow> u64 option \<Rightarrow> kstate" where
  "set_a0 s p v = (case v of None \<Rightarrow> s | Some w \<Rightarrow> set_reg s p REG_A0 w)"

definition handle_mon_state_get :: handler_t where
  "handle_mon_state_get s p args =
    do {
       mon \<leftarrow> own_cte s p (a0 args);
       (err, v) \<leftarrow> cap_monitor_state_get s mon (ucast (a1 args));
       Some (Some p, set_reg (set_a0 s p v) p REG_T0 (err_code err))
     }"

definition handle_mon_yield :: handler_t where
  "handle_mon_yield s p args =
    do {
       mon \<leftarrow> own_cte s p (a0 args);
       (err, next, s) \<leftarrow> cap_monitor_yield s mon (ucast (a1 args)) (Some p);
       Some (next, set_reg s p REG_T0 (err_code err))
     }"

definition handle_mon_reg_read :: handler_t where
  "handle_mon_reg_read s p args =
    do {
       mon \<leftarrow> own_cte s p (a0 args);
       (err, v) \<leftarrow> cap_monitor_reg_read s mon (ucast (a1 args)) (ucast (a2 args));
       Some (Some p, set_reg (set_a0 s p v) p REG_T0 (err_code err))
     }"

definition handle_mon_reg_write :: handler_t where
  "handle_mon_reg_write s p args =
    do {
       mon \<leftarrow> own_cte s p (a0 args);
       (err, s) \<leftarrow> cap_monitor_reg_write s mon (ucast (a1 args)) (ucast (a2 args)) (a3 args);
       Some (Some p, set_reg s p REG_T0 (err_code err))
     }"

definition handle_mon_cap_read :: handler_t where
  "handle_mon_cap_read s p args =
    do {
       mon \<leftarrow> own_cte s p (a0 args);
       src \<leftarrow> ctable_get (unat (a1 args)) (unat (a2 args));
       (err, cp) \<leftarrow> cap_monitor_cap_read s mon src;
       Some (Some p, set_reg (set_a0 s p (map_option raw_of_cap cp)) p REG_T0 (err_code err))
     }"

definition handle_mon_cap_move :: handler_t where
  "handle_mon_cap_move s p args =
    do {
       mon \<leftarrow> own_cte s p (a0 args);
       src \<leftarrow> ctable_get (unat (a1 args)) (unat (a2 args));
       dst \<leftarrow> ctable_get (unat (a3 args)) (unat (a4 args));
       (err, s) \<leftarrow> cap_monitor_cap_move s mon src dst;
       Some (Some p, set_reg s p REG_T0 (err_code err))
     }"

definition handle_mon_pmp_load :: handler_t where
  "handle_mon_pmp_load s p args =
    do {
       mon \<leftarrow> own_cte s p (a0 args);
       pmp \<leftarrow> ctable_get (unat (a1 args)) (unat (a2 args));
       (err, s) \<leftarrow> cap_monitor_pmp_load s mon pmp (ucast (a3 args));
       Some (Some p, set_reg s p REG_T0 (err_code err))
     }"

definition handle_mon_pmp_unload :: handler_t where
  "handle_mon_pmp_unload s p args =
    do {
       mon \<leftarrow> own_cte s p (a0 args);
       pmp \<leftarrow> ctable_get (unat (a1 args)) (unat (a2 args));
       (err, s) \<leftarrow> cap_monitor_pmp_unload s mon pmp;
       Some (Some p, set_reg s p REG_T0 (err_code err))
     }"

definition handle_sock_send :: handler_t where
  "handle_sock_send s p args =
    do {
       sock \<leftarrow> own_cte s p (a0 args);
       buf \<leftarrow> own_cte s p (a1 args);
       let msg = \<lparr>msg_cap_buf = buf, msg_send_cap = a2 args \<noteq> 0,
         msg_data = [a3 args, a4 args, a5 args, a6 args]\<rparr>;
       (err, next, s) \<leftarrow> cap_sock_send s sock msg p;
       Some (next, set_reg s p REG_T0 (err_code err))
     }"

definition handle_sock_sendrecv :: handler_t where
  "handle_sock_sendrecv s p args =
    do {
       sock \<leftarrow> own_cte s p (a0 args);
       buf \<leftarrow> own_cte s p (a1 args);
       let msg = \<lparr>msg_cap_buf = buf, msg_send_cap = a2 args \<noteq> 0,
         msg_data = [a3 args, a4 args, a5 args, a6 args]\<rparr>;
       (err, next, s) \<leftarrow> cap_sock_sendrecv s sock msg p;
       Some (next, set_reg s p REG_T0 (err_code err))
     }"

definition handle_sock_recv :: handler_t where
  "handle_sock_recv s p args =
    do {
       sock \<leftarrow> own_cte s p (a0 args);
       buf \<leftarrow> own_cte s p (a1 args);
       (err, next, s) \<leftarrow> cap_sock_recv s sock buf p;
       Some (next, set_reg s p REG_T0 (err_code err))
     }"

primrec handlers :: "syscall_t \<Rightarrow> handler_t" where
  "handlers SYS_GET_INFO = handle_get_info"
| "handlers SYS_REG_READ = handle_reg_read"
| "handlers SYS_REG_WRITE = handle_reg_write"
| "handlers SYS_SYNC = handle_sync"
| "handlers SYS_SLEEP = handle_sleep"
| "handlers SYS_CAP_READ = handle_cap_read"
| "handlers SYS_CAP_MOVE = handle_cap_move"
| "handlers SYS_CAP_DELETE = handle_cap_delete"
| "handlers SYS_CAP_REVOKE = handle_cap_revoke"
| "handlers SYS_CAP_DERIVE = handle_cap_derive"
| "handlers SYS_PMP_LOAD = handle_pmp_load"
| "handlers SYS_PMP_UNLOAD = handle_pmp_unload"
| "handlers SYS_MON_SUSPEND = handle_mon_suspend"
| "handlers SYS_MON_RESUME = handle_mon_resume"
| "handlers SYS_MON_STATE_GET = handle_mon_state_get"
| "handlers SYS_MON_YIELD = handle_mon_yield"
| "handlers SYS_MON_REG_READ = handle_mon_reg_read"
| "handlers SYS_MON_REG_WRITE = handle_mon_reg_write"
| "handlers SYS_MON_CAP_READ = handle_mon_cap_read"
| "handlers SYS_MON_CAP_MOVE = handle_mon_cap_move"
| "handlers SYS_MON_PMP_LOAD = handle_mon_pmp_load"
| "handlers SYS_MON_PMP_UNLOAD = handle_mon_pmp_unload"
| "handlers SYS_SOCK_SEND = handle_sock_send"
| "handlers SYS_SOCK_RECV = handle_sock_recv"
| "handlers SYS_SOCK_SENDRECV = handle_sock_sendrecv"

section \<open>The capability lock\<close>

text \<open>
  \<open>kernel/src/cap_lock.c\<close> on top of \<open>kernel/src/smp/taslock.c\<close>, as one hart sees it. The two
  nested loops of \<open>taslock_acquire\<close> both go back to reading the lock word.
\<close>

definition cap_lock_init :: "kstate \<Rightarrow> kstate" where
  "cap_lock_init s = s\<lparr>cap_lock := 0\<rparr>"

definition taslock_try_acquire :: "kstate \<Rightarrow> bool \<times> kstate" where
  "taslock_try_acquire s = (cap_lock s = 0, s\<lparr>cap_lock := cap_lock s OR 1\<rparr>)"

partial_function (option) cap_lock_acquire :: "kstate \<Rightarrow> (bool \<times> kstate) option" where
  "cap_lock_acquire s =
    (if cap_lock s \<noteq> 0 then
       (let (preempt, s) = kernel_preempt s
        in if preempt then Some (False, s) else cap_lock_acquire s)
     else
       (let (got, s) = taslock_try_acquire s
        in if got then Some (True, s) else cap_lock_acquire s))"

definition cap_lock_release :: "kstate \<Rightarrow> kstate" where
  "cap_lock_release s = s\<lparr>cap_lock := 0\<rparr>"

section \<open>Dispatch\<close>

definition inc_pc :: "kstate \<Rightarrow> proc_ptr \<Rightarrow> kstate" where
  "inc_pc s p = set_reg s p REG_PC (get_reg s p REG_PC + 4)"

definition syscall_handler :: "kstate \<Rightarrow> proc_ptr \<Rightarrow> (proc_ptr option \<times> kstate) option" where
  "syscall_handler s p =
    (let args = sys_args s p;
         call = syscall_of (get_reg s p REG_T0);
         err = (case call of None \<Rightarrow> ERR_INVALID_SYSCALL | Some c \<Rightarrow> validators c args)
     in if err \<noteq> SUCCESS then Some (Some p, set_reg (inc_pc s p) p REG_T0 (err_code err))
        else do {
          let (preempt, s) = kernel_preempt s;
          c \<leftarrow> call;
          if preempt then Some (None, s)
          else if \<not> SMP \<or> c < SYS_CAP_MOVE then handlers c (inc_pc s p) p args
          else do {
            (locked, s) \<leftarrow> cap_lock_acquire s;
            if locked then do {
              (next, s) \<leftarrow> handlers c (inc_pc s p) p args;
              Some (next, cap_lock_release s)
            } else Some (None, set_reg (inc_pc s p) p REG_T0 (err_code ERR_PREEMPTED))
          }
        })"

section \<open>The system calls keep the invariant\<close>

text \<open>
  The arguments that a handler uses as an index without dropping their upper bits fit in the
  type that the validator checks them at.
\<close>

primrec args_fit :: "syscall_t \<Rightarrow> sys_args_t \<Rightarrow> bool" where
  "args_fit SYS_GET_INFO a \<longleftrightarrow> True"
| "args_fit SYS_REG_READ a \<longleftrightarrow> unat (a0 a) < 2 ^ 32"
| "args_fit SYS_REG_WRITE a \<longleftrightarrow> unat (a0 a) < 2 ^ 32"
| "args_fit SYS_SYNC a \<longleftrightarrow> True"
| "args_fit SYS_SLEEP a \<longleftrightarrow> True"
| "args_fit SYS_CAP_READ a \<longleftrightarrow> unat (a0 a) < 2 ^ 16"
| "args_fit SYS_CAP_MOVE a \<longleftrightarrow> unat (a0 a) < 2 ^ 16 \<and> unat (a1 a) < 2 ^ 16"
| "args_fit SYS_CAP_DELETE a \<longleftrightarrow> unat (a0 a) < 2 ^ 16"
| "args_fit SYS_CAP_REVOKE a \<longleftrightarrow> unat (a0 a) < 2 ^ 16"
| "args_fit SYS_CAP_DERIVE a \<longleftrightarrow> unat (a0 a) < 2 ^ 16 \<and> unat (a1 a) < 2 ^ 16"
| "args_fit SYS_PMP_LOAD a \<longleftrightarrow> unat (a0 a) < 2 ^ 16"
| "args_fit SYS_PMP_UNLOAD a \<longleftrightarrow> unat (a0 a) < 2 ^ 16"
| "args_fit SYS_MON_SUSPEND a \<longleftrightarrow> unat (a0 a) < 2 ^ 16"
| "args_fit SYS_MON_RESUME a \<longleftrightarrow> unat (a0 a) < 2 ^ 16"
| "args_fit SYS_MON_STATE_GET a \<longleftrightarrow> unat (a0 a) < 2 ^ 16"
| "args_fit SYS_MON_YIELD a \<longleftrightarrow> unat (a0 a) < 2 ^ 16"
| "args_fit SYS_MON_REG_READ a \<longleftrightarrow> unat (a0 a) < 2 ^ 16"
| "args_fit SYS_MON_REG_WRITE a \<longleftrightarrow> unat (a0 a) < 2 ^ 16"
| "args_fit SYS_MON_CAP_READ a \<longleftrightarrow> unat (a0 a) < 2 ^ 16 \<and> unat (a1 a) < 2 ^ 16 \<and> unat (a2 a) < 2 ^ 16"
| "args_fit SYS_MON_CAP_MOVE a \<longleftrightarrow> unat (a0 a) < 2 ^ 16 \<and> unat (a1 a) < 2 ^ 16 \<and> unat (a2 a) < 2 ^ 16
     \<and> unat (a3 a) < 2 ^ 16 \<and> unat (a4 a) < 2 ^ 16"
| "args_fit SYS_MON_PMP_LOAD a \<longleftrightarrow> unat (a0 a) < 2 ^ 16 \<and> unat (a1 a) < 2 ^ 16 \<and> unat (a2 a) < 2 ^ 16"
| "args_fit SYS_MON_PMP_UNLOAD a \<longleftrightarrow> unat (a0 a) < 2 ^ 16 \<and> unat (a1 a) < 2 ^ 16 \<and> unat (a2 a) < 2 ^ 16"
| "args_fit SYS_SOCK_SEND a \<longleftrightarrow> unat (a0 a) < 2 ^ 16 \<and> unat (a1 a) < 2 ^ 16"
| "args_fit SYS_SOCK_RECV a \<longleftrightarrow> unat (a0 a) < 2 ^ 16 \<and> unat (a1 a) < 2 ^ 16"
| "args_fit SYS_SOCK_SENDRECV a \<longleftrightarrow> unat (a0 a) < 2 ^ 16 \<and> unat (a1 a) < 2 ^ 16"

lemma unat_ucast_fit:
  fixes a :: "'a::len word"
  assumes "unat a < 2 ^ LENGTH('b::len)"
  shows "unat (ucast a :: 'b word) = unat a"
  using assms by (simp add: unsigned_ucast_eq take_bit_nat_eq_self)

lemma ctable_get_valid:
  assumes "kinv s" "valid_idx (ucast i)" "unat i < 2 ^ 16" "p < S3K_PROC_CNT"
  shows "\<exists>c. ctable_get p (unat i) = Some c \<and> c < length (ctable s)"
proof -
  have "unat i < S3K_CAP_CNT"
    using assms(2,3) unat_ucast_fit [of i, where 'b = 16] by (simp add: valid_idx_def)
  then have "ctable_get p (unat i) = Some (p * S3K_CAP_CNT + unat i)"
    using assms(4) by (simp add: ctable_get_def KASSERT_def)
  with cte_pid_ctable_get [OF this] kinv_lengths(1) [OF assms(1)] show ?thesis by simp
qed

lemma own_cte_valid:
  assumes "kinv s" "p < S3K_PROC_CNT" "valid_idx (ucast i)" "unat i < 2 ^ 16"
  shows "\<exists>c. own_cte s p i = Some c \<and> c < length (ctable s)"
  using ctable_get_valid [OF assms(1,3,4,2)] kinv_proc_ok [OF assms(1,2)]
  by (simp add: own_cte_def proc_ok_def)

lemma mon_cte_valid:
  assumes "kinv s" "valid_pid (ucast q)" "unat q < 2 ^ 16" "valid_idx (ucast i)" "unat i < 2 ^ 16"
  shows "\<exists>c. ctable_get (unat q) (unat i) = Some c \<and> c < length (ctable s)"
  using ctable_get_valid [OF assms(1,4,5), of "unat q"] assms(2,3) unat_ucast_fit [of q, where 'b = 16]
  by (simp add: valid_pid_def)

text \<open>The contract of a handler for the calling process \<open>p\<close>.\<close>

definition handler_post :: "kstate \<Rightarrow> proc_ptr \<Rightarrow> proc_ptr option \<times> kstate \<Rightarrow> bool" where
  "handler_post s p = (\<lambda>(n, s'). kinv s' \<and> env_same s s' \<and> busy s' p
     \<and> (\<forall>q < S3K_PROC_CNT. q \<noteq> p \<longrightarrow> running s q \<longrightarrow> running s' q \<and> n \<noteq> Some q)
     \<and> (\<forall>q. n = Some q \<longrightarrow> q < S3K_PROC_CNT \<and> running s' q))"

lemma handler_post_step:
  assumes "kinv t" "env_same s t" "runs_on s t" "p < S3K_PROC_CNT" "running s p"
    and "n = Some p \<or> n = None \<or> (\<exists>q < S3K_PROC_CNT. n = Some q \<and> running t q \<and> \<not> running s q)"
  shows "handler_post s p (n, set_reg t p r v)"
  using assms running_busy [of t p] by (auto simp: handler_post_def runs_on_def busy_def)

lemma handler_steps:
  assumes "steps s m" "p < S3K_PROC_CNT" "running s p"
  shows "ok (handler_post s p) (do { (err, s') \<leftarrow> m; Some (Some p, set_reg s' p REG_T0 (err_code err)) })"
  using assms by (auto simp: ok_iff intro!: handler_post_step)

lemma handler_ipc:
  assumes "ok (ipc_post s p) m"
  shows "ok (handler_post s p) (do { (err, n, s') \<leftarrow> m; Some (n, set_reg s' p REG_T0 (err_code err)) })"
  using assms by (auto simp: ok_iff ipc_post_def handler_post_def busy_def)

text \<open>The handlers, group by group.\<close>

lemma reg_of_valid:
  assumes "valid_reg (ucast i)" "unat i < 2 ^ 32"
  shows "\<exists>r. reg_of (unat i) = Some r"
  using assms unat_ucast_fit [of i, where 'b = 32] by (simp add: valid_reg_def reg_of_def)

lemma handle_basic_ok:
  assumes inv: "kinv s" and p: "p < S3K_PROC_CNT" "running s p"
  shows "ok (handler_post s p) (handle_get_info s p args)"
    "\<lbrakk>valid_reg (ucast (a0 args)); unat (a0 args) < 2 ^ 32\<rbrakk> \<Longrightarrow> ok (handler_post s p) (handle_reg_read s p args)"
    "\<lbrakk>valid_reg (ucast (a0 args)); unat (a0 args) < 2 ^ 32\<rbrakk> \<Longrightarrow> ok (handler_post s p) (handle_reg_write s p args)"
    "ok (handler_post s p) (handle_sync s p args)" "ok (handler_post s p) (handle_sleep s p args)"
proof -
  have b: "busy (set_reg t q r v) p = busy t p" "busy (upd_proc t q (\<lambda>x. x\<lparr>timeout := u\<rparr>)) p = busy t p"
    "busy (proc_pmp_sync t q) p = busy t p" "busy (t\<lparr>reads := m\<rparr>) p = busy t p" "running (proc_pmp_sync t q) q' = running t q'" for t q r v u q' m
    by (simp_all add: busy_def proc_pmp_sync_def running_def)
  have e: "env_same s (proc_pmp_sync s p)" "kinv (proc_pmp_sync s p) = kinv s"
    by (simp_all add: proc_pmp_sync_def env_same_def)
  note post = handler_post_def b e running_busy [OF p(2)]
  show "ok (handler_post s p) (handle_get_info s p args)"
    "ok (handler_post s p) (handle_sync s p args)" "ok (handler_post s p) (handle_sleep s p args)"
    using inv p by (auto simp: handle_get_info_def handle_sync_def handle_sleep_def Let_def post
        dest: running_busy)
  assume "valid_reg (ucast (a0 args))" "unat (a0 args) < 2 ^ 32"
  from reg_of_valid [OF this] obtain r where "reg_of (unat (a0 args)) = Some r" ..
  then show "ok (handler_post s p) (handle_reg_read s p args)" "ok (handler_post s p) (handle_reg_write s p args)"
    using inv p by (auto simp: handle_reg_read_def handle_reg_write_def Let_def post)
qed

lemma handle_cap_ok:
  assumes inv: "kinv s" and p: "p < S3K_PROC_CNT" "running s p"
    and a: "own_cte s p (a0 args) = Some c" "c < length (ctable s)"
  shows "ok (handler_post s p) (handle_cap_read s p args)"
    "ok (handler_post s p) (handle_cap_delete s p args)"
    "unat (ucast (a1 args) :: u8) < S3K_PMP_CNT \<Longrightarrow> ok (handler_post s p) (handle_pmp_load s p args)"
    "ok (handler_post s p) (handle_pmp_unload s p args)"
proof -
  note st = keeps_steps [OF inv]
  show "ok (handler_post s p) (handle_cap_read s p args)"
    using inv p a by (auto simp: handle_cap_read_def cap_read_def Let_def intro!: handler_post_step)
  show "ok (handler_post s p) (handle_cap_delete s p args)"
    using handler_steps [OF st [OF cap_delete_ok [OF inv a(2)]] p] a(1) by (simp add: handle_cap_delete_def)
  show "ok (handler_post s p) (handle_pmp_load s p args)" if "unat (ucast (a1 args) :: u8) < S3K_PMP_CNT"
    using handler_steps [OF st [OF cap_pmp_load_ok [OF inv a(2) that]] p] a(1) by (simp add: handle_pmp_load_def)
  show "ok (handler_post s p) (handle_pmp_unload s p args)"
    using handler_steps [OF st [OF cap_pmp_unload_ok [OF inv a(2)]] p] a(1) by (simp add: handle_pmp_unload_def)
qed

text \<open>The timer interrupt keeps coming back.\<close>

definition timer_fires :: "kstate \<Rightarrow> bool" where
  "timer_fires s \<longleftrightarrow> (\<forall>m. \<exists>n \<ge> m. mip s n AND 0x80 \<noteq> 0)"

lemma handle_cap_revoke_ok:
  assumes inv: "kinv s" and p: "p < S3K_PROC_CNT" "running s p" and timer: "timer_fires s"
    and a: "own_cte s p (a0 args) = Some c" "c < length (ctable s)"
  shows "ok (handler_post s p) (handle_cap_revoke s p args)"
proof -
  from timer obtain n where n: "reads s \<le> n" "mip s n AND 0x80 \<noteq> 0" by (auto simp: timer_fires_def)
  from okD [OF cap_revoke_timer [OF inv a(2) n]] obtain e s'
    where s': "cap_revoke s c = Some (e, s')" "kinv s'" "frame (s\<lparr>reads := reads s'\<rparr>) s'" by auto
  have "env_same s s'" "runs_on s s'"
    using frame_env [OF s'(3)] frame_runs [OF _ s'(3)] inv by (simp_all add: runs_on_def)
  with s' a p show ?thesis
    by (auto simp: handle_cap_revoke_def intro!: handler_post_step)
qed

lemma handle_cap_pair_ok:
  assumes inv: "kinv s" and p: "p < S3K_PROC_CNT" "running s p"
    and a: "own_cte s p (a0 args) = Some c" "c < length (ctable s)"
    and b: "own_cte s p (a1 args) = Some d" "d < length (ctable s)"
  shows "ok (handler_post s p) (handle_cap_move s p args)"
    "cap_is_valid (cap_of_raw (a2 args)) \<Longrightarrow> ok (handler_post s p) (handle_cap_derive s p args)"
    "ok (handler_post s p) (handle_sock_send s p args)"
    "ok (handler_post s p) (handle_sock_recv s p args)"
    "ok (handler_post s p) (handle_sock_sendrecv s p args)"
proof -
  note st = keeps_steps [OF inv]
  show "ok (handler_post s p) (handle_cap_move s p args)"
    using handler_steps [OF st [OF cap_move_ok [OF inv a(2) b(2)]] p] a(1) b(1)
    by (simp add: handle_cap_move_def)
  show "ok (handler_post s p) (handle_cap_derive s p args)" if "cap_is_valid (cap_of_raw (a2 args))"
    using handler_steps [OF st [OF cap_derive_ok [OF inv a(2) b(2) that]] p] a(1) b(1)
    by (simp add: handle_cap_derive_def)
  show "ok (handler_post s p) (handle_sock_send s p args)"
    using handler_ipc [OF cap_sock_send_ok [OF inv a(2) _ p]] a(1) b by (simp add: handle_sock_send_def)
  show "ok (handler_post s p) (handle_sock_recv s p args)"
    using handler_ipc [OF cap_sock_recv_ok [OF inv a(2) b(2) p]] a(1) b(1) by (simp add: handle_sock_recv_def)
  show "ok (handler_post s p) (handle_sock_sendrecv s p args)"
    using handler_ipc [OF cap_sock_sendrecv_ok [OF inv a(2) _ p]] a(1) b by (simp add: handle_sock_sendrecv_def)
qed

lemma handle_mon_ok:
  assumes inv: "kinv s" and p: "p < S3K_PROC_CNT" "running s p"
    and a: "own_cte s p (a0 args) = Some c" "c < length (ctable s)"
  shows "ok (handler_post s p) (handle_mon_suspend s p args)"
    "ok (handler_post s p) (handle_mon_resume s p args)"
    "ok (handler_post s p) (handle_mon_state_get s p args)"
    "ok (handler_post s p) (handle_mon_yield s p args)"
    "valid_reg (ucast (a2 args)) \<Longrightarrow> ok (handler_post s p) (handle_mon_reg_read s p args)"
    "valid_reg (ucast (a2 args)) \<Longrightarrow> ok (handler_post s p) (handle_mon_reg_write s p args)"
proof -
  have set_a0: "handler_post s p (Some p, set_reg (set_a0 s p v) p REG_T0 e)" for v e
    using inv p by (intro handler_post_step) (auto simp: set_a0_def split: option.split)
  show "ok (handler_post s p) (handle_mon_suspend s p args)"
    "ok (handler_post s p) (handle_mon_resume s p args)"
    using handler_steps [OF monitor_state_ok(1) [OF inv a(2)] p] handler_steps [OF monitor_state_ok(2) [OF inv a(2)] p] a(1)
    by (simp_all add: handle_mon_suspend_def handle_mon_resume_def)
  show "ok (handler_post s p) (handle_mon_state_get s p args)"
    using monitor_state_ok(3) [OF inv a(2), of "ucast (a1 args)"] a(1) set_a0
    by (auto simp: handle_mon_state_get_def ok_iff)
  from cap_monitor_yield_ok [OF inv a(2), of "Some p" "ucast (a1 args)"]
  show "ok (handler_post s p) (handle_mon_yield s p args)"
    using a(1) p by (auto simp: handle_mon_yield_def ok_iff intro!: handler_post_step)
  assume "valid_reg (ucast (a2 args))"
  then have r: "unat (ucast (a2 args) :: u32) < REG_CNT" by (simp add: valid_reg_def)
  show "ok (handler_post s p) (handle_mon_reg_read s p args)"
    using monitor_reg_ok(1) [OF inv a(2) r, of "ucast (a1 args)"] a(1) set_a0
    by (auto simp: handle_mon_reg_read_def ok_iff)
  show "ok (handler_post s p) (handle_mon_reg_write s p args)"
    using handler_steps [OF monitor_reg_ok(2) [OF inv a(2) r] p] a(1) by (simp add: handle_mon_reg_write_def)
qed

lemma handle_mon_cap_ok:
  assumes inv: "kinv s" and p: "p < S3K_PROC_CNT" "running s p"
    and a: "own_cte s p (a0 args) = Some c" "c < length (ctable s)"
    and b: "ctable_get (unat (a1 args)) (unat (a2 args)) = Some d" "d < length (ctable s)"
  shows "ok (handler_post s p) (handle_mon_cap_read s p args)"
    "valid_slot (ucast (a3 args)) \<Longrightarrow> ok (handler_post s p) (handle_mon_pmp_load s p args)"
    "ok (handler_post s p) (handle_mon_pmp_unload s p args)"
    "\<lbrakk>ctable_get (unat (a3 args)) (unat (a4 args)) = Some e; e < length (ctable s)\<rbrakk>
      \<Longrightarrow> ok (handler_post s p) (handle_mon_cap_move s p args)"
proof -
  note st = keeps_steps [OF inv]
  have set_a0: "handler_post s p (Some p, set_reg (set_a0 s p v) p REG_T0 e)" for v e
    using inv p by (intro handler_post_step) (auto simp: set_a0_def split: option.split)
  show "ok (handler_post s p) (handle_mon_cap_read s p args)"
    using monitor_cap_ok(1) [OF inv a(2) b(2) b(2)] a(1) b(1) set_a0
    by (auto simp: handle_mon_cap_read_def ok_iff)
  show "ok (handler_post s p) (handle_mon_pmp_load s p args)" if "valid_slot (ucast (a3 args))"
    using handler_steps [OF st [OF monitor_cap_ok(4) [OF inv a(2) b(2) b(2)]] p] that a(1) b(1)
    by (simp add: handle_mon_pmp_load_def valid_slot_def)
  show "ok (handler_post s p) (handle_mon_pmp_unload s p args)"
    using handler_steps [OF st [OF monitor_cap_ok(3) [OF inv a(2) b(2) b(2)]] p] a(1) b(1)
    by (simp add: handle_mon_pmp_unload_def)
  show "ok (handler_post s p) (handle_mon_cap_move s p args)"
    if "ctable_get (unat (a3 args)) (unat (a4 args)) = Some e" "e < length (ctable s)"
    using handler_steps [OF st [OF monitor_cap_ok(2) [OF inv a(2) b(2) that(2)]] p] that(1) a(1) b(1)
    by (simp add: handle_mon_cap_move_def)
qed

text \<open>
  Every handler meets its contract on arguments that its validator accepts and that fit.
\<close>

lemma handlers_ok:
  assumes inv: "kinv s" and p: "p < S3K_PROC_CNT" "running s p"
    and v: "validators c args = SUCCESS" and fit: "args_fit c args" and timer: "timer_fires s"
  shows "ok (handler_post s p) (handlers c s p args)"
proof -
  note own = own_cte_valid [OF inv p(1)] and mon = mon_cte_valid [OF inv]
  have own1: "ok (handler_post s p) (handlers c s p args)"
    if "valid_idx (ucast (a0 args))" "unat (a0 args) < 2 ^ 16"
      "\<And>d. own_cte s p (a0 args) = Some d \<Longrightarrow> d < length (ctable s) \<Longrightarrow> ok (handler_post s p) (handlers c s p args)"
    using own [OF that(1,2)] that(3) by blast
  have own2: "ok (handler_post s p) (handlers c s p args)"
    if "valid_idx (ucast (a0 args))" "unat (a0 args) < 2 ^ 16" "valid_idx (ucast (a1 args))" "unat (a1 args) < 2 ^ 16"
      "\<And>d e. \<lbrakk>own_cte s p (a0 args) = Some d; d < length (ctable s); own_cte s p (a1 args) = Some e;
        e < length (ctable s)\<rbrakk> \<Longrightarrow> ok (handler_post s p) (handlers c s p args)"
    using own [OF that(1,2)] own [OF that(3,4)] that(5) by blast
  have mon1: "ok (handler_post s p) (handlers c s p args)"
    if "valid_idx (ucast (a0 args))" "unat (a0 args) < 2 ^ 16" "valid_pid (ucast (a1 args))" "unat (a1 args) < 2 ^ 16"
      "valid_idx (ucast (a2 args))" "unat (a2 args) < 2 ^ 16"
      "\<And>d e. \<lbrakk>own_cte s p (a0 args) = Some d; d < length (ctable s); ctable_get (unat (a1 args)) (unat (a2 args)) = Some e;
        e < length (ctable s)\<rbrakk> \<Longrightarrow> ok (handler_post s p) (handlers c s p args)"
    using own [OF that(1,2)] mon [OF that(3-6)] that(7) by blast
  note basic = handle_basic_ok [OF inv p] and cap = handle_cap_ok [OF inv p] and pair = handle_cap_pair_ok [OF inv p]
    and mons = handle_mon_ok [OF inv p] and moncap = handle_mon_cap_ok [OF inv p]
    and revoke = handle_cap_revoke_ok [OF inv p timer]
  show ?thesis
  proof (cases c)
    case SYS_GET_INFO
    with v fit show ?thesis by (simp add: validate_get_info_def basic split: if_splits)
  next
    case SYS_REG_READ
    with v fit show ?thesis by (simp add: validate_reg_read_def basic split: if_splits)
  next
    case SYS_REG_WRITE
    with v fit show ?thesis by (simp add: validate_reg_write_def basic split: if_splits)
  next
    case SYS_SYNC
    with v fit show ?thesis by (simp add: validate_sync_def basic split: if_splits)
  next
    case SYS_SLEEP
    with v fit show ?thesis by (simp add: validate_sleep_def basic split: if_splits)
  next
    case SYS_CAP_READ
    show ?thesis
      by (rule own1) (use v fit SYS_CAP_READ in \<open>auto simp: validate_cap_read_def split: if_splits intro: cap\<close>)
  next
    case SYS_CAP_DELETE
    show ?thesis
      by (rule own1) (use v fit SYS_CAP_DELETE in \<open>auto simp: validate_cap_delete_def split: if_splits intro: cap\<close>)
  next
    case SYS_PMP_LOAD
    show ?thesis
      by (rule own1) (use v fit SYS_PMP_LOAD in \<open>auto simp: validate_pmp_load_def valid_slot_def split: if_splits intro: cap\<close>)
  next
    case SYS_PMP_UNLOAD
    show ?thesis
      by (rule own1) (use v fit SYS_PMP_UNLOAD in \<open>auto simp: validate_pmp_unload_def split: if_splits intro: cap\<close>)
  next
    case SYS_CAP_REVOKE
    show ?thesis
      by (rule own1) (use v fit SYS_CAP_REVOKE in \<open>auto simp: validate_cap_revoke_def split: if_splits intro: revoke\<close>)
  next
    case SYS_CAP_MOVE
    show ?thesis
      by (rule own2) (use v fit SYS_CAP_MOVE in \<open>auto simp: validate_cap_move_def split: if_splits intro: pair\<close>)
  next
    case SYS_CAP_DERIVE
    show ?thesis
      by (rule own2) (use v fit SYS_CAP_DERIVE in \<open>auto simp: validate_cap_derive_def split: if_splits intro: pair\<close>)
  next
    case SYS_SOCK_SEND
    show ?thesis
      by (rule own2) (use v fit SYS_SOCK_SEND in \<open>auto simp: validate_sock_send_def split: if_splits intro: pair\<close>)
  next
    case SYS_SOCK_RECV
    show ?thesis
      by (rule own2) (use v fit SYS_SOCK_RECV in \<open>auto simp: validate_sock_recv_def split: if_splits intro: pair\<close>)
  next
    case SYS_SOCK_SENDRECV
    show ?thesis
      by (rule own2) (use v fit SYS_SOCK_SENDRECV in \<open>auto simp: validate_sock_sendrecv_def split: if_splits intro: pair\<close>)
  next
    case SYS_MON_SUSPEND
    show ?thesis
      by (rule own1) (use v fit SYS_MON_SUSPEND in \<open>auto simp: validate_mon_suspend_def split: if_splits intro: mons\<close>)
  next
    case SYS_MON_RESUME
    show ?thesis
      by (rule own1) (use v fit SYS_MON_RESUME in \<open>auto simp: validate_mon_resume_def split: if_splits intro: mons\<close>)
  next
    case SYS_MON_STATE_GET
    show ?thesis
      by (rule own1) (use v fit SYS_MON_STATE_GET in \<open>auto simp: validate_mon_state_get_def split: if_splits intro: mons\<close>)
  next
    case SYS_MON_YIELD
    show ?thesis
      by (rule own1) (use v fit SYS_MON_YIELD in \<open>auto simp: validate_mon_yield_def split: if_splits intro: mons\<close>)
  next
    case SYS_MON_REG_READ
    show ?thesis
      by (rule own1) (use v fit SYS_MON_REG_READ in \<open>auto simp: validate_mon_reg_read_def split: if_splits intro: mons\<close>)
  next
    case SYS_MON_REG_WRITE
    show ?thesis
      by (rule own1) (use v fit SYS_MON_REG_WRITE in \<open>auto simp: validate_mon_reg_write_def split: if_splits intro: mons\<close>)
  next
    case SYS_MON_CAP_READ
    show ?thesis
      by (rule mon1) (use v fit SYS_MON_CAP_READ in \<open>auto simp: validate_mon_cap_read_def split: if_splits intro: moncap\<close>)
  next
    case SYS_MON_PMP_LOAD
    show ?thesis
      by (rule mon1) (use v fit SYS_MON_PMP_LOAD in \<open>auto simp: validate_mon_pmp_load_def split: if_splits intro: moncap\<close>)
  next
    case SYS_MON_PMP_UNLOAD
    show ?thesis
      by (rule mon1) (use v fit SYS_MON_PMP_UNLOAD in \<open>auto simp: validate_mon_pmp_unload_def split: if_splits intro: moncap\<close>)
  next
    case SYS_MON_CAP_MOVE
    show ?thesis
      by (rule mon1) (use v fit mon [of "a3 args" "a4 args"] SYS_MON_CAP_MOVE in \<open>auto simp: validate_mon_cap_move_def split: if_splits intro: moncap\<close>)
  qed
qed

text \<open>
  The converse: an argument that does not fit makes the handler leave the capability table or
  the register file, although its validator has accepted the truncated value.
\<close>

lemma ctable_get_unfit: "2 ^ 16 \<le> i \<or> 2 ^ 16 \<le> p \<Longrightarrow> ctable_get p i = None"
  using config_bounds(2,4) by (auto simp: ctable_get_def KASSERT_def)

lemma own_cte_unfit: "2 ^ 16 \<le> unat i \<Longrightarrow> own_cte s p i = None"
  by (simp add: own_cte_def ctable_get_unfit)

lemma reg_of_unfit: "2 ^ 32 \<le> i \<Longrightarrow> reg_of i = None"
  by (simp add: reg_of_def REG_CNT_def all_regs_def)

lemma bind_None2: "m = None \<or> (\<forall>x. f x = None) \<Longrightarrow> Option.bind m f = None"
  by (cases m) auto

lemmas handler_defs =
  handle_reg_read_def handle_reg_write_def handle_cap_read_def handle_cap_move_def
  handle_cap_delete_def handle_cap_revoke_def handle_cap_derive_def handle_pmp_load_def
  handle_pmp_unload_def handle_mon_suspend_def handle_mon_resume_def handle_mon_state_get_def
  handle_mon_yield_def handle_mon_reg_read_def handle_mon_reg_write_def handle_mon_cap_read_def
  handle_mon_cap_move_def handle_mon_pmp_load_def handle_mon_pmp_unload_def
  handle_sock_send_def handle_sock_recv_def handle_sock_sendrecv_def

lemma handlers_unfit: "\<not> args_fit c args \<Longrightarrow> handlers c s p args = None"
  by (cases c) (auto simp: handler_defs not_less own_cte_unfit ctable_get_unfit reg_of_unfit
      Let_def intro!: bind_None2)

lemma cap_lock_acquire_free:
  "cap_lock s = 0 \<Longrightarrow> cap_lock_acquire s = Some (True, s\<lparr>cap_lock := 1\<rparr>)"
  by (subst cap_lock_acquire.simps) (simp add: taslock_try_acquire_def)

lemma running_lock [simp]: "running (s\<lparr>cap_lock := l\<rparr>) p = running s p"
  by (simp add: running_def)

lemma handler_post_pc:
  assumes "handler_post (inc_pc t p) p x" "procs t = procs s" "mhartid t = mhartid s" "mtime t = mtime s"
    "mip t = mip s" "cap_lock t = cap_lock s"
  shows "handler_post s p x"
  using assms by (auto simp: handler_post_def env_same_def inc_pc_def running_def split: prod.splits)

lemma handler_post_release:
  assumes "handler_post (inc_pc (t\<lparr>cap_lock := l\<rparr>) p) p (n, s')" "procs t = procs s"
    "mhartid t = mhartid s" "mtime t = mtime s" "mip t = mip s" "cap_lock s = 0"
  shows "handler_post s p (n, cap_lock_release s')"
proof -
  have same: "running (cap_lock_release s') q = running s' q" "busy (cap_lock_release s') q = busy s' q"
    "kinv (cap_lock_release s') = kinv s'"
    "running (inc_pc (t\<lparr>cap_lock := l\<rparr>) p) q = running s q" for q
    using assms(2) by (simp_all add: cap_lock_release_def running_def busy_def inc_pc_def)
  have "env_same s (cap_lock_release s')"
    using assms(1,3-) by (simp add: handler_post_def env_same_def cap_lock_release_def inc_pc_def)
  with assms(1) show ?thesis unfolding handler_post_def prod.case same by blast
qed

lemma inc_pc_ok [simp]:
  "kinv s \<Longrightarrow> kinv (inc_pc s p)" "running (inc_pc s p) q = running s q"
  "timer_fires (inc_pc s p) = timer_fires s"
  by (simp_all add: inc_pc_def timer_fires_def)

lemma syscall_handler_ok:
  assumes inv: "kinv s" and p: "p < S3K_PROC_CNT" "running s p" and timer: "timer_fires s"
    and lock: "cap_lock s = 0"
    and fit: "\<And>c. syscall_of (get_reg s p REG_T0) = Some c \<Longrightarrow> args_fit c (sys_args s p)"
  shows "ok (handler_post s p) (syscall_handler s p)"
proof (cases "syscall_of (get_reg s p REG_T0)")
  case None
  have "handler_post s p (Some p, set_reg (inc_pc s p) p REG_T0 (err_code ERR_INVALID_SYSCALL))"
    using inv p by (intro handler_post_step) (simp_all add: inc_pc_def)
  with None show ?thesis by (simp add: syscall_handler_def Let_def)
next
  case (Some c)
  let ?args = "sys_args s p" and ?s = "s\<lparr>reads := reads s + 1\<rparr>"
  have invalid: "handler_post s p (Some p, set_reg (inc_pc s p) p REG_T0 (err_code e))" for e
    using inv p by (intro handler_post_step) (simp_all add: inc_pc_def)
  have preempt: "handler_post s p (None, ?s)"
    using inv running_busy [OF p(2)] by (simp add: handler_post_def busy_def)
  have run: "ok (handler_post (inc_pc t p) p) (handlers c (inc_pc t p) p ?args)"
    if "validators c ?args = SUCCESS" "kinv t" "running t p" "timer_fires t" for t
    using that p(1) fit [OF Some] by (intro handlers_ok) simp_all
  show ?thesis
  proof (cases "validators c ?args = SUCCESS")
    case True
    have "ok (handler_post s p) (handlers c (inc_pc ?s p) p ?args)"
      by (rule ok_mono [OF run [OF True, of ?s]])
        (use inv p timer in \<open>auto simp: timer_fires_def intro: handler_post_pc [where t = ?s]\<close>)
    moreover have "ok (\<lambda>(n, s'). handler_post s p (n, cap_lock_release s'))
        (handlers c (inc_pc (?s\<lparr>cap_lock := 1\<rparr>) p) p ?args)"
      by (rule ok_mono [OF run [OF True, of "?s\<lparr>cap_lock := 1\<rparr>"]])
        (use inv p timer lock in \<open>auto simp: timer_fires_def intro: handler_post_release [where t = ?s]\<close>)
    ultimately show ?thesis
      using Some True preempt lock
      by (auto simp: syscall_handler_def Let_def kernel_preempt_def cap_lock_acquire_free ok_iff)
  qed (use Some invalid in \<open>simp add: syscall_handler_def Let_def\<close>)
qed

text \<open>Whatever the arguments are, a system call that returns has met the contract.\<close>

lemma syscall_handler_post:
  assumes inv: "kinv s" and p: "p < S3K_PROC_CNT" "running s p" and timer: "timer_fires s"
    and lock: "cap_lock s = 0" and ret: "syscall_handler s p = Some x"
  shows "handler_post s p x"
proof (cases "\<forall>c. syscall_of (get_reg s p REG_T0) = Some c \<longrightarrow> args_fit c (sys_args s p)")
  case True
  with syscall_handler_ok [OF inv p timer lock] ret show ?thesis by simp
next
  case False
  then obtain c where c: "syscall_of (get_reg s p REG_T0) = Some c" "\<not> args_fit c (sys_args s p)" by blast
  note none = handlers_unfit [OF c(2)]
  have invalid: "handler_post s p (Some p, set_reg (inc_pc s p) p REG_T0 (err_code e))" for e
    using inv p by (intro handler_post_step) (simp_all add: inc_pc_def)
  have preempt: "handler_post s p (None, s\<lparr>reads := reads s + 1\<rparr>)"
    using inv running_busy [OF p(2)] by (simp add: handler_post_def busy_def)
  show ?thesis
    using ret c(1) none invalid preempt lock
    by (auto simp: syscall_handler_def Let_def kernel_preempt_def cap_lock_acquire_free split: if_splits)
qed

text \<open>A validated call that is not preempted returns exactly when its arguments fit.\<close>

lemma syscall_returns_lemma:
  assumes "kinv s" "p < S3K_PROC_CNT" "running s p" "timer_fires s" "cap_lock s = 0"
    and "syscall_of (get_reg s p REG_T0) = Some c" "validators c (sys_args s p) = SUCCESS"
    and "mip s (reads s) AND 0x80 = 0"
  shows "syscall_handler s p \<noteq> None \<longleftrightarrow> args_fit c (sys_args s p)"
proof
  assume "args_fit c (sys_args s p)"
  with syscall_handler_ok [OF assms(1-5)] assms(6) show "syscall_handler s p \<noteq> None"
    by (auto simp: ok_iff)
next
  assume ret: "syscall_handler s p \<noteq> None"
  show "args_fit c (sys_args s p)"
  proof (rule ccontr)
    assume "\<not> args_fit c (sys_args s p)"
    from handlers_unfit [OF this] assms ret show False
      by (auto simp: syscall_handler_def Let_def kernel_preempt_def cap_lock_acquire_free split: if_splits)
  qed
qed

end
