(* ===== verification/Trap.thy ===== *)
theory Trap
  imports Syscall
begin

text \<open>
  Traps from user processes: \<open>kernel/src/exception.c\<close>, \<open>kernel/src/interrupt.c\<close> and
  \<open>kernel/src/trap.c\<close>. The trap handler either calls \<open>trap_return\<close>, which goes back to the
  process that trapped without touching the PMP registers of the hart, or returns a process
  to \<open>trap_resume\<close> of \<open>kernel/src/trap.S\<close>, which loads the PMP registers first. Saving and
  restoring the general registers is assembly and not part of the model.
\<close>

section \<open>Exceptions\<close>

definition ILLEGAL_INSTRUCTION :: u64 where "ILLEGAL_INSTRUCTION = 0x2"

definition MRET :: u64 where "MRET = 0x30200073"

definition SRET :: u64 where "SRET = 0x10200073"

definition URET :: u64 where "URET = 0x00200073"

definition exception_delegate :: "kstate \<Rightarrow> proc_ptr \<Rightarrow> u64 \<Rightarrow> u64 \<Rightarrow> proc_ptr \<times> kstate" where
  "exception_delegate s p mcause mtval =
    (let s = set_reg s p REG_ECAUSE mcause;
         s = set_reg s p REG_EVAL mtval;
         s = set_reg s p REG_EPC (get_reg s p REG_PC);
         s = set_reg s p REG_ESP (get_reg s p REG_SP);
         s = set_reg s p REG_PC (get_reg s p REG_TPC);
         s = set_reg s p REG_SP (get_reg s p REG_TSP)
     in (p, s))"

definition exception_trap_return :: "kstate \<Rightarrow> proc_ptr \<Rightarrow> proc_ptr \<times> kstate" where
  "exception_trap_return s p =
    (let s = set_reg s p REG_PC (get_reg s p REG_EPC);
         s = set_reg s p REG_SP (get_reg s p REG_ESP);
         s = set_reg s p REG_ECAUSE 0;
         s = set_reg s p REG_EVAL 0;
         s = set_reg s p REG_EPC 0;
         s = set_reg s p REG_ESP 0
     in (p, s))"

definition exception_handler :: "kstate \<Rightarrow> proc_ptr \<Rightarrow> u64 \<Rightarrow> u64 \<Rightarrow> proc_ptr \<times> kstate" where
  "exception_handler s p mcause mtval =
    (if mcause = ILLEGAL_INSTRUCTION \<and> (mtval = MRET \<or> mtval = SRET \<or> mtval = URET)
     then exception_trap_return s p else exception_delegate s p mcause mtval)"

section \<open>Interrupts and the trap handler\<close>

definition interrupt_handler :: "kstate \<Rightarrow> proc_ptr \<Rightarrow> u64 \<Rightarrow> u64 \<Rightarrow> (proc_ptr \<times> kstate) option" where
  "interrupt_handler s p mcause mtval = do { s \<leftarrow> proc_release s p; sched s }"

datatype trap_exit = Trap_return proc_ptr | Trap_resume proc_ptr

definition trap_handler :: "kstate \<Rightarrow> proc_ptr \<Rightarrow> u64 \<Rightarrow> u64 \<Rightarrow> (trap_exit \<times> kstate) option" where
  "trap_handler s p mcause mtval =
    (if mcause = 8 then do {
       (next, s) \<leftarrow> syscall_handler s p;
       if next = Some p then Some (Trap_return p, s)
       else do {
         s \<leftarrow> proc_release s p;
         (case next of
            Some n \<Rightarrow> Some (Trap_resume n, s)
          | None \<Rightarrow> do { (n, s) \<leftarrow> sched s; Some (Trap_resume n, s) })
       }
     } else if bit mcause 63 then do {
       (n, s) \<leftarrow> interrupt_handler s p mcause mtval;
       Some (Trap_resume n, s)
     } else
       (let (n, s) = exception_handler s p mcause mtval in Some (Trap_return n, s)))"

text \<open>What \<open>trap_resume\<close> does before it goes on to \<open>trap_return\<close>.\<close>

definition trap_resume :: "kstate \<Rightarrow> proc_ptr \<Rightarrow> kstate" where
  "trap_resume s p = s\<lparr>csr_pmpaddr := pmpaddr (procs s ! p), csr_pmpcfg := pmpcfg (procs s ! p)\<rparr>"

section \<open>Scheduling keeps the invariant\<close>

lemma ucast_mask8: "(ucast (w AND 0xFF) :: u8) = ucast w" for w :: u64
proof -
  have "(0xFF :: u64) = mask 8" by (simp add: mask_eq_exp_minus_1)
  then have "w AND 0xFF = take_bit 8 w" by (simp only: take_bit_eq_mask)
  then show ?thesis by (auto simp: bit_simps intro!: bit_word_eqI)
qed

text \<open>The entry that the scheduler reads is the owner of the slot.\<close>

lemma slot_info_owner:
  assumes "hart_ok hart"
  shows "\<exists>si. slot_info_get s hart slot = Some si \<and>
    slot_owner (slots s) hart (unat (slot mod of_nat S3K_SLOT_CNT)) =
      (if si_length si = 0 then None else Some (unat (si_pid si), unat (si_length si)))"
  using hart_offset_ok [OF assms]
  by (simp add: slot_info_get_def slot_owner_def Let_def ucast_mask8)

lemma slot_index: "unat ((slot :: u64) mod of_nat S3K_SLOT_CNT) < S3K_SLOT_CNT"
  using config_bounds(5,6)
  by (simp add: unat_mod_distrib unsigned_of_nat take_bit_nat_eq_self)

lemma slot_info_pid:
  assumes "kinv s" "hart_ok hart" "slot_info_get s hart slot = Some si" "si_length si \<noteq> 0"
  shows "unat (si_pid si) < S3K_PROC_CNT"
proof -
  have "slot_owner (slots s) hart (unat (slot mod of_nat S3K_SLOT_CNT))
      = Some (unat (si_pid si), unat (si_length si))"
    using slot_info_owner [OF assms(2), of s slot] assms(3,4) by auto
  then show ?thesis
    using kinvD(4) [OF assms(1)] assms(2) slot_index [of slot] unfolding slots_ok_def by blast
qed

lemma sched_yields_to_total:
  assumes "\<forall>h \<in> set hs. hart_ok h"
  shows "sched_yields_to s si slot cmp hs \<noteq> None"
  using assms
proof (induction hs)
  case (Cons h hs)
  then obtain si' where "slot_info_get s h slot = Some si'"
    using slot_info_owner [of h s slot] by auto
  with Cons show ?case by auto
qed simp

lemma hart_range_ok:
  "hart_ok hart \<Longrightarrow> \<forall>h \<in> set [S3K_MIN_HART..<hart]. hart_ok h"
  "hart_ok hart \<Longrightarrow> \<forall>h \<in> set [hart + 1..<S3K_MAX_HART]. hart_ok h"
  by (auto simp: hart_ok_def)

text \<open>
  The two ways a round of the scheduler ends: nobody to run, or the owner of the slot is
  tried.
\<close>

lemma sched_fetch_cases:
  assumes inv: "kinv s" and h: "hart_ok hart"
  obtains "sched_fetch s hart slot = Some (None, s)"
  | p l b t where "slot_owner (slots s) hart (unat (slot mod of_nat S3K_SLOT_CNT)) = Some (p, l)"
      "p < S3K_PROC_CNT" "proc_acquire s p = (b, t)"
      "sched_fetch s hart slot = Some (if b then (Some p, upd_proc t p (\<lambda>q. q\<lparr>timeout :=
        (slot + of_nat l) * S3K_SLOT_LEN - S3K_SCHED_TIME\<rparr>)) else (None, t))"
proof -
  from slot_info_owner [OF h] obtain si where si: "slot_info_get s hart slot = Some si"
    "slot_owner (slots s) hart (unat (slot mod of_nat S3K_SLOT_CNT)) =
      (if si_length si = 0 then None else Some (unat (si_pid si), unat (si_length si)))" by blast
  obtain low high where y: "sched_yields_to s si slot (\<le>) [S3K_MIN_HART..<hart] = Some low"
    "sched_yields_to s si slot (<) [hart + 1..<S3K_MAX_HART] = Some high"
    using sched_yields_to_total [OF hart_range_ok(1) [OF h]] sched_yields_to_total [OF hart_range_ok(2) [OF h]]
    by blast
  show thesis
  proof (cases "si_length si = 0 \<or> SMP \<and> (low \<or> high)")
    case True
    with si(1) y show thesis by (intro that(1)) (auto simp: sched_fetch_def)
  next
    case False
    then have l: "si_length si \<noteq> 0" and n: "SMP \<longrightarrow> \<not> low \<and> \<not> high" by simp_all
    have p: "unat (si_pid si) < S3K_PROC_CNT" using slot_info_pid [OF inv h si(1) l] .
    obtain b t where a: "proc_acquire s (unat (si_pid si)) = (b, t)" by fastforce
    have len: "(of_nat (unat (si_length si)) :: u64) = ucast (si_length si)" by simp
    have "sched_fetch s hart slot = do {
        p \<leftarrow> proc_get s (unat (si_pid si));
        let (acquired, s) = proc_acquire s p;
        if \<not> acquired then Some (None, s)
        else Some (Some p, upd_proc s p (\<lambda>q. q\<lparr>timeout :=
          (slot + ucast (si_length si)) * S3K_SLOT_LEN - S3K_SCHED_TIME\<rparr>)) }"
      using si(1) y l n by (cases SMP) (simp_all add: sched_fetch_def)
    with p a have "sched_fetch s hart slot = Some (if b then (Some (unat (si_pid si)),
        upd_proc t (unat (si_pid si)) (\<lambda>q. q\<lparr>timeout :=
          (slot + of_nat (unat (si_length si))) * S3K_SLOT_LEN - S3K_SCHED_TIME\<rparr>)) else (None, t))"
      by (simp add: kinv_proc_get [OF inv])
    with si(2) l p a show thesis by (intro that(2)) simp_all
  qed
qed

lemma sched_fetch_ok:
  assumes inv: "kinv s" and h: "hart_ok hart"
  shows "ok (\<lambda>(r, s'). kinv s' \<and> env_same s s' \<and> runs_on s s' \<and> slots s' = slots s
    \<and> (\<forall>p. r = Some p \<longrightarrow> p < S3K_PROC_CNT \<and> running s' p \<and> \<not> running s p)) (sched_fetch s hart slot)"
proof (rule sched_fetch_cases [OF inv h, of slot])
  fix p l b t
  assume p: "p < S3K_PROC_CNT" "proc_acquire s p = (b, t)"
    "sched_fetch s hart slot = Some (if b then (Some p, upd_proc t p (\<lambda>q. q\<lparr>timeout :=
      (slot + of_nat l) * S3K_SLOT_LEN - S3K_SCHED_TIME\<rparr>)) else (None, t))"
  have "slots t = slots s" using p(2) by (auto simp: proc_acquire_def split: if_splits)
  with p proc_acquire_ok [OF inv p(1,2)] show ?thesis by simp
qed (use inv in simp)

text \<open>
  The process that the scheduler picks owns the slot on this hart, and its timeout is the end
  of its time slice.
\<close>

lemma sched_fetch_owner:
  assumes "kinv s" "hart_ok hart" "sched_fetch s hart slot = Some (Some p, s')"
  shows "\<exists>l. slot_owner (slots s) hart (unat (slot mod of_nat S3K_SLOT_CNT)) = Some (p, l)
    \<and> timeout (procs s' ! p) = (slot + of_nat l) * S3K_SLOT_LEN - S3K_SCHED_TIME"
proof (rule sched_fetch_cases [OF assms(1,2), of slot])
  fix q l b t
  assume q: "slot_owner (slots s) hart (unat (slot mod of_nat S3K_SLOT_CNT)) = Some (q, l)"
    "q < S3K_PROC_CNT" "proc_acquire s q = (b, t)"
    "sched_fetch s hart slot = Some (if b then (Some q, upd_proc t q (\<lambda>q. q\<lparr>timeout :=
      (slot + of_nat l) * S3K_SLOT_LEN - S3K_SCHED_TIME\<rparr>)) else (None, t))"
  have "q < length (procs t)" using q(2) kinv_lengths(2) [OF proc_acquire_ok(1) [OF assms(1) q(2,3)]] by simp
  with q assms(3) show ?thesis by (auto simp: procs_upd_proc split: if_splits)
qed (use assms(3) in simp)

lemma sched_wait_eq:
  assumes "sched_wait s slot = Some s'"
  shows "\<exists>n. s' = s\<lparr>reads := n\<rparr>"
proof (rule sched_wait.raw_induct [OF _ assms])
  fix f s slot s'
  assume IH: "\<And>s slot s'. f s slot = Some s' \<Longrightarrow> \<exists>n. s' = s\<lparr>reads := n\<rparr>"
    and "(let (t, s1) = time_get s in if t < slot * S3K_SLOT_LEN then f s1 slot else Some s1) = Some s'"
  then show "\<exists>n. s' = s\<lparr>reads := n\<rparr>"
    using IH [of "s\<lparr>reads := reads s + 1\<rparr>" slot s'] by (auto split: if_splits)
qed

definition scheduled :: "kstate \<Rightarrow> proc_ptr \<Rightarrow> kstate \<Rightarrow> bool" where
  "scheduled s p s' \<longleftrightarrow> kinv s' \<and> env_same s s' \<and> runs_on s s' \<and> p < S3K_PROC_CNT \<and> running s' p
     \<and> \<not> running s p
     \<and> (\<exists>k slot l. slot = (mtime s k + S3K_SCHED_TIME) div S3K_SLOT_LEN
         \<and> slot_owner (slots s) (mhartid s) (unat (slot mod of_nat S3K_SLOT_CNT)) = Some (p, l)
         \<and> timeout (procs s' ! p) = (slot + of_nat l) * S3K_SLOT_LEN - S3K_SCHED_TIME)"

lemma scheduled_reads: "scheduled (s\<lparr>reads := n\<rparr>) p s' = scheduled s p s'"
  by (simp add: scheduled_def runs_on_def)

lemma sched_loop_ok:
  assumes "sched_loop s = Some (p, s')" "kinv s" "hart_ok (mhartid s)"
  shows "scheduled s p s'"
proof -
  have "kinv s \<longrightarrow> hart_ok (mhartid s) \<longrightarrow> scheduled s (fst (p, s')) (snd (p, s'))"
  proof (rule sched_loop.raw_induct [where P = "\<lambda>s r. kinv s \<longrightarrow> hart_ok (mhartid s) \<longrightarrow>
      scheduled s (fst r) (snd r)", OF _ assms(1)], intro impI)
    fix f s r
    assume IH: "\<And>s r. f s = Some r \<Longrightarrow> kinv s \<longrightarrow> hart_ok (mhartid s) \<longrightarrow> scheduled s (fst r) (snd r)"
      and body: "(let (t, s1) = time_get s; slot = (t + S3K_SCHED_TIME) div S3K_SLOT_LEN
        in sched_wait s1 slot \<bind> (\<lambda>s2. sched_fetch s2 (mhartid s) slot \<bind>
          (\<lambda>(r, s3). case r of None \<Rightarrow> f s3 | Some p \<Rightarrow> Some (p, s3)))) = Some r"
      and inv: "kinv s" and h: "hart_ok (mhartid s)"
    let ?slot = "(mtime s (reads s) + S3K_SCHED_TIME) div S3K_SLOT_LEN"
    from body obtain s2 q s3 where w: "sched_wait (s\<lparr>reads := reads s + 1\<rparr>) ?slot = Some s2"
      and f: "sched_fetch s2 (mhartid s) ?slot = Some (q, s3)"
      and r: "(case q of None \<Rightarrow> f s3 | Some p \<Rightarrow> Some (p, s3)) = Some r"
      by (auto simp: bind_eq_Some_conv Let_def)
    from sched_wait_eq [OF w] obtain n where s2: "s2 = s\<lparr>reads := n\<rparr>" by auto
    have inv2: "kinv s2" "hart_ok (mhartid s)" using inv h s2 by simp_all
    note fetch = sched_fetch_ok [OF inv2, of ?slot, unfolded f]
    show "scheduled s (fst r) (snd r)"
    proof (cases q)
      case None
      with r have "f s3 = Some r" by simp
      from IH [OF this] fetch s2 h have "scheduled s3 (fst r) (snd r)"
        by (simp add: env_same_def)
      with fetch s2 show ?thesis
        by (auto simp: scheduled_def env_same_def runs_on_def)
    next
      case (Some p)
      from sched_fetch_owner [OF inv2, of ?slot p s3] f Some obtain l
        where "slot_owner (slots s2) (mhartid s) (unat (?slot mod of_nat S3K_SLOT_CNT)) = Some (p, l)"
          "timeout (procs s3 ! p) = (?slot + of_nat l) * S3K_SLOT_LEN - S3K_SCHED_TIME" by blast
      with r fetch s2 Some show ?thesis
        unfolding scheduled_def
        by (intro conjI exI [of _ "reads s"] exI [of _ ?slot] exI [of _ l]) (auto simp: runs_on_def)
    qed
  qed
  with assms(2,3) show ?thesis by simp
qed

lemma sched_ok:
  assumes "sched s = Some (p, s')" "kinv s" "hart_ok (mhartid s)"
  shows "scheduled s p s'" "mtimecmp s' (mhartid s) = timeout (procs s' ! p)"
proof -
  let ?s = "timeout_set s (mhartid s) (- 1)"
  from assms(1) obtain t where t: "sched_loop ?s = Some (p, t)"
    "s' = timeout_set t (mhartid t) (timeout (procs t ! p))"
    by (auto simp: sched_def bind_eq_Some_conv)
  have "kinv ?s" "hart_ok (mhartid ?s)" using assms(2,3) by (simp_all add: timeout_set_def)
  from sched_loop_ok [OF t(1) this] have "scheduled ?s p t" .
  then show "scheduled s p s'" "mtimecmp s' (mhartid s) = timeout (procs s' ! p)"
    unfolding t(2)
    by (auto simp: scheduled_def timeout_set_def env_same_def runs_on_def running_def)
qed

section \<open>Traps keep the invariant\<close>

lemma exception_handler_ok:
  assumes "kinv s" "p < S3K_PROC_CNT" "running s p" "exception_handler s p mcause mtval = (q, s')"
  shows "q = p" "kinv s'" "running s' p" "env_same s s'" "runs_on s s'"
  using assms
  by (auto simp: exception_handler_def exception_trap_return_def exception_delegate_def Let_def
      runs_on_def split: if_splits)

text \<open>
  What holds when a trap of process \<open>p\<close> comes back with process \<open>q\<close> to run: the invariant,
  \<open>q\<close> runs, and the processes that run on other harts go on running and are not \<open>q\<close>.
\<close>

definition trap_post :: "kstate \<Rightarrow> proc_ptr \<Rightarrow> proc_ptr \<Rightarrow> kstate \<Rightarrow> bool" where
  "trap_post s p q s' \<longleftrightarrow> kinv s' \<and> env_same s s' \<and> q < S3K_PROC_CNT \<and> running s' q
     \<and> (\<forall>r < S3K_PROC_CNT. r \<noteq> p \<longrightarrow> running s r \<longrightarrow> running s' r \<and> r \<noteq> q)"

text \<open>
  A trap either comes back with a running process and the invariant, or the kernel is in the
  idle loop of the scheduler: nothing else keeps it from returning.
\<close>

definition trap_ok :: "kstate \<Rightarrow> proc_ptr \<Rightarrow> (trap_exit \<times> kstate) option \<Rightarrow> bool" where
  "trap_ok s p m = (case m of
     Some (Trap_return q, s') \<Rightarrow> q = p \<and> trap_post s p q s'
   | Some (Trap_resume q, s') \<Rightarrow> trap_post s p q s'
   | None \<Rightarrow> \<exists>t. kinv t \<and> mhartid t = mhartid s \<and> sched t = None)"

text \<open>The states of a kernel that is about to leave process \<open>p\<close>.\<close>

definition leaving :: "kstate \<Rightarrow> proc_ptr \<Rightarrow> kstate \<Rightarrow> bool" where
  "leaving s p t \<longleftrightarrow> kinv t \<and> env_same s t
     \<and> (\<forall>r < S3K_PROC_CNT. r \<noteq> p \<longrightarrow> running s r \<longrightarrow> running t r)"

lemma trap_sched:
  assumes "leaving s p t" "hart_ok (mhartid s)"
  shows "trap_ok s p (do { (n, u) \<leftarrow> sched t; Some (Trap_resume n, u) })"
proof (cases "sched t")
  case None
  with assms show ?thesis by (auto simp: trap_ok_def leaving_def env_same_def)
next
  case (Some x)
  obtain n u where x: "x = (n, u)" by fastforce
  have t: "kinv t" "env_same s t" "hart_ok (mhartid t)" using assms by (simp_all add: leaving_def env_same_def)
  from sched_ok(1) [of t n u] Some x t have sch: "scheduled t n u" by simp
  have "trap_post s p n u"
    using sch assms(1) env_same_trans [OF t(2)]
    by (auto simp: trap_post_def scheduled_def leaving_def runs_on_def)
  with Some x show ?thesis by (simp add: trap_ok_def)
qed

lemma proc_release_leaving:
  assumes "leaving s p t" "p < S3K_PROC_CNT" "busy t p"
  shows "ok (\<lambda>u. leaving s p u \<and> (\<forall>q. q \<noteq> p \<longrightarrow> running u q = running t q)) (proc_release t p)"
proof (rule ok_mono [OF proc_release_ok [OF _ assms(2,3)]])
  show "kinv t" using assms(1) by (simp add: leaving_def)
next
  fix u
  assume "kinv u \<and> env_same t u \<and> (\<forall>q. q \<noteq> p \<longrightarrow> procs u ! q = procs t ! q)"
  with assms(1) show "leaving s p u \<and> (\<forall>q. q \<noteq> p \<longrightarrow> running u q = running t q)"
    using env_same_trans by (auto simp: leaving_def running_def)
qed

lemma trap_release:
  assumes "leaving s p t" "p < S3K_PROC_CNT" "busy t p"
    and "\<And>u. leaving s p u \<Longrightarrow> \<forall>q. q \<noteq> p \<longrightarrow> running u q = running t q \<Longrightarrow> trap_ok s p (f u)"
  shows "trap_ok s p (proc_release t p \<bind> f)"
  using okD [OF proc_release_leaving [OF assms(1-3)]] assms(4) by auto

lemma trap_syscall_ok:
  assumes post: "handler_post s p (n, t)" "syscall_handler s p = Some (n, t)"
    and p: "p < S3K_PROC_CNT" and h: "hart_ok (mhartid s)"
  shows "trap_ok s p (trap_handler s p 8 mtval)"
proof (cases "n = Some p")
  case True
  with post show ?thesis
    by (auto simp: trap_handler_def trap_ok_def trap_post_def handler_post_def)
next
  case False
  have lv: "leaving s p t" "busy t p" using post(1) by (auto simp: leaving_def handler_post_def)
  have "trap_ok s p (proc_release t p \<bind> (\<lambda>s. case n of
      Some n \<Rightarrow> Some (Trap_resume n, s) | None \<Rightarrow> do { (n, s) \<leftarrow> sched s; Some (Trap_resume n, s) }))"
  proof (rule trap_release [OF lv(1) p lv(2)])
    fix u
    assume u: "leaving s p u" "\<forall>q. q \<noteq> p \<longrightarrow> running u q = running t q"
    have "trap_ok s p (Some (Trap_resume q, u))" if "n = Some q" for q
      using that False u post(1) by (auto simp: trap_ok_def trap_post_def handler_post_def leaving_def)
    with trap_sched [OF u(1) h]
    show "trap_ok s p (case n of Some n \<Rightarrow> Some (Trap_resume n, u)
        | None \<Rightarrow> do { (n, s) \<leftarrow> sched u; Some (Trap_resume n, s) })"
      by (simp split: option.split)
  qed
  with False post(2) show ?thesis by (simp add: trap_handler_def)
qed

lemma trap_interrupt_ok:
  assumes inv: "kinv s" and p: "p < S3K_PROC_CNT" "running s p" and h: "hart_ok (mhartid s)"
  shows "trap_ok s p (do { (n, u) \<leftarrow> interrupt_handler s p mcause mtval; Some (Trap_resume n, u) })"
proof -
  have "leaving s p s" using inv by (simp add: leaving_def)
  then have "trap_ok s p (proc_release s p \<bind> (\<lambda>s. do { (n, s) \<leftarrow> sched s; Some (Trap_resume n, s) }))"
    by (rule trap_release [OF _ p(1) running_busy [OF p(2)]]) (rule trap_sched [OF _ h])
  then show ?thesis by (simp add: interrupt_handler_def)
qed

lemma trap_handler_ok:
  assumes inv: "kinv s" and p: "p < S3K_PROC_CNT" "running s p" and timer: "timer_fires s"
    and lock: "cap_lock s = 0" and h: "hart_ok (mhartid s)"
    and fit: "\<And>c. mcause = 8 \<Longrightarrow> syscall_of (get_reg s p REG_T0) = Some c \<Longrightarrow> args_fit c (sys_args s p)"
  shows "trap_ok s p (trap_handler s p mcause mtval)"
proof (cases "mcause = 8")
  case True
  from okD [OF syscall_handler_ok [OF inv p timer lock fit [OF True]]] obtain n t
    where "syscall_handler s p = Some (n, t)" "handler_post s p (n, t)" by auto
  with trap_syscall_ok [OF _ _ p(1) h] True show ?thesis by simp
next
  case False
  obtain q u where e: "exception_handler s p mcause mtval = (q, u)" by fastforce
  from False show ?thesis
    using trap_interrupt_ok [OF inv p h, of mcause mtval] exception_handler_ok [OF inv p e] e p
    by (auto simp: trap_handler_def trap_ok_def trap_post_def runs_on_def)
qed

lemma release_refuses: "kinv t \<Longrightarrow> busy t p \<Longrightarrow> p < S3K_PROC_CNT \<Longrightarrow> \<exists>u. proc_release t p = Some u"
  using proc_release_ok [of t p] by (auto simp: ok_def split: option.splits)

end
