(* ===== verification/Kernel.thy ===== *)
theory Kernel
  imports Trap
begin

text \<open>
  Initialisation: \<open>ctable_init\<close> of \<open>kernel/src/cap_table.c\<close> with the initial capabilities of
  \<open>common/inc/plat/qemu_virt4.h\<close>, \<open>proc_init\<close> of \<open>kernel/src/proc.c\<close> and \<open>kernel_init\<close> of
  \<open>kernel/src/kernel.c\<close>. The start code clears the data of the kernel first, so the state
  before \<open>kernel_init\<close> is all zero. The messages on the serial console are not modelled.

  The constructors of time, monitor and channel capabilities leave the padding bits of a
  local variable as they are, so these bits are parameters of the model.
\<close>

section \<open>The initial capabilities\<close>

record padding =
  time_pad :: "nat \<Rightarrow> 4 word"
  mon_pad :: "12 word"
  chan_pad :: "12 word"

definition INIT_CAPS :: "padding \<Rightarrow> cap list option" where
  "INIT_CAPS pad = do {
     m1 \<leftarrow> cap_mk_memory 0x80020000 0x88000000 (mem_perm_bits MEM_RWX);
     m2 \<leftarrow> cap_mk_memory 0x10000000 0x10002000 (mem_perm_bits MEM_RW);
     m3 \<leftarrow> cap_mk_memory 0x200b000 0x200c000 (mem_perm_bits MEM_R);
     m25 \<leftarrow> cap_mk_memory 0x04000000 0x04010000 (mem_perm_bits MEM_RW);
     t4 \<leftarrow> cap_mk_time (time_pad pad 0) 0 0 (of_nat S3K_SLOT_CNT);
     t5 \<leftarrow> cap_mk_time (time_pad pad 1) 1 0 (of_nat S3K_SLOT_CNT);
     t6 \<leftarrow> cap_mk_time (time_pad pad 2) 2 0 (of_nat S3K_SLOT_CNT);
     t7 \<leftarrow> cap_mk_time (time_pad pad 3) 3 0 (of_nat S3K_SLOT_CNT);
     mon \<leftarrow> cap_mk_monitor (mon_pad pad) 0 (of_nat S3K_PROC_CNT);
     chan \<leftarrow> cap_mk_channel (chan_pad pad) 0 (of_nat S3K_CHAN_CNT);
     Some ([cap_mk_pmp 0x2007ffff (mem_perm_bits MEM_RWX), m1, m2, m3, t4, t5, t6, t7, mon, chan]
       @ replicate 15 (NoCap 0) @ [m25])
   }"

text \<open>The loop of \<open>ctable_init\<close>: every capability is inserted after entry 0.\<close>

definition ctable_init_step :: "cap list \<Rightarrow> nat \<Rightarrow> cte list \<Rightarrow> cte list" where
  "ctable_init_step init_caps i ct =
    (if cap_type (init_caps ! i) = CAPTY_NONE then ct else cte_insert ct i (init_caps ! i) 0)"

definition ctable_init :: "cap list \<Rightarrow> cte list \<Rightarrow> cte list" where
  "ctable_init init_caps ct = fold (ctable_init_step init_caps) [0..<length init_caps] ct"

section \<open>Initialisation\<close>

text \<open>The symbol \<open>_payload\<close> of \<open>kernel/linker.ld\<close>: the end of the kernel's memory.\<close>

definition payload :: u64 where "payload = 0x80000000 + 0x10000"

definition proc_init :: "kstate \<Rightarrow> kstate option" where
  "proc_init s = do {
     let s = s\<lparr>procs := array_loop (\<lambda>i q. q\<lparr>pid := of_nat i, pstate := PSF_SUSPENDED\<rparr>)
       0 S3K_PROC_CNT (procs s)\<rparr>;
     let s = upd_proc s 0 (\<lambda>q. q\<lparr>pstate := 0\<rparr>);
     let s = set_reg s 0 REG_PC payload;
     c \<leftarrow> ctable_get 0 0;
     (err, s) \<leftarrow> cap_pmp_load s c 0;
     KASSERT (err = SUCCESS);
     Some s
   }"

definition kernel_init :: "padding \<Rightarrow> kstate \<Rightarrow> kstate option" where
  "kernel_init pad s = do {
     let s = (if SMP then cap_lock_init s else s);
     caps \<leftarrow> INIT_CAPS pad;
     let s = set_ctable s (ctable_init caps (ctable s));
     s \<leftarrow> sched_init s;
     proc_init s
   }"

text \<open>The data of the kernel after \<open>zero_bss\<close> of \<open>kernel/src/head.S\<close>.\<close>

definition zero_proc :: proc_t where
  "zero_proc = \<lparr>pstate = 0, regs = (\<lambda>_. 0), pmpcfg = replicate S3K_PMP_CNT 0,
     pmpaddr = replicate S3K_PMP_CNT 0, pid = 0, timeout = 0, serv_time = 0\<rparr>"

definition zero_cte :: cte where
  "zero_cte = \<lparr>prev_off = 0, next_off = 0, cap_fld = NoCap 0\<rparr>"

definition zero_state :: "nat \<Rightarrow> (nat \<Rightarrow> u64) \<Rightarrow> (nat \<Rightarrow> u64) \<Rightarrow> kstate" where
  "zero_state hart time irq = \<lparr>ctable = replicate (S3K_PROC_CNT * S3K_CAP_CNT) zero_cte,
     procs = replicate S3K_PROC_CNT zero_proc,
     channels = replicate S3K_CHAN_CNT \<lparr>server = None, client = None, cap_buf = None\<rparr>,
     slots = replicate S3K_SLOT_CNT 0, cap_lock = 0, mtimecmp = (\<lambda>_. 0),
     csr_pmpaddr = replicate S3K_PMP_CNT 0, csr_pmpcfg = replicate S3K_PMP_CNT 0,
     mhartid = hart, mtime = time, mip = irq, reads = 0\<rparr>"

section \<open>The initial state\<close>

definition init_list :: "padding \<Rightarrow> cap list" where
  "init_list pad = [PmpCap 7 False 0 0x2007ffff, MemCap 7 False 16 0x20 0x20 0x8000,
     MemCap 3 False 2 0 0 2, MemCap 1 False 0 0x200b 0x200b 0x200c,
     TimeCap (time_pad pad 0) 0 0 0 32, TimeCap (time_pad pad 1) 1 0 0 32,
     TimeCap (time_pad pad 2) 2 0 0 32, TimeCap (time_pad pad 3) 3 0 0 32,
     MonCap (mon_pad pad) 0 0 2, ChanCap (chan_pad pad) 0 0 2]
     @ replicate 15 (NoCap 0) @ [MemCap 3 False 0 0x4000 0x4000 0x4010]"

lemma INIT_CAPS_eq: "INIT_CAPS pad = Some (init_list pad)"
  by (simp add: INIT_CAPS_def init_list_def cap_mk_memory_def cap_mk_time_def cap_mk_monitor_def
      cap_mk_channel_def cap_mk_pmp_def KASSERT_def config_defs
      MAX_BLOCK_SIZE_def MIN_BLOCK_SIZE_def Let_def)

text \<open>The capability table after the loop: a ring that starts at entry 0.\<close>

definition zero_table :: "cte list" where
  "zero_table = replicate (S3K_PROC_CNT * S3K_CAP_CNT) zero_cte"

lemma zero_table_simps [simp]:
  "length zero_table = S3K_PROC_CNT * S3K_CAP_CNT"
  "c < S3K_PROC_CNT * S3K_CAP_CNT \<Longrightarrow> zero_table ! c = zero_cte"
  by (simp_all add: zero_table_def)

lemma ring_first:
  assumes "cap_type cp \<noteq> CAPTY_NONE"
  shows "ring (cte_insert zero_table 0 cp 0) [0]"
proof -
  let ?ct = "cte_insert zero_table 0 cp 0"
  have n: "0 < S3K_PROC_CNT * S3K_CAP_CNT" using config_bounds by simp
  have z: "cte_next zero_table 0 = 0" using n by (simp add: cte_next_def zero_cte_def)
  have links: "cte_next ?ct 0 = 0" "cte_prev ?ct 0 = 0"
    using n z by (simp_all add: cte_insert_def Let_def cte_simps)
  have "occupied ?ct = {0}"
    using n assms by (auto simp: occupied_def cte_is_empty_def cte_cap_insert)
      (simp add: cte_cap_def zero_cte_def)
  with links show ?thesis by (simp add: ring_def ring_next_def)
qed

lemma length_init_steps [simp]: "length (fold (ctable_init_step caps) is ct) = length ct"
  by (induction "is" arbitrary: ct) (simp_all add: ctable_init_step_def)

lemma init_steps_ring:
  assumes "cap_type (caps ! 0) \<noteq> CAPTY_NONE" "0 < n" "n \<le> S3K_PROC_CNT * S3K_CAP_CNT"
  shows "ring (fold (ctable_init_step caps) [0..<n] zero_table)
    (0 # rev (filter (\<lambda>i. cap_type (caps ! i) \<noteq> CAPTY_NONE) [1..<n]))" (is "ring (?ct n) (0 # ?xs n)")
  using assms(2,3)
proof (induction n)
  case (Suc n)
  show ?case
  proof (cases "n = 0")
    case True
    with assms(1) show ?thesis by (simp add: ring_first ctable_init_step_def)
  next
    case False
    with Suc have IH: "ring (?ct n) (0 # ?xs n)" by simp
    have "ring (cte_insert (?ct n) n (caps ! n) 0) (insert_after 0 n (0 # ?xs n))"
      if "cap_type (caps ! n) \<noteq> CAPTY_NONE"
      using that False Suc(3) by (intro ring_insert [OF IH]) auto
    with IH False show ?thesis by (simp add: ctable_init_step_def [of caps n])
  qed
qed simp

lemma init_steps_caps:
  assumes "n \<le> length ct" "\<forall>i < n. cap_type (caps ! i) = CAPTY_NONE \<longrightarrow> cte_cap ct i = caps ! i"
  shows "cte_cap (fold (ctable_init_step caps) [0..<n] ct) c = (if c < n then caps ! c else cte_cap ct c)"
  using assms
proof (induction n)
  case (Suc n)
  then show ?case by (auto simp: cte_cap_insert less_Suc_eq ctable_init_step_def [of caps n])
qed simp

lemma init_steps_ok:
  assumes "\<forall>i < n. cap_ok (caps ! i)" "n \<le> length ct" "table_ok ct"
  shows "table_ok (fold (ctable_init_step caps) [0..<n] ct)"
  using assms
proof (induction n)
  case (Suc n)
  then show ?case
    using table_ok_insert [of "fold (ctable_init_step caps) [0..<n] ct" n 0 "caps ! n"]
    by (cases ct) (auto simp: ctable_init_step_def [of caps n])
qed simp

lemma init_list_ok:
  "length (init_list pad) = 26" "\<forall>i < 26. cap_ok (init_list pad ! i)"
  "\<forall>i < 26. cap_type (init_list pad ! i) = CAPTY_NONE \<longrightarrow> init_list pad ! i = NoCap 0"
proof -
  show "length (init_list pad) = 26" by (simp add: init_list_def)
  have "\<forall>cp \<in> set (init_list pad). cap_ok cp \<and> (cap_type cp = CAPTY_NONE \<longrightarrow> cp = NoCap 0)"
    by (simp add: init_list_def hart_ok_def config_defs)
  with \<open>length (init_list pad) = 26\<close>
  show "\<forall>i < 26. cap_ok (init_list pad ! i)"
    "\<forall>i < 26. cap_type (init_list pad ! i) = CAPTY_NONE \<longrightarrow> init_list pad ! i = NoCap 0"
    by (metis nth_mem)+
qed

lemma init_table:
  fixes pad :: padding
  defines "ct \<equiv> ctable_init (init_list pad) zero_table"
  shows "table_ok ct" "ring ct [0, 25, 9, 8, 7, 6, 5, 4, 3, 2, 1]"
    "\<And>c. c < 26 \<Longrightarrow> cte_cap ct c = init_list pad ! c"
    "\<And>c. 26 \<le> c \<Longrightarrow> c < length ct \<Longrightarrow> cte_cap ct c = NoCap 0"
proof -
  have n: "S3K_PROC_CNT * S3K_CAP_CNT = 64" by (simp add: config_defs)
  have z: "cte_cap zero_table c = NoCap 0" if "c < 64" for c
    using that n by (simp add: cte_cap_def zero_cte_def)
  have zok: "table_ok zero_table" by (auto simp: table_ok_def zero_table_def cte_ok_def zero_cte_def n)
  show "table_ok ct"
    unfolding ct_def ctable_init_def using init_list_ok [of pad] zok n by (intro init_steps_ok) simp_all
  have caps: "cte_cap ct c = (if c < 26 then init_list pad ! c else cte_cap zero_table c)" for c
    unfolding ct_def ctable_init_def init_list_ok(1)
    by (rule init_steps_caps) (use init_list_ok(3) [of pad] n z in auto)
  then show "\<And>c. c < 26 \<Longrightarrow> cte_cap ct c = init_list pad ! c"
    "\<And>c. 26 \<le> c \<Longrightarrow> c < length ct \<Longrightarrow> cte_cap ct c = NoCap 0"
    using z n by (auto simp: ct_def ctable_init_def)
  have "filter (\<lambda>i. cap_type (init_list pad ! i) \<noteq> CAPTY_NONE) [1..<26] = [1, 2, 3, 4, 5, 6, 7, 8, 9, 25]"
    by (simp add: init_list_def upt_rec nth_append)
  then show "ring ct [0, 25, 9, 8, 7, 6, 5, 4, 3, 2, 1]"
    unfolding ct_def ctable_init_def init_list_ok(1)
    using init_steps_ring [of "init_list pad" 26] n by (simp add: init_list_def)
qed

text \<open>The schedule after \<open>sched_init\<close>: process 0 owns every slot of every hart.\<close>

lemma sched_init_loop_ok:
  assumes "\<forall>h \<in> set hs. hart_ok h" "slots_ok (slots s)"
  shows "\<exists>ss. sched_init_loop hs s = Some (s\<lparr>slots := ss\<rparr>) \<and> slots_ok ss
    \<and> (\<forall>h i. hart_ok h \<longrightarrow> i < S3K_SLOT_CNT \<longrightarrow>
        slot_owner ss h i = (if h \<in> set hs then Some (0, S3K_SLOT_CNT - i) else slot_owner (slots s) h i))"
  using assms
proof (induction hs arbitrary: s)
  case Nil
  then show ?case by (intro exI [of _ "slots s"]) simp
next
  case (Cons h hs)
  let ?ss = "assign_hart h 0 S3K_SLOT_CNT 0 S3K_SLOT_CNT (slots s)" and ?n = S3K_SLOT_CNT
  have len: "length (slots s) = ?n" using Cons(3) by (simp add: slots_ok_def)
  have h: "hart_ok h" using Cons(2) by simp
  have upd: "sched_update s 0 ?n h 0 ?n = Some (s\<lparr>slots := ?ss\<rparr>)"
    using h len by (simp add: sched_update_eq)
  have ss: "slots_ok ?ss"
    using Cons(3) h config_bounds by (intro slots_ok_assign) simp_all
  have own: "slot_owner ?ss h' i = (if h' = h then Some (0, ?n - i) else slot_owner (slots s) h' i)"
    if "hart_ok h'" "i < ?n" for h' i
    using that h len config_bounds(6) by (simp add: sl.owner_assign)
  from Cons(1) [of "s\<lparr>slots := ?ss\<rparr>"] Cons(2) ss obtain rs
    where rs: "sched_init_loop hs (s\<lparr>slots := ?ss\<rparr>) = Some (s\<lparr>slots := rs\<rparr>)" "slots_ok rs"
      "\<forall>h i. hart_ok h \<longrightarrow> i < ?n \<longrightarrow>
        slot_owner rs h i = (if h \<in> set hs then Some (0, ?n - i) else slot_owner ?ss h i)"
    by auto
  with upd own show ?case by (intro exI [of _ rs]) auto
qed

lemma sched_init_ok:
  assumes "slots_ok (slots s)"
  shows "\<exists>ss. sched_init s = Some (s\<lparr>slots := ss\<rparr>) \<and> slots_ok ss
    \<and> (\<forall>h i. hart_ok h \<longrightarrow> i < S3K_SLOT_CNT \<longrightarrow> slot_owner ss h i = Some (0, S3K_SLOT_CNT - i))"
proof -
  define hs where "hs = [S3K_MIN_HART..<S3K_MAX_HART + 1]"
  have hs: "h \<in> set hs \<longleftrightarrow> hart_ok h" for h
    by (auto simp: hart_ok_def hs_def)
  have "sched_init s = sched_init_loop hs s" by (simp add: sched_init_def hs_def)
  with sched_init_loop_ok [of hs s] assms show ?thesis by (simp add: hs)
qed

lemma zero_slots_ok: "slots_ok (replicate S3K_SLOT_CNT 0)"
  by (auto simp: slots_ok_def slot_owner_def Let_def)

definition boot_procs :: "proc_t list" where
  "boot_procs = map (\<lambda>i. zero_proc\<lparr>pid := of_nat i, pstate := if i = 0 then 0 else PSF_SUSPENDED,
     regs := if i = 0 then (\<lambda>_. 0)(REG_PC := payload) else (\<lambda>_. 0)\<rparr>) [0..<S3K_PROC_CNT]"

lemma proc_init_procs:
  assumes "procs s = replicate S3K_PROC_CNT zero_proc"
  shows "procs (set_reg (upd_proc (s\<lparr>procs := array_loop (\<lambda>i q. q\<lparr>pid := of_nat i, pstate := PSF_SUSPENDED\<rparr>)
    0 S3K_PROC_CNT (procs s)\<rparr>) 0 (\<lambda>q. q\<lparr>pstate := 0\<rparr>)) 0 REG_PC payload) = boot_procs"
    (is "procs ?s = _")
proof (rule nth_equalityI)
  show "length (procs ?s) = length boot_procs" using assms by (simp add: boot_procs_def)
  fix i
  assume "i < length (procs ?s)"
  then have i: "i < S3K_PROC_CNT" using assms by simp
  then show "procs ?s ! i = boot_procs ! i"
    using assms config_bounds(1)
    by (simp add: boot_procs_def procs_set_reg procs_upd_proc nth_array_loop zero_proc_def)
qed

lemma boot_procs_ok: "procs_ok boot_procs"
proof -
  have "unat (of_nat i :: u16) = i" if "i < S3K_PROC_CNT" for i
    using that config_bounds(2) by (simp add: unsigned_of_nat take_bit_nat_eq_self)
  then show ?thesis
    by (auto simp: procs_ok_def proc_ok_def boot_procs_def zero_proc_def)
qed

lemma boot_kinv:
  assumes "slots_ok ss" "length chs = S3K_CHAN_CNT"
    "\<forall>ch \<in> set chs. server ch = None \<and> client ch = None \<and> cap_buf ch = None"
    "ctable s = ctable_init (init_list pad) zero_table" "procs s = boot_procs" "slots s = ss" "channels s = chs"
  shows "kinv s"
proof -
  have "pmp_used (ctable s) c = None" for c
  proof (cases "c < length (ctable s)")
    case True
    have "used_of cp = None" if "cp \<in> set (init_list pad)" for cp
      using that by (auto simp: init_list_def)
    moreover have "c < 26 \<Longrightarrow> init_list pad ! c \<in> set (init_list pad)"
      using init_list_ok(1) [of pad] by (intro nth_mem) simp
    ultimately show ?thesis
      using True init_table(3,4) [of c pad] assms(4)
      by (cases "c < 26") (auto simp: pmp_used_cap)
  qed (simp add: pmp_used_def)
  moreover have "pmpcfg (procs s ! p) ! k = 0" if "p < S3K_PROC_CNT" "k < S3K_PMP_CNT" for p k
    using that assms(5) by (simp add: boot_procs_def zero_proc_def)
  ultimately have "pmp_inv (pmp_used (ctable s)) (procs s)"
    using assms(5) by (intro pmp_invI) (auto simp: boot_procs_def)
  with assms init_table(1) [of pad] boot_procs_ok show ?thesis
    by (auto simp: kinv_def chans_ok_def chan_ok_def)
qed

lemma kernel_init_ok:
  "\<exists>s. kernel_init pad (zero_state hart time irq) = Some s \<and> kinv s
     \<and> ring (ctable s) [0, 25, 9, 8, 7, 6, 5, 4, 3, 2, 1]
     \<and> (\<forall>c. 0 < c \<longrightarrow> c < 26 \<longrightarrow> cte_cap (ctable s) c = init_list pad ! c)
     \<and> (\<forall>c. 26 \<le> c \<longrightarrow> c < length (ctable s) \<longrightarrow> cte_cap (ctable s) c = NoCap 0)
     \<and> cte_cap (ctable s) 0 = PmpCap 7 True 0 0x2007ffff
     \<and> (\<forall>h i. hart_ok h \<longrightarrow> i < S3K_SLOT_CNT \<longrightarrow> slot_owner (slots s) h i = Some (0, S3K_SLOT_CNT - i))
     \<and> (\<forall>p < S3K_PROC_CNT. pstate (procs s ! p) = (if p = 0 then 0 else PSF_SUSPENDED))
     \<and> get_reg s 0 REG_PC = payload \<and> cap_lock s = 0 \<and> mhartid s = hart \<and> mip s = irq"
proof -
  let ?z = "zero_state hart time irq"
  let ?c = "set_ctable ?z (ctable_init (init_list pad) zero_table)"
  have lock: "(if SMP then cap_lock_init ?z else ?z) = ?z"
    by (simp add: cap_lock_init_def zero_state_def)
  have zs: "slots_ok (slots ?c)" using zero_slots_ok by (simp add: zero_state_def)
  from sched_init_ok [OF zs] obtain ss where ss:
    "sched_init ?c = Some (?c\<lparr>slots := ss\<rparr>)" "slots_ok ss"
    "\<forall>h i. hart_ok h \<longrightarrow> i < S3K_SLOT_CNT \<longrightarrow> slot_owner ss h i = Some (0, S3K_SLOT_CNT - i)"
    by blast
  define t where "t = set_reg (upd_proc ((?c\<lparr>slots := ss\<rparr>)\<lparr>procs := array_loop
    (\<lambda>i q. q\<lparr>pid := of_nat i, pstate := PSF_SUSPENDED\<rparr>) 0 S3K_PROC_CNT (procs (?c\<lparr>slots := ss\<rparr>))\<rparr>)
    0 (\<lambda>q. q\<lparr>pstate := 0\<rparr>)) 0 REG_PC payload"
  have procs_t: "procs t = boot_procs"
    unfolding t_def by (rule proc_init_procs) (simp add: zero_state_def)
  have t: "ctable t = ctable_init (init_list pad) zero_table" "slots t = ss" "cap_lock t = 0"
    "mhartid t = hart" "mip t = irq"
    "channels t = replicate S3K_CHAN_CNT \<lparr>server = None, client = None, cap_buf = None\<rparr>"
    by (simp_all add: t_def zero_state_def)
  have kt: "kinv t"
    by (rule boot_kinv [OF ss(2) _ _ t(1) procs_t t(2) t(6)]) auto
  have cap0: "cte_cap (ctable t) 0 = PmpCap 7 False 0 0x2007ffff"
    using init_table(3) [of 0 pad] t(1) by (simp add: init_list_def)
  have len: "length (ctable t) = 64" "length (procs t) = S3K_PROC_CNT"
    using kinv_lengths [OF kt] by (simp_all add: config_defs)
  let ?u = "set_ctable (upd_proc t 0 (load_slot 0 (ucast (7 :: rwx_t) OR 0x18) 0x2007ffff))
    (cte_set_cap (ctable t) 0 (PmpCap 7 True 0 0x2007ffff))"
  have pid0: "cte_pid 0 = 0" by (simp add: cte_pid_def)
  have load: "cap_pmp_load t 0 0 = Some (SUCCESS, ?u)"
    using cap0 kinv_proc_get [OF kt, of 0] config_bounds(1) procs_t
    by (simp add: cap_pmp_load_def pid0 proc_pmp_avail_def proc_pmp_load_eq S3K_PMP_CNT_def
        boot_procs_def zero_proc_def)
  have ku: "kinv ?u" using cap_pmp_load_ok [OF kt, of 0 0] load len by (simp add: S3K_PMP_CNT_def)
  have "kernel_init pad ?z = Some ?u"
  proof -
    have g: "ctable_get 0 0 = Some 0" by (simp add: ctable_get_def KASSERT_def config_bounds)
    have "proc_init (?c\<lparr>slots := ss\<rparr>) = Some ?u"
      unfolding proc_init_def Let_def t_def [symmetric] using load by (simp add: g KASSERT_def)
    moreover have "ctable ?z = zero_table" by (simp add: zero_state_def zero_table_def)
    ultimately show ?thesis
      using ss(1) by (simp add: kernel_init_def lock INIT_CAPS_eq Let_def)
  qed
  moreover have "ring (ctable ?u) [0, 25, 9, 8, 7, 6, 5, 4, 3, 2, 1]"
    using init_table(2) [of pad] t(1) by (simp add: ring_set_cap)
  moreover have "cte_cap (ctable ?u) c = (if c = 0 then PmpCap 7 True 0 0x2007ffff
      else if c < 26 then init_list pad ! c else NoCap 0)" if "c < 64" for c
    using init_table(3,4) [of c pad] t(1) that len by (auto simp: cte_get_set)
  moreover have "pstate (procs ?u ! p) = (if p = 0 then 0 else PSF_SUSPENDED)" if "p < S3K_PROC_CNT" for p
    using that procs_t len by (simp add: procs_upd_proc load_slot_def boot_procs_def)
  moreover have "get_reg ?u 0 REG_PC = payload"
    using procs_t len config_bounds(1) by (simp add: get_reg_def procs_upd_proc load_slot_def boot_procs_def)
  ultimately show ?thesis
    using ku ss(3) t len by (intro exI [of _ ?u]) auto
qed

end
