(* ===== verification/S3kLib.thy ===== *)
theory S3kLib
  imports Kernel
begin

text \<open>
  The user library's view of capabilities: \<open>common/src/s3k/s3k.c\<close> and the inline functions of
  \<open>common/inc/s3k/util.h\<close>. The library has its own copy of the types of the kernel
  (\<open>common/inc/s3k/types.h\<close>) with the same layout, so its capabilities are values of the type
  \<open>cap\<close>. A function that reads a member of the union without testing the type reads the
  fields of the raw value.
\<close>

section \<open>Constructors\<close>

definition s3k_mk_time :: "hart_t \<Rightarrow> time_slot_t \<Rightarrow> time_slot_t \<Rightarrow> cap" where
  "s3k_mk_time hart bgn end' = TimeCap 0 hart bgn bgn end'"

text \<open>
  The tag has 8 bits and is promoted to \<open>int\<close> before the shift, and the result is converted
  to 64 bits with its sign.
\<close>

definition s3k_tag_base :: "tag_t \<Rightarrow> u64" where
  "s3k_tag_base tag = scast (push_bit MAX_BLOCK_SIZE (ucast tag :: u32))"

definition s3k_mk_memory :: "addr_t \<Rightarrow> addr_t \<Rightarrow> u8 \<Rightarrow> cap" where
  "s3k_mk_memory bgn end' rwx =
    (let tag = ucast (drop_bit MAX_BLOCK_SIZE bgn) :: tag_t;
         bgn_block = ucast (drop_bit MIN_BLOCK_SIZE (bgn - s3k_tag_base tag)) :: block_t;
         end_block = ucast (drop_bit MIN_BLOCK_SIZE (end' - s3k_tag_base tag)) :: block_t
     in MemCap (ucast rwx) False tag bgn_block bgn_block end_block)"

definition s3k_mk_pmp :: "napot_t \<Rightarrow> u8 \<Rightarrow> cap" where
  "s3k_mk_pmp addr rwx = PmpCap (ucast (rwx AND 0x7)) False 0 (ucast (addr AND 0xFFFFFFFFFF))"

definition s3k_mk_monitor :: "pid_t \<Rightarrow> pid_t \<Rightarrow> cap" where
  "s3k_mk_monitor bgn end' = MonCap 0 bgn bgn end'"

definition s3k_mk_channel :: "chan_t \<Rightarrow> chan_t \<Rightarrow> cap" where
  "s3k_mk_channel bgn end' = ChanCap 0 bgn bgn end'"

definition s3k_mk_socket :: "chan_t \<Rightarrow> 4 word \<Rightarrow> u8 \<Rightarrow> u32 \<Rightarrow> cap" where
  "s3k_mk_socket chan mode perm tag = SockCap mode perm chan tag"

section \<open>Addresses and ranges\<close>

definition s3k_napot_decode :: "napot_t \<Rightarrow> u64 \<times> u64" where
  "s3k_napot_decode addr =
     (push_bit 2 ((addr + 1) AND addr), push_bit 2 (((addr + 1) XOR addr) + 1))"

definition s3k_napot_encode :: "addr_t \<Rightarrow> u64 \<Rightarrow> napot_t" where
  "s3k_napot_encode base sz = drop_bit 2 (base OR (sz div 2 - 1))"

definition is_range_subset :: "u64 \<Rightarrow> u64 \<Rightarrow> u64 \<Rightarrow> u64 \<Rightarrow> bool" where
  "is_range_subset a_bgn a_end b_bgn b_end \<longleftrightarrow> a_bgn \<le> b_bgn \<and> b_end \<le> a_end"

definition is_range_prefix :: "u64 \<Rightarrow> u64 \<Rightarrow> u64 \<Rightarrow> u64 \<Rightarrow> bool" where
  "is_range_prefix a_bgn a_end b_bgn b_end \<longleftrightarrow> a_bgn = b_bgn \<and> b_end \<le> a_end"

definition is_bit_subset :: "u64 \<Rightarrow> u64 \<Rightarrow> bool" where
  "is_bit_subset a b \<longleftrightarrow> a AND b = a"

definition s3k_tag_block_to_addr :: "tag_t \<Rightarrow> block_t \<Rightarrow> addr_t" where
  "s3k_tag_block_to_addr tag block =
     push_bit MAX_BLOCK_SIZE (ucast tag) + push_bit MIN_BLOCK_SIZE (ucast block)"

section \<open>Revocation\<close>

fun s3k_cap_time_revokable :: "cap \<Rightarrow> cap \<Rightarrow> bool" where
  "s3k_cap_time_revokable (TimeCap ppad phart pbgn pmrk pend) (TimeCap cpad chart cbgn cmrk cend) \<longleftrightarrow>
     phart = chart \<and> is_range_subset (ucast pbgn) (ucast pend) (ucast cbgn) (ucast cend)"
| "s3k_cap_time_revokable p c \<longleftrightarrow> False"

fun s3k_cap_mem_revokable :: "cap \<Rightarrow> cap \<Rightarrow> bool" where
  "s3k_cap_mem_revokable (MemCap prwx plck ptag pbgn pmrk pend) (PmpCap crwx used slot addr) \<longleftrightarrow>
     (let p_bgn = s3k_tag_block_to_addr ptag pbgn; p_end = s3k_tag_block_to_addr ptag pend;
          (c_bgn, c_end) = s3k_napot_decode (ucast addr)
      in is_range_subset p_bgn p_end c_bgn c_end)"
| "s3k_cap_mem_revokable (MemCap prwx plck ptag pbgn pmrk pend) (MemCap crwx clck ctag cbgn cmrk cend) \<longleftrightarrow>
     ptag = ctag \<and> is_range_subset (ucast pbgn) (ucast pend) (ucast cbgn) (ucast cend)"
| "s3k_cap_mem_revokable p c \<longleftrightarrow> False"

fun s3k_cap_mon_revokable :: "cap \<Rightarrow> cap \<Rightarrow> bool" where
  "s3k_cap_mon_revokable (MonCap ppad pbgn pmrk pend) (MonCap cpad cbgn cmrk cend) \<longleftrightarrow>
     is_range_subset (ucast pbgn) (ucast pend) (ucast cbgn) (ucast cend)"
| "s3k_cap_mon_revokable p c \<longleftrightarrow> False"

fun s3k_cap_chan_revokable :: "cap \<Rightarrow> cap \<Rightarrow> bool" where
  "s3k_cap_chan_revokable (ChanCap ppad pbgn pmrk pend) (SockCap mode perm chan tag) \<longleftrightarrow>
     is_range_subset (ucast pbgn) (ucast pend) (ucast chan) (ucast chan + 1)"
| "s3k_cap_chan_revokable (ChanCap ppad pbgn pmrk pend) (ChanCap cpad cbgn cmrk cend) \<longleftrightarrow>
     is_range_subset (ucast pbgn) (ucast pend) (ucast cbgn) (ucast cend)"
| "s3k_cap_chan_revokable p c \<longleftrightarrow> False"

definition s3k_cap_sock_revokable :: "cap \<Rightarrow> cap \<Rightarrow> bool" where
  "s3k_cap_sock_revokable p c \<longleftrightarrow> sock_tag p = 0 \<and> sock_tag c \<noteq> 0 \<and> sock_chan p = sock_chan c"

definition s3k_cap_is_revokable :: "cap \<Rightarrow> cap \<Rightarrow> bool" where
  "s3k_cap_is_revokable p c = (case cap_type p of
     CAPTY_TIME \<Rightarrow> s3k_cap_time_revokable p c
   | CAPTY_MEMORY \<Rightarrow> s3k_cap_mem_revokable p c
   | CAPTY_MONITOR \<Rightarrow> s3k_cap_mon_revokable p c
   | CAPTY_CHANNEL \<Rightarrow> s3k_cap_chan_revokable p c
   | CAPTY_SOCKET \<Rightarrow> s3k_cap_sock_revokable p c
   | _ \<Rightarrow> False)"

section \<open>Validity and derivation\<close>

definition s3k_cap_is_valid :: "cap \<Rightarrow> bool" where
  "s3k_cap_is_valid c = (case c of
     TimeCap pad hart bgn mrk end' \<Rightarrow> bgn = mrk \<and> bgn < end'
   | MemCap rwx lck tag bgn mrk end' \<Rightarrow> bgn = mrk \<and> bgn < end'
   | PmpCap rwx used slot addr \<Rightarrow> \<not> used \<and> slot = 0
   | MonCap pad bgn mrk end' \<Rightarrow> bgn = mrk \<and> bgn < end'
   | ChanCap pad bgn mrk end' \<Rightarrow> bgn = mrk \<and> bgn < end'
   | SockCap mode perm chan tag \<Rightarrow>
       is_bit_subset (ucast perm) (ucast (IPC_SDATA OR IPC_CDATA OR IPC_SCAP OR IPC_CCAP))
       \<and> is_bit_subset (ucast mode) (ucast (IPC_YIELD OR IPC_NOYIELD))
   | _ \<Rightarrow> False)"

fun s3k_cap_time_derivable :: "cap \<Rightarrow> cap \<Rightarrow> bool" where
  "s3k_cap_time_derivable (TimeCap ppad phart pbgn pmrk pend) (TimeCap cpad chart cbgn cmrk cend) \<longleftrightarrow>
     phart = chart \<and> is_range_prefix (ucast pbgn) (ucast pend) (ucast cbgn) (ucast cend)"
| "s3k_cap_time_derivable p c \<longleftrightarrow> False"

fun s3k_cap_mem_derivable :: "cap \<Rightarrow> cap \<Rightarrow> bool" where
  "s3k_cap_mem_derivable (MemCap prwx plck ptag pbgn pmrk pend) (PmpCap crwx used slot addr) \<longleftrightarrow>
     (let p_mrk = s3k_tag_block_to_addr ptag pmrk; p_end = s3k_tag_block_to_addr ptag pend;
          (c_bgn, c_end) = s3k_napot_decode (ucast addr)
      in is_range_subset p_mrk p_end c_bgn c_end \<and> is_bit_subset (ucast crwx) (ucast prwx))"
| "s3k_cap_mem_derivable (MemCap prwx plck ptag pbgn pmrk pend) (MemCap crwx clck ctag cbgn cmrk cend) \<longleftrightarrow>
     ptag = ctag \<and> is_range_subset (ucast pmrk) (ucast pend) (ucast cbgn) (ucast cend)
     \<and> is_bit_subset (ucast crwx) (ucast prwx)"
| "s3k_cap_mem_derivable p c \<longleftrightarrow> False"

fun s3k_cap_mon_derivable :: "cap \<Rightarrow> cap \<Rightarrow> bool" where
  "s3k_cap_mon_derivable (MonCap ppad pbgn pmrk pend) (MonCap cpad cbgn cmrk cend) \<longleftrightarrow>
     is_range_subset (ucast pmrk) (ucast pend) (ucast cbgn) (ucast cend)"
| "s3k_cap_mon_derivable p c \<longleftrightarrow> False"

fun s3k_cap_chan_derivable :: "cap \<Rightarrow> cap \<Rightarrow> bool" where
  "s3k_cap_chan_derivable (ChanCap ppad pbgn pmrk pend) (SockCap mode perm chan tag) \<longleftrightarrow>
     tag = 0 \<and> is_range_subset (ucast pmrk) (ucast pend) (ucast chan) (ucast chan + 1)"
| "s3k_cap_chan_derivable (ChanCap ppad pbgn pmrk pend) (ChanCap cpad cbgn cmrk cend) \<longleftrightarrow>
     is_range_subset (ucast pmrk) (ucast pend) (ucast cbgn) (ucast cend)"
| "s3k_cap_chan_derivable p c \<longleftrightarrow> False"

definition s3k_cap_sock_derivable :: "cap \<Rightarrow> cap \<Rightarrow> bool" where
  "s3k_cap_sock_derivable p c \<longleftrightarrow> cap_type c = CAPTY_SOCKET \<and> sock_chan p = sock_chan c
     \<and> sock_tag p = 0 \<and> sock_tag c \<noteq> 0 \<and> sock_mode p = sock_mode c \<and> sock_perm p = sock_perm c"

definition s3k_cap_is_derivable :: "cap \<Rightarrow> cap \<Rightarrow> bool" where
  "s3k_cap_is_derivable p c = (case cap_type p of
     CAPTY_TIME \<Rightarrow> s3k_cap_time_derivable p c
   | CAPTY_MEMORY \<Rightarrow> s3k_cap_mem_derivable p c
   | CAPTY_MONITOR \<Rightarrow> s3k_cap_mon_derivable p c
   | CAPTY_CHANNEL \<Rightarrow> s3k_cap_chan_derivable p c
   | CAPTY_SOCKET \<Rightarrow> s3k_cap_sock_derivable p c
   | _ \<Rightarrow> False)"

section \<open>Process states\<close>

definition s3k_is_ready :: "u64 \<Rightarrow> bool" where
  "s3k_is_ready state \<longleftrightarrow> state = 0"

definition s3k_is_busy :: "u64 \<Rightarrow> bool" where
  "s3k_is_busy state \<longleftrightarrow> state AND PSF_BUSY \<noteq> 0"

definition s3k_is_blocked :: "u64 \<Rightarrow> bool \<times> chan_t" where
  "s3k_is_blocked state = (state AND PSF_BLOCKED \<noteq> 0, ucast (drop_bit 32 state))"

definition s3k_is_suspended :: "u64 \<Rightarrow> bool" where
  "s3k_is_suspended state \<longleftrightarrow> state = PSF_SUSPENDED"

section \<open>NAPOT addresses\<close>
lemma napot_parts:
  fixes B :: u64
  assumes B: "take_bit (Suc j) B = 0" and j: "Suc j < 64"
  shows "((B OR mask j) + 1) AND (B OR mask j) = B" "((B OR mask j) + 1) XOR (B OR mask j) = mask (Suc j)"
proof -
  have low: "\<not> bit B n" if "n < Suc j" for n
    using that B by (metis bit_take_bit_iff bit_0_eq bot_apply bot_bool_def)
  have "B OR mask j = B + mask j" 
    using low by (subst disjunctive_add) (auto simp: bit_mask_iff)
  then have "(B OR mask j) + 1 = B + 2 ^ j" by (simp add: mask_eq_exp_minus_1)
  also have "\<dots> = B OR 2 ^ j" 
    using low by (subst disjunctive_add) (auto simp: bit_exp_iff)
  finally have s: "(B OR mask j) + 1 = B OR 2 ^ j" .
  show "((B OR mask j) + 1) AND (B OR mask j) = B"
    unfolding s using low j by (intro bit_eqI) (auto simp: bit_simps less_Suc_eq)
  show "((B OR mask j) + 1) XOR (B OR mask j) = mask (Suc j)"
    unfolding s using low j by (intro bit_eqI) (auto simp: bit_simps less_Suc_eq)
qed

lemma napot_roundtrip_lemma:
  fixes base :: u64
  assumes k: "3 \<le> k" "k < 64" and base: "take_bit k base = 0"
  shows "pmp_napot_decode (s3k_napot_encode base (2 ^ k)) = (base, 2 ^ k)"
proof -
  obtain j where j: "k = j + 3" using k(1) by (metis add.commute le_Suc_ex)
  have low: "\<not> bit base n" if "n < k" for n
    using that base by (metis bit_take_bit_iff bit_0_eq bot_apply bot_bool_def)
  have "(2 ^ k :: u64) div 2 = 2 ^ (j + 2)"
    using exp_div_exp_eq [where 'a = "64 word", of k 1] k j by simp
  then have half: "(2 ^ k :: u64) div 2 - 1 = mask (j + 2)" by (simp add: mask_eq_exp_minus_1)
  have "s3k_napot_encode base (2 ^ k) = drop_bit 2 base OR mask j"
    unfolding s3k_napot_encode_def half using k j
    by (auto intro!: bit_eqI simp: bit_simps)
  moreover have "take_bit (Suc j) (drop_bit 2 base) = 0"
    using low j by (auto intro!: bit_eqI simp: bit_simps)
  ultimately have "pmp_napot_decode (s3k_napot_encode base (2 ^ k)) = (push_bit 2 (drop_bit 2 base), push_bit 2 (mask (Suc j) + 1))"
    using napot_parts [of j "drop_bit 2 base"] k j unfolding pmp_napot_decode_def by simp
  moreover have "push_bit 2 (drop_bit 2 base) = base"
  proof -
    have "take_bit 2 base = 0" using low k(1) by (intro bit_eqI) (auto simp: bit_simps)
    with bits_ident [of 2 base] show ?thesis by simp
  qed
  moreover have "push_bit 2 (mask (Suc j) + 1 :: u64) = 2 ^ k"
    using j by (simp add: mask_eq_exp_minus_1 push_bit_eq_mult power_add)
  ultimately show ?thesis by simp
qed


text \<open>C35. The kernel decodes the NAPOT address that the user library encodes: for every size that is a
  power of two of at least eight bytes and every base that is a multiple of the size.\<close>

theorem napot_roundtrip:
  assumes "3 \<le> k" "k < 64" "take_bit k base = 0"
  shows "pmp_napot_decode (s3k_napot_encode base (2 ^ k)) = (base, 2 ^ k)"
  by (rule napot_roundtrip_lemma [OF assms])

theorem napot_roundtrip_witness: "pmp_napot_decode (s3k_napot_encode 0x80020000 0x10000) = (0x80020000, 0x10000)"
proof -
  have "take_bit 16 (0x80020000 :: u64) = 0" by (simp add: take_bit_eq_mod)
  from napot_roundtrip [OF _ _ this] show ?thesis by simp
qed

section \<open>The constructors of library and kernel\<close>

lemma block_low_bits:
  fixes x y y' :: u64
  assumes "take_bit 28 y = take_bit 28 y'"
  shows "(ucast (drop_bit MIN_BLOCK_SIZE (x - y)) :: block_t) = ucast (drop_bit MIN_BLOCK_SIZE (x - y'))"
proof -
  have low: "take_bit 28 (uint (x - w)) = take_bit 28 (take_bit 28 (uint x) - uint (take_bit 28 w))" for w
  proof -
    have "uint (x - w) = take_bit 64 (uint x - uint w)" by (simp add: uint_word_ariths take_bit_eq_mod)
    then show ?thesis by (simp add: unsigned_take_bit_eq take_bit_diff)
  qed
  have "uint (take_bit 28 (x - y)) = uint (take_bit 28 (x - y'))"
    by (simp add: unsigned_take_bit_eq low assms)
  then have "take_bit 28 (x - y) = take_bit 28 (x - y')" by (simp only: word_uint_eq_iff)
  then have "bit (take_bit 28 (x - y)) n = bit (take_bit 28 (x - y')) n" for n by (simp only:)
  then have "bit (x - y) n = bit (x - y') n" if "n < 28" for n
    using that unfolding bit_take_bit_iff by blast
  then show ?thesis by (auto intro!: bit_word_eqI simp: bit_simps MIN_BLOCK_SIZE_def)
qed

lemma s3k_tag_base_low: "take_bit 28 (s3k_tag_base (ucast t)) = take_bit 28 (push_bit MAX_BLOCK_SIZE t)" for t :: u64
  by (rule bit_word_eqI) (auto simp: s3k_tag_base_def MAX_BLOCK_SIZE_def bit_simps)

lemma rwx_u8: "(ucast (ucast rwx :: u8) :: rwx_t) = rwx"
  by (rule bit_word_eqI) (simp add: bit_simps)

text \<open>The constructors of the user library make the capabilities that the constructors of the
  kernel make, whenever the assertions of the latter hold; for memory this is so although the library
  shifts the tag as a signed 32-bit number.\<close>

theorem user_constructors:
  "cap_mk_time 0 hart bgn end' \<in> {None, Some (s3k_mk_time hart bgn end')}
  \<and> cap_mk_memory from to rwx \<in> {None, Some (s3k_mk_memory from to (ucast rwx))}
  \<and> (addr < 2 ^ 40 \<longrightarrow> cap_mk_pmp addr rwx = s3k_mk_pmp addr (ucast rwx))
  \<and> cap_mk_monitor 0 mbgn mend \<in> {None, Some (s3k_mk_monitor mbgn mend)}
  \<and> cap_mk_channel 0 cbgn cend \<in> {None, Some (s3k_mk_channel cbgn cend)}
  \<and> cap_mk_socket chan mode perm tag = s3k_mk_socket chan mode perm tag"
proof (intro conjI impI)
  show "cap_mk_memory from to rwx \<in> {None, Some (s3k_mk_memory from to (ucast rwx))}"
    using block_low_bits [OF s3k_tag_base_low, of _ "drop_bit MAX_BLOCK_SIZE from"]
    by (simp add: cap_mk_memory_def s3k_mk_memory_def KASSERT_def Let_def rwx_u8)
next
  assume "addr < 2 ^ 40"
  then have a: "addr AND 0xFFFFFFFFFF = addr"
    using less_mask_eq [of addr 40] by (simp add: take_bit_eq_mask mask_eq_exp_minus_1)
  have "(ucast rwx :: u8) AND 7 = take_bit 3 (ucast rwx)" by (simp add: take_bit_eq_mask mask_eq_exp_minus_1)
  then have r: "(ucast ((ucast rwx :: u8) AND 7) :: rwx_t) = rwx"
    by (intro bit_word_eqI) (auto simp: bit_simps)
  show "cap_mk_pmp addr rwx = s3k_mk_pmp addr (ucast rwx)"
    unfolding cap_mk_pmp_def s3k_mk_pmp_def a r ..
qed (simp_all add: cap_mk_time_def s3k_mk_time_def cap_mk_monitor_def s3k_mk_monitor_def KASSERT_def
    cap_mk_channel_def s3k_mk_channel_def cap_mk_socket_def s3k_mk_socket_def)

text \<open>The test \<open>s3k_is_blocked\<close> reads the channel from the wrong bits of the state: it reports
  channel 0 for every blocked process.\<close>

theorem is_blocked_channel: "s3k_is_blocked (blocked_on ch) = (True, 0)"
proof -
  have "bit (blocked_on ch) (n + 32) = False" if "n < 16" for n using that by (simp add: bit_blocked_on)
  then have "(ucast (drop_bit 32 (blocked_on ch)) :: chan_t) = 0"
    by (intro bit_word_eqI) (simp add: bit_simps add.commute)
  then show ?thesis by (simp add: s3k_is_blocked_def and_PSF_iff bit_blocked_on)
qed

end
