(* ===== verification/UserSyscall.thy ===== *)
theory UserSyscall
  imports S3kLib
begin

text \<open>
  The system call wrappers of the user library, \<open>common/src/s3k/syscall.c\<close>. The instruction
  \<open>ecall\<close> is a parameter \<open>ec\<close>: it takes the system call number, the argument registers that
  the wrapper sets (the others hold whatever the compiler left there) and the state of the
  world, and returns the registers afterwards. Between the call and its return the kernel
  may run other processes, so nothing is assumed about it here.

  An error code has the type of the enumeration, 32 bits. A result that a wrapper stores
  through a pointer is part of its value.
\<close>

section \<open>The ecall instruction\<close>

record ecall_ret =
  ret_t0 :: u64
  ret_a0 :: u64
  ret_a1 :: u64
  ret_a2 :: u64
  ret_a3 :: u64
  ret_a4 :: u64
  ret_a5 :: u64

type_synonym 'w ecall = "u64 \<Rightarrow> u64 list \<Rightarrow> 'w \<Rightarrow> ecall_ret \<times> 'w"
type_synonym s3k_err_t = u32

text \<open>The macro \<open>DO_ECALL\<close>: error and value of a call.\<close>

definition DO_ECALL :: "'w ecall \<Rightarrow> syscall_t \<Rightarrow> u64 list \<Rightarrow> 'w \<Rightarrow> (s3k_err_t \<times> u64) \<times> 'w" where
  "DO_ECALL ec nr args w =
    (let (r, w) = ec (of_nat (syscall_no nr)) args w in ((ucast (ret_t0 r), ret_a0 r), w))"

record s3k_msg_t =
  cap_idx :: cidx_t
  send_cap :: bool
  data :: "u64 list"

record s3k_reply_t =
  reply_err :: s3k_err_t
  reply_tag :: u32
  reply_cap :: cap
  reply_data :: "u64 list"

definition ERR_PREEMPTED_CODE :: s3k_err_t where
  "ERR_PREEMPTED_CODE = ucast (err_code ERR_PREEMPTED)"

section \<open>Information, registers, time\<close>

definition s3k_get_pid :: "'w ecall \<Rightarrow> 'w \<Rightarrow> u64 \<times> 'w" where
  "s3k_get_pid ec w =
    (let (r, w) = DO_ECALL ec SYS_GET_INFO [0] w in (snd r, w))"

definition s3k_get_time :: "'w ecall \<Rightarrow> 'w \<Rightarrow> u64 \<times> 'w" where
  "s3k_get_time ec w =
    (let (r, w) = DO_ECALL ec SYS_GET_INFO [1] w in (snd r, w))"

definition s3k_get_timeout :: "'w ecall \<Rightarrow> 'w \<Rightarrow> u64 \<times> 'w" where
  "s3k_get_timeout ec w =
    (let (r, w) = DO_ECALL ec SYS_GET_INFO [2] w in (snd r, w))"

definition s3k_reg_read :: "'w ecall \<Rightarrow> u32 \<Rightarrow> 'w \<Rightarrow> u64 \<times> 'w" where
  "s3k_reg_read ec reg w =
    (let (r, w) = DO_ECALL ec SYS_REG_READ [ucast reg] w in (snd r, w))"

definition s3k_reg_write :: "'w ecall \<Rightarrow> u32 \<Rightarrow> u64 \<Rightarrow> 'w \<Rightarrow> u64 \<times> 'w" where
  "s3k_reg_write ec reg val w =
    (let (r, w) = DO_ECALL ec SYS_REG_WRITE [ucast reg, val] w in (snd r, w))"

definition s3k_sync :: "'w ecall \<Rightarrow> 'w \<Rightarrow> unit \<times> 'w" where
  "s3k_sync ec w =
    (let (r, w) = DO_ECALL ec SYS_SYNC [1] w in ((), w))"

definition s3k_sync_mem :: "'w ecall \<Rightarrow> 'w \<Rightarrow> unit \<times> 'w" where
  "s3k_sync_mem ec w =
    (let (r, w) = DO_ECALL ec SYS_SYNC [0] w in ((), w))"

definition s3k_sleep :: "'w ecall \<Rightarrow> u64 \<Rightarrow> 'w \<Rightarrow> unit \<times> 'w" where
  "s3k_sleep ec time w =
    (let (r, w) = DO_ECALL ec SYS_SLEEP [time] w in ((), w))"

definition s3k_cap_read :: "'w ecall \<Rightarrow> cidx_t \<Rightarrow> 'w \<Rightarrow> (s3k_err_t \<times> cap) \<times> 'w" where
  "s3k_cap_read ec idx w =
    (let (r, w) = DO_ECALL ec SYS_CAP_READ [ucast idx] w in ((fst r, cap_of_raw (snd r)), w))"

section \<open>One attempt of a call\<close>

definition s3k_try_cap_move :: "'w ecall \<Rightarrow> cidx_t \<Rightarrow> cidx_t \<Rightarrow> 'w \<Rightarrow> s3k_err_t \<times> 'w" where
  "s3k_try_cap_move ec src dst w =
    (let (r, w) = DO_ECALL ec SYS_CAP_MOVE [ucast src, ucast dst] w in (fst r, w))"

definition s3k_try_cap_delete :: "'w ecall \<Rightarrow> cidx_t \<Rightarrow> 'w \<Rightarrow> s3k_err_t \<times> 'w" where
  "s3k_try_cap_delete ec idx w =
    (let (r, w) = DO_ECALL ec SYS_CAP_DELETE [ucast idx] w in (fst r, w))"

definition s3k_try_cap_revoke :: "'w ecall \<Rightarrow> cidx_t \<Rightarrow> 'w \<Rightarrow> s3k_err_t \<times> 'w" where
  "s3k_try_cap_revoke ec idx w =
    (let (r, w) = DO_ECALL ec SYS_CAP_REVOKE [ucast idx] w in (fst r, w))"

definition s3k_try_cap_derive :: "'w ecall \<Rightarrow> cidx_t \<Rightarrow> cidx_t \<Rightarrow> cap \<Rightarrow> 'w \<Rightarrow> s3k_err_t \<times> 'w" where
  "s3k_try_cap_derive ec src dst ncap w =
    (let (r, w) = DO_ECALL ec SYS_CAP_DERIVE [ucast src, ucast dst, raw_of_cap ncap] w in (fst r, w))"

definition s3k_try_pmp_load :: "'w ecall \<Rightarrow> cidx_t \<Rightarrow> pmp_slot_t \<Rightarrow> 'w \<Rightarrow> s3k_err_t \<times> 'w" where
  "s3k_try_pmp_load ec idx slot w =
    (let (r, w) = DO_ECALL ec SYS_PMP_LOAD [ucast idx, ucast slot] w in (fst r, w))"

definition s3k_try_pmp_unload :: "'w ecall \<Rightarrow> cidx_t \<Rightarrow> 'w \<Rightarrow> s3k_err_t \<times> 'w" where
  "s3k_try_pmp_unload ec idx w =
    (let (r, w) = DO_ECALL ec SYS_PMP_UNLOAD [ucast idx] w in (fst r, w))"

definition s3k_try_mon_suspend :: "'w ecall \<Rightarrow> cidx_t \<Rightarrow> pid_t \<Rightarrow> 'w \<Rightarrow> s3k_err_t \<times> 'w" where
  "s3k_try_mon_suspend ec mon p w =
    (let (r, w) = DO_ECALL ec SYS_MON_SUSPEND [ucast mon, ucast p] w in (fst r, w))"

definition s3k_try_mon_resume :: "'w ecall \<Rightarrow> cidx_t \<Rightarrow> pid_t \<Rightarrow> 'w \<Rightarrow> s3k_err_t \<times> 'w" where
  "s3k_try_mon_resume ec mon p w =
    (let (r, w) = DO_ECALL ec SYS_MON_RESUME [ucast mon, ucast p] w in (fst r, w))"

definition s3k_try_mon_state_get :: "'w ecall \<Rightarrow> cidx_t \<Rightarrow> pid_t \<Rightarrow> 'w \<Rightarrow> (s3k_err_t \<times> u64) \<times> 'w" where
  "s3k_try_mon_state_get ec mon p w =
    (let (r, w) = DO_ECALL ec SYS_MON_STATE_GET [ucast mon, ucast p] w in (r, w))"

definition s3k_try_mon_yield :: "'w ecall \<Rightarrow> cidx_t \<Rightarrow> pid_t \<Rightarrow> 'w \<Rightarrow> s3k_err_t \<times> 'w" where
  "s3k_try_mon_yield ec mon p w =
    (let (r, w) = DO_ECALL ec SYS_MON_YIELD [ucast mon, ucast p] w in (fst r, w))"

definition s3k_try_mon_reg_read :: "'w ecall \<Rightarrow> cidx_t \<Rightarrow> pid_t \<Rightarrow> u32 \<Rightarrow> 'w \<Rightarrow> (s3k_err_t \<times> u64) \<times> 'w" where
  "s3k_try_mon_reg_read ec mon p reg w =
    (let (r, w) = DO_ECALL ec SYS_MON_REG_READ [ucast mon, ucast p, ucast reg] w in (r, w))"

definition s3k_try_mon_reg_write :: "'w ecall \<Rightarrow> cidx_t \<Rightarrow> pid_t \<Rightarrow> u32 \<Rightarrow> u64 \<Rightarrow> 'w \<Rightarrow> s3k_err_t \<times> 'w" where
  "s3k_try_mon_reg_write ec mon p reg val w =
    (let (r, w) = DO_ECALL ec SYS_MON_REG_WRITE [ucast mon, ucast p, ucast reg, val] w in (fst r, w))"

definition s3k_try_mon_cap_read :: "'w ecall \<Rightarrow> cidx_t \<Rightarrow> pid_t \<Rightarrow> cidx_t \<Rightarrow> 'w \<Rightarrow> (s3k_err_t \<times> cap option) \<times> 'w" where
  "s3k_try_mon_cap_read ec mon p idx w =
    (let (r, w) = DO_ECALL ec SYS_MON_CAP_READ [ucast mon, ucast p, ucast idx] w in ((fst r, if fst r = 0 then Some (cap_of_raw (snd r)) else None), w))"

definition s3k_try_mon_cap_move :: "'w ecall \<Rightarrow> cidx_t \<Rightarrow> pid_t \<Rightarrow> cidx_t \<Rightarrow> pid_t \<Rightarrow> cidx_t \<Rightarrow> 'w \<Rightarrow> s3k_err_t \<times> 'w" where
  "s3k_try_mon_cap_move ec mon src_pid src_idx dst_pid dst_idx w =
    (let (r, w) = DO_ECALL ec SYS_MON_CAP_MOVE [ucast mon, ucast src_pid, ucast src_idx, ucast dst_pid, ucast dst_idx] w in (fst r, w))"

definition s3k_try_mon_pmp_load :: "'w ecall \<Rightarrow> cidx_t \<Rightarrow> pid_t \<Rightarrow> cidx_t \<Rightarrow> pmp_slot_t \<Rightarrow> 'w \<Rightarrow> s3k_err_t \<times> 'w" where
  "s3k_try_mon_pmp_load ec mon p idx slot w =
    (let (r, w) = DO_ECALL ec SYS_MON_PMP_LOAD [ucast mon, ucast p, ucast idx, ucast slot] w in (fst r, w))"

definition s3k_try_mon_pmp_unload :: "'w ecall \<Rightarrow> cidx_t \<Rightarrow> pid_t \<Rightarrow> cidx_t \<Rightarrow> 'w \<Rightarrow> s3k_err_t \<times> 'w" where
  "s3k_try_mon_pmp_unload ec mon p idx w =
    (let (r, w) = DO_ECALL ec SYS_MON_PMP_UNLOAD [ucast mon, ucast p, ucast idx] w in (fst r, w))"

definition sock_args :: "cidx_t \<Rightarrow> s3k_msg_t \<Rightarrow> u64 list" where
  "sock_args sock msg = [ucast sock, ucast (cap_idx msg), if send_cap msg then 1 else 0,
     data msg ! 0, data msg ! 1, data msg ! 2, data msg ! 3]"

definition s3k_try_sock_send :: "'w ecall \<Rightarrow> cidx_t \<Rightarrow> s3k_msg_t \<Rightarrow> 'w \<Rightarrow> s3k_err_t \<times> 'w" where
  "s3k_try_sock_send ec sock msg w =
    (let (r, w) = DO_ECALL ec SYS_SOCK_SEND (sock_args sock msg) w in (fst r, w))"

text \<open>The reply of a receiving call, from the registers that the kernel wrote.\<close>

definition reply_of :: "ecall_ret \<Rightarrow> s3k_reply_t" where
  "reply_of r = \<lparr>reply_err = ucast (ret_t0 r), reply_tag = ucast (ret_a0 r),
     reply_cap = cap_of_raw (ret_a1 r), reply_data = [ret_a2 r, ret_a3 r, ret_a4 r, ret_a5 r]\<rparr>"

definition s3k_try_sock_recv :: "'w ecall \<Rightarrow> cidx_t \<Rightarrow> cidx_t \<Rightarrow> 'w \<Rightarrow> s3k_reply_t \<times> 'w" where
  "s3k_try_sock_recv ec sock buf w =
    (let (r, w) = ec (of_nat (syscall_no SYS_SOCK_RECV)) [ucast sock, ucast buf, 0, 0, 0, 0, 0] w
     in (reply_of r, w))"

definition s3k_try_sock_sendrecv :: "'w ecall \<Rightarrow> cidx_t \<Rightarrow> s3k_msg_t \<Rightarrow> 'w \<Rightarrow> s3k_reply_t \<times> 'w" where
  "s3k_try_sock_sendrecv ec sock msg w =
    (let (r, w) = ec (of_nat (syscall_no SYS_SOCK_SENDRECV)) (sock_args sock msg) w
     in (reply_of r, w))"

section \<open>Calls that try again when they are preempted\<close>

partial_function (option) retry ::
  "('r \<Rightarrow> s3k_err_t) \<Rightarrow> ('w \<Rightarrow> 'r \<times> 'w) \<Rightarrow> 'w \<Rightarrow> ('r \<times> 'w) option" where
  "retry err_of f w =
    (let (r, w) = f w in if err_of r = ERR_PREEMPTED_CODE then retry err_of f w else Some (r, w))"

definition s3k_cap_move :: "'w ecall \<Rightarrow> cidx_t \<Rightarrow> cidx_t \<Rightarrow> 'w \<Rightarrow> (s3k_err_t \<times> 'w) option" where
  "s3k_cap_move ec src dst w = retry id (s3k_try_cap_move ec src dst) w"

definition s3k_cap_delete :: "'w ecall \<Rightarrow> cidx_t \<Rightarrow> 'w \<Rightarrow> (s3k_err_t \<times> 'w) option" where
  "s3k_cap_delete ec idx w = retry id (s3k_try_cap_delete ec idx) w"

definition s3k_cap_revoke :: "'w ecall \<Rightarrow> cidx_t \<Rightarrow> 'w \<Rightarrow> (s3k_err_t \<times> 'w) option" where
  "s3k_cap_revoke ec idx w = retry id (s3k_try_cap_revoke ec idx) w"

definition s3k_cap_derive :: "'w ecall \<Rightarrow> cidx_t \<Rightarrow> cidx_t \<Rightarrow> cap \<Rightarrow> 'w \<Rightarrow> (s3k_err_t \<times> 'w) option" where
  "s3k_cap_derive ec src dst ncap w = retry id (s3k_try_cap_derive ec src dst ncap) w"

definition s3k_pmp_load :: "'w ecall \<Rightarrow> cidx_t \<Rightarrow> pmp_slot_t \<Rightarrow> 'w \<Rightarrow> (s3k_err_t \<times> 'w) option" where
  "s3k_pmp_load ec idx slot w = retry id (s3k_try_pmp_load ec idx slot) w"

definition s3k_pmp_unload :: "'w ecall \<Rightarrow> cidx_t \<Rightarrow> 'w \<Rightarrow> (s3k_err_t \<times> 'w) option" where
  "s3k_pmp_unload ec idx w = retry id (s3k_try_pmp_unload ec idx) w"

definition s3k_mon_suspend :: "'w ecall \<Rightarrow> cidx_t \<Rightarrow> pid_t \<Rightarrow> 'w \<Rightarrow> (s3k_err_t \<times> 'w) option" where
  "s3k_mon_suspend ec mon p w = retry id (s3k_try_mon_suspend ec mon p) w"

definition s3k_mon_resume :: "'w ecall \<Rightarrow> cidx_t \<Rightarrow> pid_t \<Rightarrow> 'w \<Rightarrow> (s3k_err_t \<times> 'w) option" where
  "s3k_mon_resume ec mon p w = retry id (s3k_try_mon_resume ec mon p) w"

definition s3k_mon_state_get :: "'w ecall \<Rightarrow> cidx_t \<Rightarrow> pid_t \<Rightarrow> 'w \<Rightarrow> ((s3k_err_t \<times> u64) \<times> 'w) option" where
  "s3k_mon_state_get ec mon p w = retry fst (s3k_try_mon_state_get ec mon p) w"

definition s3k_mon_yield :: "'w ecall \<Rightarrow> cidx_t \<Rightarrow> pid_t \<Rightarrow> 'w \<Rightarrow> (s3k_err_t \<times> 'w) option" where
  "s3k_mon_yield ec mon p w = retry id (s3k_try_mon_yield ec mon p) w"

definition s3k_mon_reg_read :: "'w ecall \<Rightarrow> cidx_t \<Rightarrow> pid_t \<Rightarrow> u32 \<Rightarrow> 'w \<Rightarrow> ((s3k_err_t \<times> u64) \<times> 'w) option" where
  "s3k_mon_reg_read ec mon p reg w = retry fst (s3k_try_mon_reg_read ec mon p reg) w"

definition s3k_mon_reg_write :: "'w ecall \<Rightarrow> cidx_t \<Rightarrow> pid_t \<Rightarrow> u32 \<Rightarrow> u64 \<Rightarrow> 'w \<Rightarrow> (s3k_err_t \<times> 'w) option" where
  "s3k_mon_reg_write ec mon p reg val w = retry id (s3k_try_mon_reg_write ec mon p reg val) w"

definition s3k_mon_cap_read :: "'w ecall \<Rightarrow> cidx_t \<Rightarrow> pid_t \<Rightarrow> cidx_t \<Rightarrow> 'w \<Rightarrow> ((s3k_err_t \<times> cap option) \<times> 'w) option" where
  "s3k_mon_cap_read ec mon p idx w = retry fst (s3k_try_mon_cap_read ec mon p idx) w"

definition s3k_mon_cap_move :: "'w ecall \<Rightarrow> cidx_t \<Rightarrow> pid_t \<Rightarrow> cidx_t \<Rightarrow> pid_t \<Rightarrow> cidx_t \<Rightarrow> 'w \<Rightarrow> (s3k_err_t \<times> 'w) option" where
  "s3k_mon_cap_move ec mon src_pid src_idx dst_pid dst_idx w = retry id (s3k_try_mon_cap_move ec mon src_pid src_idx dst_pid dst_idx) w"

definition s3k_mon_pmp_load :: "'w ecall \<Rightarrow> cidx_t \<Rightarrow> pid_t \<Rightarrow> cidx_t \<Rightarrow> pmp_slot_t \<Rightarrow> 'w \<Rightarrow> (s3k_err_t \<times> 'w) option" where
  "s3k_mon_pmp_load ec mon p idx slot w = retry id (s3k_try_mon_pmp_load ec mon p idx slot) w"

definition s3k_mon_pmp_unload :: "'w ecall \<Rightarrow> cidx_t \<Rightarrow> pid_t \<Rightarrow> cidx_t \<Rightarrow> 'w \<Rightarrow> (s3k_err_t \<times> 'w) option" where
  "s3k_mon_pmp_unload ec mon p idx w = retry id (s3k_try_mon_pmp_unload ec mon p idx) w"

definition s3k_sock_send :: "'w ecall \<Rightarrow> cidx_t \<Rightarrow> s3k_msg_t \<Rightarrow> 'w \<Rightarrow> (s3k_err_t \<times> 'w) option" where
  "s3k_sock_send ec sock msg w = retry id (s3k_try_sock_send ec sock msg) w"

definition s3k_sock_recv :: "'w ecall \<Rightarrow> cidx_t \<Rightarrow> cidx_t \<Rightarrow> 'w \<Rightarrow> (s3k_reply_t \<times> 'w) option" where
  "s3k_sock_recv ec sock buf w = retry reply_err (s3k_try_sock_recv ec sock buf) w"

definition s3k_sock_sendrecv :: "'w ecall \<Rightarrow> cidx_t \<Rightarrow> s3k_msg_t \<Rightarrow> 'w \<Rightarrow> (s3k_reply_t \<times> 'w) option" where
  "s3k_sock_sendrecv ec sock msg w = retry reply_err (s3k_try_sock_sendrecv ec sock msg) w"

end
