(* ===== verification/Console.thy ===== *)
theory Console
  imports Caps
begin

text \<open>
  Formatted output: \<open>common/src/altc/printf.c\<close>, the serial port drivers
  \<open>common/src/drivers/uart/ns16550a.c\<close> and \<open>sifive.c\<close>, \<open>common/src/altc/puts.c\<close> and
  \<open>gets.c\<close>, \<open>kernel/src/kprintf.c\<close>, and the printing of capabilities in
  \<open>kernel/src/cap_util.c\<close>.

  The destination of the formatting functions is the list of characters written so far and the
  number \<open>cap\<close> of characters that fit before \<open>end\<close>: the test \<open>dst != end\<close> is
  \<open>length out \<noteq> cap\<close>. A C string is the list of its characters without the terminating zero.
\<close>

section \<open>Writing numbers, strings and characters\<close>

text \<open>The digits of a number, lowest first, as the conversion loops store them in \<open>buf\<close>.\<close>

definition digit_char :: "nat \<Rightarrow> char" where
  "digit_char d = (if d < 10 then char_of (48 + d) else char_of (65 + (d - 10)))"

function dec_loop :: "u64 \<Rightarrow> string" where
  "dec_loop val = (if val = 0 then [] else digit_char (unat (val mod 10)) # dec_loop (val div 10))"
  by auto

termination dec_loop
proof (relation "measure unat")
  fix val :: u64
  assume "val \<noteq> 0"
  then have "0 < unat val" by (simp add: unat_gt_0)
  then show "(val div 10, val) \<in> measure unat" by (simp add: unat_div)
qed simp

lemma unat_drop_bit4: "unat (drop_bit 4 val) = unat val div 16" for val :: u64
proof -
  have "unat val < 2 ^ 64" using unsigned_less [of val, where 'a = nat] by simp
  then have "take_bit 64 (unat val) = unat val" by (simp add: take_bit_nat_eq_self)
  then show ?thesis by (simp add: unsigned_drop_bit_eq drop_bit_nat_def)
qed

function hex_loop :: "u64 \<Rightarrow> string" where
  "hex_loop val = (if val = 0 then [] else digit_char (unat (val AND 0xF)) # hex_loop (drop_bit 4 val))"
  by auto

termination hex_loop
proof (relation "measure unat")
  fix val :: u64
  assume "val \<noteq> 0"
  then have "0 < unat val" by (simp add: unat_gt_0)
  then show "(drop_bit 4 val, val) \<in> measure unat" by (simp add: unat_drop_bit4)
qed simp

declare dec_loop.simps [simp del] hex_loop.simps [simp del]

text \<open>The copy loops: characters are written as long as there is room.\<close>

fun write_chars :: "string \<Rightarrow> nat \<Rightarrow> string \<Rightarrow> string" where
  "write_chars out cap [] = out"
| "write_chars out cap (c # cs) = (if length out \<noteq> cap then write_chars (out @ [c]) cap cs else out)"

definition write_char :: "string \<Rightarrow> nat \<Rightarrow> char \<Rightarrow> string" where
  "write_char out cap c = (if length out \<noteq> cap then out @ [c] else out)"

definition write_str :: "string \<Rightarrow> nat \<Rightarrow> string \<Rightarrow> string" where
  "write_str out cap src = write_chars out cap src"

definition write_dec :: "string \<Rightarrow> nat \<Rightarrow> u64 \<Rightarrow> string" where
  "write_dec out cap val =
    (if val = 0 \<and> length out \<noteq> cap then out @ [CHR ''0'']
     else if length out \<noteq> cap then write_chars out cap (rev (dec_loop val))
     else out)"

definition write_hex :: "string \<Rightarrow> nat \<Rightarrow> u64 \<Rightarrow> string" where
  "write_hex out cap val =
    (if val = 0 \<and> length out \<noteq> cap then out @ [CHR ''0'']
     else if length out \<noteq> cap then write_chars out cap (rev (hex_loop val))
     else out)"

section \<open>Formats\<close>

text \<open>The variable arguments; an argument is fetched with the type that the conversion names.\<close>

datatype va = VNum u64 | VStr string

definition va_num :: "va list \<Rightarrow> (u64 \<times> va list) option" where
  "va_num ap = (case ap of VNum v # ap' \<Rightarrow> Some (v, ap') | _ \<Rightarrow> None)"

definition va_str :: "va list \<Rightarrow> (string \<times> va list) option" where
  "va_str ap = (case ap of VStr str # ap' \<Rightarrow> Some (str, ap') | _ \<Rightarrow> None)"

text \<open>
  The loop of \<open>alt_vsnprintf\<close>. Fetching an argument that is missing or of the other kind is
  undefined, and so is a format that ends with \<open>%\<close>: the case of the terminating zero steps
  over it and the loop reads beyond the string.
\<close>

fun vsnprintf_loop :: "string \<Rightarrow> nat \<Rightarrow> string \<Rightarrow> va list \<Rightarrow> string option" where
  "vsnprintf_loop out cap [] ap = Some out"
| "vsnprintf_loop out cap [c] ap =
    (if length out = cap then Some out
     else if c \<noteq> CHR ''%'' then Some (write_char out cap c) else None)"
| "vsnprintf_loop out cap (c # d # fmt) ap =
    (if length out = cap then Some out
     else if c \<noteq> CHR ''%'' then vsnprintf_loop (write_char out cap c) cap (d # fmt) ap
     else if d = CHR ''%'' then vsnprintf_loop (write_char out cap (CHR ''%'')) cap fmt ap
     else if d = CHR ''c'' then do {
       (v, ap) \<leftarrow> va_num ap; vsnprintf_loop (write_char out cap (char_of (unat v))) cap fmt ap }
     else if d = CHR ''s'' then do {
       (str, ap) \<leftarrow> va_str ap; vsnprintf_loop (write_str out cap str) cap fmt ap }
     else if d = CHR ''x'' then do {
       (v, ap) \<leftarrow> va_num ap; vsnprintf_loop (write_hex out cap (take_bit 32 v)) cap fmt ap }
     else if d = CHR ''X'' then do {
       (v, ap) \<leftarrow> va_num ap; vsnprintf_loop (write_hex out cap v) cap fmt ap }
     else if d = CHR ''d'' then do {
       (v, ap) \<leftarrow> va_num ap; vsnprintf_loop (write_dec out cap (take_bit 32 v)) cap fmt ap }
     else if d = CHR ''D'' then do {
       (v, ap) \<leftarrow> va_num ap; vsnprintf_loop (write_dec out cap v) cap fmt ap }
     else vsnprintf_loop out cap fmt ap)"

text \<open>
  The contents of the buffer (without the zero that ends it) and the result. With size zero
  \<open>end\<close> lies before the buffer and the loop never meets it.
\<close>

definition alt_vsnprintf :: "nat \<Rightarrow> string \<Rightarrow> va list \<Rightarrow> (string \<times> nat) option" where
  "alt_vsnprintf sz fmt ap =
    (if sz = 0 then None
     else do { out \<leftarrow> vsnprintf_loop [] (sz - 1) fmt ap; Some (out, length out) })"

definition alt_snprintf :: "nat \<Rightarrow> string \<Rightarrow> va list \<Rightarrow> (string \<times> nat) option" where
  "alt_snprintf sz fmt ap = alt_vsnprintf sz fmt ap"

section \<open>Printing capabilities\<close>

definition cap_snprint :: "nat \<Rightarrow> cap \<Rightarrow> (string \<times> nat) option" where
  "cap_snprint sz cap = (case cap of
     NoCap r \<Rightarrow> alt_snprintf sz ''NONE{}'' []
   | TimeCap pad hart bgn mrk end' \<Rightarrow>
       alt_snprintf sz ''TIME{hart=%d,bgn=%d,end=%d,mrk=%d}''
         [VNum (ucast hart), VNum (ucast bgn), VNum (ucast end'), VNum (ucast mrk)]
   | MemCap rwx lck tag bgn mrk end' \<Rightarrow>
       alt_snprintf sz ''MEMORY{bgn=0x%X,end=0x%X,mrk=0x%X,rwx=%d,lck=%x}''
         [VNum (tag_block_to_addr tag bgn), VNum (tag_block_to_addr tag end'),
          VNum (tag_block_to_addr tag mrk), VNum (ucast rwx), VNum (of_bool lck)]
   | PmpCap rwx used slot addr \<Rightarrow>
       (let (base, len) = pmp_napot_decode (ucast addr)
        in alt_snprintf sz ''PMP{bgn=0x%X,end=0x%X,rwx=%d,used=%d,slot=%d}''
          [VNum base, VNum (base + len), VNum (ucast rwx), VNum (of_bool used), VNum (ucast slot)])
   | MonCap pad bgn mrk end' \<Rightarrow>
       alt_snprintf sz ''MONITOR{bgn=%d,end=%d,mrk=%d}''
         [VNum (ucast bgn), VNum (ucast end'), VNum (ucast mrk)]
   | ChanCap pad bgn mrk end' \<Rightarrow>
       alt_snprintf sz ''CHANNEL{bgn=%d,end=%d,mrk=%d}''
         [VNum (ucast bgn), VNum (ucast end'), VNum (ucast mrk)]
   | SockCap mode perm chan tag \<Rightarrow>
       alt_snprintf sz ''SOCKET{chan=%d,tag=%d,perm=%d,mode=%d}''
         [VNum (ucast chan), VNum (ucast tag), VNum (ucast perm), VNum (ucast mode)]
   | OtherCap t r \<Rightarrow> alt_snprintf sz ''UNKNOWN{raw=0x%X}'' [VNum (raw_of_cap cap)])"

section \<open>The serial port\<close>

text \<open>
  A serial port is seen through its status and data registers. What successive reads of the
  registers return is an input of the model (a function of the number of the read), and the
  characters the program has sent are recorded. A polling loop that never sees its bit does not
  return: it is a partial function, and not returning is \<open>None\<close>.
\<close>

record port =
  port_status :: "nat \<Rightarrow> u32"
  port_data :: "nat \<Rightarrow> u32"
  port_reads :: nat
  port_sent :: string
  port_lcr :: u8
  port_fcr :: u8
  port_txctrl :: u32
  port_rxctrl :: u32

definition LSR_RX_READY :: u32 where "LSR_RX_READY = 0x1"
definition LSR_TX_READY :: u32 where "LSR_TX_READY = 0x60"
definition TXDATA_FULL :: u32 where "TXDATA_FULL = 0x80000000"
definition RXDATA_EMPTY :: u32 where "RXDATA_EMPTY = 0x80000000"
definition TXCTRL_TXEN :: u32 where "TXCTRL_TXEN = 0x1"
definition RXCTRL_RXEN :: u32 where "RXCTRL_RXEN = 0x1"

partial_function (option) poll :: "(u32 \<Rightarrow> bool) \<Rightarrow> (nat \<Rightarrow> u32) \<Rightarrow> nat \<Rightarrow> (u32 \<times> nat) option" where
  "poll ready reg n = (if ready (reg n) then Some (reg n, Suc n) else poll ready reg (Suc n))"

declare poll.simps [code]

subsection \<open>\<open>ns16550a.c\<close>\<close>

definition ns16550a_init :: "port \<Rightarrow> port" where
  "ns16550a_init u = u\<lparr>port_lcr := 0x3, port_fcr := 0x1\<rparr>"

definition ns16550a_putc :: "port \<Rightarrow> char \<Rightarrow> (u32 \<times> port) option" where
  "ns16550a_putc u c = do {
    (st, n) \<leftarrow> poll (\<lambda>lsr. lsr AND LSR_TX_READY \<noteq> 0) (port_status u) (port_reads u);
    Some (of_char c, u\<lparr>port_reads := n, port_sent := port_sent u @ [c]\<rparr>) }"

definition ns16550a_getc :: "port \<Rightarrow> (u32 \<times> port) option" where
  "ns16550a_getc u = do {
    (st, n) \<leftarrow> poll (\<lambda>lsr. lsr AND LSR_RX_READY \<noteq> 0) (port_status u) (port_reads u);
    Some (port_data u n, u\<lparr>port_reads := Suc n\<rparr>) }"

subsection \<open>\<open>sifive.c\<close>\<close>

definition sifive_init :: "port \<Rightarrow> port" where
  "sifive_init u = u\<lparr>port_txctrl := TXCTRL_TXEN, port_rxctrl := RXCTRL_RXEN\<rparr>"

definition sifive_putc :: "port \<Rightarrow> char \<Rightarrow> (u32 \<times> port) option" where
  "sifive_putc u c = do {
    (st, n) \<leftarrow> poll (\<lambda>txdata. txdata AND TXDATA_FULL = 0) (port_status u) (port_reads u);
    Some (of_char c, u\<lparr>port_reads := n, port_sent := port_sent u @ [c]\<rparr>) }"

definition sifive_getc :: "port \<Rightarrow> (u32 \<times> port) option" where
  "sifive_getc u = do {
    (c, n) \<leftarrow> poll (\<lambda>rxdata. rxdata AND RXDATA_EMPTY = 0) (port_data u) (port_reads u);
    Some (c, u\<lparr>port_reads := n\<rparr>) }"

subsection \<open>\<open>altc/init.c\<close>, \<open>puts.c\<close>, \<open>gets.c\<close>, \<open>printf.c\<close> and \<open>kprintf.c\<close>\<close>

text \<open>
  These call the driver of the platform, which the build links in: the driver's operations are
  arguments. A string in memory ends at its first zero.
\<close>

type_synonym putc = "port \<Rightarrow> char \<Rightarrow> (u32 \<times> port) option"
type_synonym getc = "port \<Rightarrow> (u32 \<times> port) option"

definition alt_init :: "(port \<Rightarrow> port) \<Rightarrow> port \<Rightarrow> port" where
  "alt_init uart_init u = uart_init u"

definition alt_putchar :: "putc \<Rightarrow> port \<Rightarrow> char \<Rightarrow> (char \<times> port) option" where
  "alt_putchar uart_putc u c = do { (r, u) \<leftarrow> uart_putc u c; Some (c, u) }"

fun putstr_loop :: "putc \<Rightarrow> port \<Rightarrow> string \<Rightarrow> nat \<Rightarrow> (nat \<times> port) option" where
  "putstr_loop uart_putc u [] i = Some (i, u)"
| "putstr_loop uart_putc u (c # str) i =
    (if c = CHR 0x00 then Some (i, u)
     else do { (r, u) \<leftarrow> alt_putchar uart_putc u c; putstr_loop uart_putc u str (Suc i) })"

definition alt_putstr :: "putc \<Rightarrow> port \<Rightarrow> string \<Rightarrow> (nat \<times> port) option" where
  "alt_putstr uart_putc u str = putstr_loop uart_putc u str 0"

definition alt_puts :: "putc \<Rightarrow> port \<Rightarrow> string \<Rightarrow> (nat \<times> port) option" where
  "alt_puts uart_putc u str = do {
    (i, u) \<leftarrow> alt_putstr uart_putc u str;
    (r, u) \<leftarrow> alt_putchar uart_putc u (CHR 0x0D);
    (r, u) \<leftarrow> alt_putchar uart_putc u (CHR 0x0A);
    Some (i, u) }"

definition alt_getchar :: "getc \<Rightarrow> getc" where
  "alt_getchar uart_getc u = uart_getc u"

text \<open>
  \<open>alt_gets\<close> stores what it reads without a bound; the result is what it stored before the zero
  that ends the string, its length, and the port.
\<close>

partial_function (option) gets_loop :: "getc \<Rightarrow> port \<Rightarrow> string \<Rightarrow> (string \<times> nat \<times> port) option" where
  "gets_loop uart_getc u src = do {
    (v, u) \<leftarrow> alt_getchar uart_getc u;
    let c = char_of (unat v);
    if c = CHR 0x0A \<or> c = CHR 0x00 then Some (src, length src, u)
    else gets_loop uart_getc u (src @ [c]) }"

definition alt_gets :: "getc \<Rightarrow> port \<Rightarrow> (string \<times> nat \<times> port) option" where
  "alt_gets uart_getc u = gets_loop uart_getc u []"

definition ALT_PRINTF_BUF_SIZE :: nat where "ALT_PRINTF_BUF_SIZE = 128"

definition alt_printf :: "putc \<Rightarrow> port \<Rightarrow> string \<Rightarrow> va list \<Rightarrow> (nat \<times> port) option" where
  "alt_printf uart_putc u fmt ap = do {
    (buf, len) \<leftarrow> alt_vsnprintf ALT_PRINTF_BUF_SIZE fmt ap;
    (i, u) \<leftarrow> alt_putstr uart_putc u buf;
    Some (len, u) }"

definition KPRINTF_BUF_SIZE :: nat where "KPRINTF_BUF_SIZE = 128"

definition kprintf :: "int \<Rightarrow> putc \<Rightarrow> port \<Rightarrow> int \<Rightarrow> string \<Rightarrow> va list \<Rightarrow> port option" where
  "kprintf VERBOSITY uart_putc u verb fmt ap =
    (if verb > VERBOSITY then Some u
     else do {
       (buf, len) \<leftarrow> alt_vsnprintf KPRINTF_BUF_SIZE fmt ap;
       (i, u) \<leftarrow> alt_putstr uart_putc u buf;
       Some u })"

section \<open>The formatted text and its truncation\<close>

definition dec_str :: "u64 \<Rightarrow> string" where
  "dec_str v = (if v = 0 then ''0'' else rev (dec_loop v))"

definition hex_str :: "u64 \<Rightarrow> string" where
  "hex_str v = (if v = 0 then ''0'' else rev (hex_loop v))"

text \<open>
  The reference for \<open>alt_vsnprintf\<close>: the text of one conversion, and the text of a format
  without any limit.
\<close>

definition conversion :: "char \<Rightarrow> va list \<Rightarrow> (string \<times> va list) option" where
  "conversion d ap =
    (if d = CHR ''%'' then Some (''%'', ap)
     else if d = CHR ''c'' then map_option (apfst (\<lambda>v. [char_of (unat v)])) (va_num ap)
     else if d = CHR ''s'' then va_str ap
     else if d = CHR ''x'' then map_option (apfst (\<lambda>v. hex_str (take_bit 32 v))) (va_num ap)
     else if d = CHR ''X'' then map_option (apfst hex_str) (va_num ap)
     else if d = CHR ''d'' then map_option (apfst (\<lambda>v. dec_str (take_bit 32 v))) (va_num ap)
     else if d = CHR ''D'' then map_option (apfst dec_str) (va_num ap)
     else Some ([], ap))"

fun render :: "string \<Rightarrow> va list \<Rightarrow> string option" where
  "render [] ap = Some []"
| "render [c] ap = (if c \<noteq> CHR ''%'' then Some [c] else None)"
| "render (c # d # fmt) ap =
    (if c \<noteq> CHR ''%'' then map_option ((#) c) (render (d # fmt) ap)
     else do { (x, ap) \<leftarrow> conversion d ap; map_option ((@) x) (render fmt ap) })"

lemma write_chars_take: "length out \<le> cap \<Longrightarrow> write_chars out cap cs = take cap (out @ cs)"
proof (induction cs arbitrary: out)
  case (Cons c cs)
  have "take (cap - length out) (c # cs) = c # take (cap - Suc (length out)) cs" if "length out \<noteq> cap"
    using that Cons.prems by (simp add: take_Cons')
  with Cons show ?case by auto
qed simp

lemma write_take:
  assumes "length out \<le> cap"
  shows "write_char out cap c = take cap (out @ [c])" "write_str out cap src = take cap (out @ src)"
    "write_dec out cap v = take cap (out @ dec_str v)" "write_hex out cap v = take cap (out @ hex_str v)"
  using assms
  by (auto simp: write_char_def write_str_def write_dec_def write_hex_def dec_str_def hex_str_def
      write_chars_take take_Cons')

lemma take_again: "take cap (take cap (out @ x) @ y) = take cap (out @ x @ y)"
proof -
  have "take cap (take cap z @ y) = take cap (z @ y)" for z by (simp add: min_def)
  from this [of "out @ x"] show ?thesis by simp
qed

lemma vsnprintf_loop_step:
  assumes "length out < cap"
  shows "vsnprintf_loop out cap (CHR ''%'' # d # fmt) ap =
    do { (x, ap) \<leftarrow> conversion d ap; vsnprintf_loop (take cap (out @ x)) cap fmt ap }"
proof -
  have "length out \<le> cap" "length out \<noteq> cap" using assms by auto
  note w = write_take [OF this(1)]
  show ?thesis
    using assms
    by (cases "va_num ap"; cases "va_str ap")
      (auto simp: conversion_def w simp del: take_append split: prod.split)
qed

lemma vsnprintf_loop_take:
  assumes "render fmt ap = Some r" "length out \<le> cap"
  shows "vsnprintf_loop out cap fmt ap = Some (take cap (out @ r))"
  using assms
proof (induction fmt ap arbitrary: r out rule: render.induct)
  case (2 c ap)
  then show ?case by (auto simp: write_take split: if_splits)
next
  case (3 c d fmt ap)
  note go = take_again [of cap out, symmetric]
  show ?case
  proof (cases "length out = cap")
    case False
    with "3.prems"(2) have room: "length out < cap" by simp
    show ?thesis
    proof (cases "c = CHR ''%''")
      case True
      with "3.prems"(1) obtain x ap' y where y: "conversion d ap = Some (x, ap')"
        "render fmt ap' = Some y" "r = x @ y" by (auto simp: bind_eq_Some_conv)
      have "vsnprintf_loop (take cap (out @ x)) cap fmt ap' = Some (take cap (take cap (out @ x) @ y))"
        by (rule "3.IH"(2) [OF _ y(1) refl y(2)]) (use True in simp_all)
      with True y room show ?thesis
        by (simp add: vsnprintf_loop_step take_again del: take_append vsnprintf_loop.simps)
    next
      case other: False
      with "3.prems"(1) obtain y where y: "render (d # fmt) ap = Some y" "r = [c] @ y" by auto
      have "vsnprintf_loop (take cap (out @ [c])) cap (d # fmt) ap
        = Some (take cap (take cap (out @ [c]) @ y))"
        by (rule "3.IH"(1) [OF other y(1)]) simp
      with other y room "3.prems"(2) show ?thesis by (simp add: take_again write_take del: take_append)
    qed
  qed simp
qed simp

text \<open>The result of \<open>alt_vsnprintf\<close> is the full text cut to the size of the buffer.\<close>

lemma alt_vsnprintf_render:
  assumes "render fmt ap = Some r" "0 < sz"
  shows "alt_vsnprintf sz fmt ap = Some (take (sz - 1) r, min (length r) (sz - 1))"
  using vsnprintf_loop_take [OF assms(1), of "[]" "sz - 1"] assms(2)
  by (simp add: alt_vsnprintf_def min_def)

text \<open>The digits: their values, and how many of them there are.\<close>

definition digit_value :: "char \<Rightarrow> nat" where
  "digit_value c = (let n = of_char c in if n < 65 then n - 48 else n - 55)"

definition digits_value :: "nat \<Rightarrow> string \<Rightarrow> nat" where
  "digits_value b cs = foldl (\<lambda>n c. b * n + digit_value c) 0 cs"

lemma digit_value_char: "d < 16 \<Longrightarrow> digit_value (digit_char d) = d"
  by (auto simp: digit_value_def digit_char_def Let_def)

lemma digits_value_snoc: "digits_value b (cs @ [c]) = b * digits_value b cs + digit_value c"
  by (simp add: digits_value_def)

lemma unat_and_15: "unat (val AND 0xF) = unat val mod 16" for val :: u64
proof -
  have "val AND 0xF = take_bit 4 val" by (simp add: take_bit_eq_mask mask_eq_exp_minus_1)
  then show ?thesis by (simp add: take_bit_eq_mod unat_mod)
qed

lemma dec_loop_value: "digits_value 10 (rev (dec_loop v)) = unat v"
proof (induction v rule: dec_loop.induct)
  case (1 val)
  then show ?case
    by (subst dec_loop.simps)
      (auto simp: digits_value_snoc digit_value_char unat_div unat_mod digits_value_def [of _ "[]"])
qed

lemma hex_loop_value: "digits_value 16 (rev (hex_loop v)) = unat v"
proof (induction v rule: hex_loop.induct)
  case (1 val)
  then show ?case
    by (subst hex_loop.simps)
      (auto simp: digits_value_snoc digit_value_char unat_drop_bit4 unat_and_15
        digits_value_def [of _ "[]"])
qed

lemma dec_loop_length: "unat v < 10 ^ k \<Longrightarrow> length (dec_loop v) \<le> k"
proof (induction k arbitrary: v)
  case 0
  then show ?case by (simp add: dec_loop.simps unat_eq_0)
next
  case (Suc k)
  have "unat (v div 10) = unat v div 10" by (simp add: unat_div)
  with Suc.prems have "unat (v div 10) < 10 ^ k" by (simp add: div_less_iff_less_mult algebra_simps)
  from Suc.IH [OF this] show ?case by (subst dec_loop.simps) simp
qed

lemma hex_loop_length: "unat v < 16 ^ k \<Longrightarrow> length (hex_loop v) \<le> k"
proof (induction k arbitrary: v)
  case 0
  then show ?case by (simp add: hex_loop.simps unat_eq_0)
next
  case (Suc k)
  then have "unat (drop_bit 4 v) < 16 ^ k"
    by (simp add: unat_drop_bit4 div_less_iff_less_mult algebra_simps)
  from Suc.IH [OF this] show ?case by (subst hex_loop.simps) simp
qed

lemma unat_u64_less: "unat v < 18446744073709551616" for v :: u64
  using unsigned_less [of v, where 'a = nat] by simp

lemma digit_buffers: "length (dec_loop v) \<le> 20" "length (hex_loop v) \<le> 16"
  using unat_u64_less [of v] dec_loop_length [of v 20] hex_loop_length [of v 16] by simp_all

lemma dec_str_value: "digits_value 10 (dec_str v) = unat v"
  by (simp add: dec_str_def dec_loop_value) (simp add: digits_value_def digit_value_def)

lemma hex_str_value: "digits_value 16 (hex_str v) = unat v"
  by (simp add: hex_str_def hex_loop_value) (simp add: digits_value_def digit_value_def)

section \<open>What reaches the serial port\<close>

text \<open>What the library relies on: a port that keeps becoming ready takes every character, in order.\<close>

locale serial_port =
  fixes uart_putc :: putc and ready :: "port \<Rightarrow> bool"
  assumes putc_returns: "ready u \<Longrightarrow> \<exists>r u'. uart_putc u c = Some (r, u')"
    and putc_sent: "uart_putc u c = Some (r, u') \<Longrightarrow> port_sent u' = port_sent u @ [c]"
    and putc_ready: "uart_putc u c = Some (r, u') \<Longrightarrow> ready u \<Longrightarrow> ready u'"
begin

definition prints :: "port \<Rightarrow> string \<Rightarrow> port \<Rightarrow> bool" where
  "prints u str u' \<longleftrightarrow> ready u' \<and> port_sent u' = port_sent u @ str"

lemma putchar_prints:
  assumes "ready u"
  shows "\<exists>u'. alt_putchar uart_putc u c = Some (c, u') \<and> prints u [c] u'"
proof -
  from putc_returns [OF assms] obtain r u' where "uart_putc u c = Some (r, u')" by blast
  with putc_sent putc_ready assms show ?thesis by (auto simp: alt_putchar_def prints_def)
qed

lemma putstr_loop_prints:
  assumes "ready u"
  defines "line \<equiv> \<lambda>str. takeWhile (\<lambda>c. c \<noteq> CHR 0x00) str"
  shows "\<exists>u'. putstr_loop uart_putc u str i = Some (i + length (line str), u') \<and> prints u (line str) u'"
  using assms(1)
proof (induction str arbitrary: u i)
  case Nil
  then show ?case by (simp add: line_def prints_def)
next
  case (Cons c str)
  show ?case
  proof (cases "c = CHR 0x00")
    case True
    with Cons.prems show ?thesis by (simp add: line_def prints_def)
  next
    case False
    from putchar_prints [OF Cons.prems] obtain u1
      where u1: "alt_putchar uart_putc u c = Some (c, u1)" "prints u [c] u1" by blast
    then have "ready u1" by (simp add: prints_def)
    from Cons.IH [OF this, of "Suc i"] u1 False show ?thesis by (auto simp: line_def prints_def)
  qed
qed

lemmas putstr_prints = putstr_loop_prints [of _ _ 0, folded alt_putstr_def, simplified]

lemma puts_prints:
  assumes "ready u"
  shows "\<exists>u'. alt_puts uart_putc u str = Some (length (takeWhile (\<lambda>c. c \<noteq> CHR 0x00) str), u')
    \<and> prints u (takeWhile (\<lambda>c. c \<noteq> CHR 0x00) str @ [CHR 0x0D, CHR 0x0A]) u'"
proof -
  from putstr_prints [OF assms, of str] obtain u1 where u1: "alt_putstr uart_putc u str
    = Some (length (takeWhile (\<lambda>c. c \<noteq> CHR 0x00) str), u1)"
    "prints u (takeWhile (\<lambda>c. c \<noteq> CHR 0x00) str) u1" by blast
  then obtain u2 where u2: "alt_putchar uart_putc u1 (CHR 0x0D) = Some (CHR 0x0D, u2)"
    "prints u1 [CHR 0x0D] u2" using putchar_prints [of u1] by (auto simp: prints_def)
  then obtain u3 where "alt_putchar uart_putc u2 (CHR 0x0A) = Some (CHR 0x0A, u3)"
    "prints u2 [CHR 0x0A] u3" using putchar_prints [of u2] by (auto simp: prints_def)
  with u1 u2 show ?thesis by (auto simp: alt_puts_def prints_def)
qed

lemma kprintf_prints:
  assumes "ready u" "render fmt ap = Some r"
  shows "\<exists>u'. kprintf V uart_putc u verb fmt ap = Some u'
    \<and> prints u (if verb > V then [] else takeWhile (\<lambda>c. c \<noteq> CHR 0x00) (take 127 r)) u'"
proof (cases "verb > V")
  case True
  with assms show ?thesis by (simp add: kprintf_def prints_def)
next
  case False
  have "alt_vsnprintf KPRINTF_BUF_SIZE fmt ap = Some (take 127 r, min (length r) 127)"
    using alt_vsnprintf_render [OF assms(2), of KPRINTF_BUF_SIZE] by (simp add: KPRINTF_BUF_SIZE_def)
  with False putstr_prints [OF assms(1), of "take 127 r"] show ?thesis by (auto simp: kprintf_def)
qed

end

text \<open>Both drivers are such ports: the polling loop returns as soon as its bit is seen.\<close>

lemma poll_returns:
  assumes "ready (reg m)" "n \<le> m"
  shows "\<exists>k. n \<le> k \<and> ready (reg k) \<and> poll ready reg n = Some (reg k, Suc k)"
  using assms(2)
proof (induction rule: inc_induct)
  case base
  with assms(1) show ?case by (auto simp: poll.simps)
next
  case (step n)
  then show ?case
    by (cases "ready (reg n)") (auto simp: poll.simps [of _ _ n] intro: Suc_leD)
qed

definition tx_ready :: "(u32 \<Rightarrow> bool) \<Rightarrow> port \<Rightarrow> bool" where
  "tx_ready ready u \<longleftrightarrow> (\<forall>n. \<exists>m\<ge>n. ready (port_status u m))"

lemma tx_ready_poll:
  assumes "tx_ready ready u"
  shows "\<exists>r n. poll ready (port_status u) (port_reads u) = Some (r, n)"
proof -
  from assms obtain m where "port_reads u \<le> m" "ready (port_status u m)" by (auto simp: tx_ready_def)
  from poll_returns [of ready "port_status u", OF this(2,1)] show ?thesis by blast
qed

interpretation ns16550a: serial_port ns16550a_putc "tx_ready (\<lambda>lsr. lsr AND LSR_TX_READY \<noteq> 0)"
proof (unfold_locales, goal_cases)
  case (1 u c)
  from tx_ready_poll [OF this] show ?case by (auto simp: ns16550a_putc_def)
qed (auto simp: ns16550a_putc_def tx_ready_def bind_eq_Some_conv)

interpretation sifive: serial_port sifive_putc "tx_ready (\<lambda>txdata. txdata AND TXDATA_FULL = 0)"
proof (unfold_locales, goal_cases)
  case (1 u c)
  from tx_ready_poll [OF this] show ?case by (auto simp: sifive_putc_def)
qed (auto simp: sifive_putc_def tx_ready_def bind_eq_Some_conv)

section \<open>Properties\<close>

text \<open>C36. Formatted output is the full text of the format cut to the size of the buffer; what is
  written and the terminating zero fit in the buffer, and the result is the length of what is
  written.\<close>

theorem vsnprintf_truncates:
  assumes "render fmt ap = Some r" "0 < sz"
  shows "alt_vsnprintf sz fmt ap = Some (take (sz - 1) r, min (length r) (sz - 1))
    \<and> length (take (sz - 1) r) + 1 \<le> sz"
  using alt_vsnprintf_render [OF assms] assms(2) by simp

theorem vsnprintf_truncates_witness:
  "alt_vsnprintf 7 ''a%dbc%c!'' [VNum 120, VNum 65] = Some (''a120bc'', 6)"
proof -
  have "dec_str (take_bit 32 120) = ''120''"
    by code_simp
  moreover have "char_of (65 :: nat) = CHR ''A''" by code_simp
  ultimately have "render ''a%dbc%c!'' [VNum 120, VNum 65] = Some ''a120bcA!''"
    by (simp add: conversion_def va_num_def)
  from vsnprintf_truncates [OF this, of 7] show ?thesis by simp
qed

text \<open>Numbers are printed correctly: the digits read back in base ten or sixteen give the number,
  and the digits fit in the local buffers of 24 and 16 characters.\<close>

theorem number_printing:
  "digits_value 10 (dec_str v) = unat v \<and> digits_value 16 (hex_str v) = unat v
    \<and> length (dec_loop v) \<le> 24 \<and> length (hex_loop v) \<le> 16"
  using dec_str_value hex_str_value digit_buffers [of v] by auto

text \<open>A message of the kernel reaches the serial port: on either driver, when the port keeps
  becoming ready, \<open>kprintf\<close> returns and has sent exactly the first 127 characters of the text, or
  nothing when the message is more verbose than the build wants.\<close>

theorem kprintf_sends:
  assumes "render fmt ap = Some r" "CHR 0x00 \<notin> set r"
    and "tx_ready (\<lambda>lsr. lsr AND LSR_TX_READY \<noteq> 0) u" "tx_ready (\<lambda>txdata. txdata AND TXDATA_FULL = 0) u'"
  shows "(\<exists>v. kprintf V ns16550a_putc u verb fmt ap = Some v
      \<and> port_sent v = port_sent u @ (if verb > V then [] else take 127 r))
    \<and> (\<exists>v. kprintf V sifive_putc u' verb fmt ap = Some v
      \<and> port_sent v = port_sent u' @ (if verb > V then [] else take 127 r))"
proof -
  have t: "takeWhile (\<lambda>c. c \<noteq> CHR 0x00) (take 127 r) = take 127 r"
    using assms(2) by (auto simp: takeWhile_eq_all_conv dest: in_set_takeD)
  show ?thesis
    using ns16550a.kprintf_prints [OF assms(3,1), of V verb, unfolded t ns16550a.prints_def]
      sifive.kprintf_prints [OF assms(4,1), of V verb, unfolded t sifive.prints_def] by blast
qed

end
