(* ===== verification/Apps.thy ===== *)
theory Apps
  imports UserSyscall S3kLib Console
begin

text \<open>
  The helpers of the tutorials, \<open>projects/tutorial-commons/utils.h\<close>, and the set-up code of the
  example programs \<open>projects/hello\<close>, \<open>projects/ping-pong\<close> and \<open>projects/trapped\<close>: sequences of
  library calls with which the boot process prepares memory, time and sockets for another process.

  A program runs on a world, on which \<open>ecall\<close> acts, and on the serial port, on which the output
  functions act with the driver \<open>uart_putc\<close>; the result is \<open>None\<close> when a loop does not end. The port
  is read and written as if the PMP allowed it. Local variables that a program leaves uninitialised
  are arguments.
\<close>

section \<open>Constants\<close>

definition APP0_PID :: pid_t where "APP0_PID = 0"
definition APP1_PID :: pid_t where "APP1_PID = 1"
definition RAM_MEM :: cidx_t where "RAM_MEM = 1"
definition UART_MEM :: cidx_t where "UART_MEM = 2"
definition HART0_TIME :: cidx_t where "HART0_TIME = 4"
definition HART1_TIME :: cidx_t where "HART1_TIME = 5"
definition HART2_TIME :: cidx_t where "HART2_TIME = 6"
definition HART3_TIME :: cidx_t where "HART3_TIME = 7"
definition MONITOR :: cidx_t where "MONITOR = 8"
definition CHANNEL :: cidx_t where "CHANNEL = 9"
definition UART_CAP :: cidx_t where "UART_CAP = 10"
definition UART_PMP :: pmp_slot_t where "UART_PMP = 1"
definition APP_1_CAP_PMP_MEM :: cidx_t where "APP_1_CAP_PMP_MEM = 0"
definition APP_1_CAP_PMP_UART :: cidx_t where "APP_1_CAP_PMP_UART = 10"
definition APP_1_TIME :: cidx_t where "APP_1_TIME = 1"
definition APP_1_CAP_SOCKET :: cidx_t where "APP_1_CAP_SOCKET = 3"
definition APP_1_PMP_SLOT_MEM :: pmp_slot_t where "APP_1_PMP_SLOT_MEM = 0"
definition APP_1_PMP_SLOT_UART :: pmp_slot_t where "APP_1_PMP_SLOT_UART = 1"
definition FREE_CAP_BEGIN :: u32 where "FREE_CAP_BEGIN = 12"
definition FREE_CAP_END :: u32 where "FREE_CAP_END = 20"
definition APP_1_BASE_ADDR :: u64 where "APP_1_BASE_ADDR = 0x80020000"
definition APP_1_SIZE :: u64 where "APP_1_SIZE = 0x10000"
definition UART0_BASE_ADDR :: u64 where "UART0_BASE_ADDR = 0x10000000"
definition S3K_MEM_RW :: u8 where "S3K_MEM_RW = 3"
definition S3K_MEM_RWX :: u8 where "S3K_MEM_RWX = 7"
definition S3K_REG_PC :: u32 where "S3K_REG_PC = 0"
definition S3K_REG_TPC :: u32 where "S3K_REG_TPC = 32"
definition S3K_REG_TSP :: u32 where "S3K_REG_TSP = 33"
definition S3K_REG_EPC :: u32 where "S3K_REG_EPC = 34"
definition S3K_REG_ESP :: u32 where "S3K_REG_ESP = 35"
definition S3K_REG_ECAUSE :: u32 where "S3K_REG_ECAUSE = 36"
definition S3K_REG_EVAL :: u32 where "S3K_REG_EVAL = 37"
definition S3K_ERR_TIMEOUT :: s3k_err_t where "S3K_ERR_TIMEOUT = ucast (err_code ERR_TIMEOUT)"

lemmas app_consts = APP0_PID_def APP1_PID_def RAM_MEM_def UART_MEM_def HART0_TIME_def HART1_TIME_def
  HART2_TIME_def HART3_TIME_def MONITOR_def CHANNEL_def UART_CAP_def UART_PMP_def APP_1_CAP_PMP_MEM_def
  APP_1_CAP_PMP_UART_def APP_1_TIME_def APP_1_CAP_SOCKET_def APP_1_PMP_SLOT_MEM_def APP_1_PMP_SLOT_UART_def
  FREE_CAP_BEGIN_def FREE_CAP_END_def APP_1_BASE_ADDR_def APP_1_SIZE_def UART0_BASE_ADDR_def S3K_MEM_RW_def
  S3K_MEM_RWX_def S3K_REG_PC_def S3K_REG_TPC_def S3K_REG_TSP_def

section \<open>The two parts of the world\<close>

type_synonym 'w app = "'w \<times> port"

definition on_world :: "('w \<Rightarrow> ('r \<times> 'w) option) \<Rightarrow> 'w app \<Rightarrow> ('r \<times> 'w app) option" where
  "on_world f a = map_option (\<lambda>(r, w). (r, w, snd a)) (f (fst a))"

definition app_puts :: "putc \<Rightarrow> string \<Rightarrow> 'w app \<Rightarrow> 'w app option" where
  "app_puts uart_putc str a = map_option (\<lambda>(n, u). (fst a, u)) (alt_puts uart_putc (snd a) str)"

definition app_printf :: "putc \<Rightarrow> string \<Rightarrow> va list \<Rightarrow> 'w app \<Rightarrow> 'w app option" where
  "app_printf uart_putc fmt ap a = map_option (\<lambda>(n, u). (fst a, u)) (alt_printf uart_putc (snd a) fmt ap)"

definition nl :: string where "nl = [CHR 0x0A]"

section \<open>Serial port and traps\<close>

definition setup_uart_size :: "'w ecall \<Rightarrow> u64 \<Rightarrow> 'w \<Rightarrow> 'w option" where
  "setup_uart_size ec sz w = do {
     let uart_addr = s3k_napot_encode UART0_BASE_ADDR sz;
     (e, w) \<leftarrow> s3k_cap_derive ec UART_MEM UART_CAP (s3k_mk_pmp uart_addr S3K_MEM_RW) w;
     (e, w) \<leftarrow> s3k_pmp_load ec UART_CAP UART_PMP w;
     let (_, w) = s3k_sync_mem ec w;
     Some w }"

definition setup_uart :: "'w ecall \<Rightarrow> 'w \<Rightarrow> 'w option" where
  "setup_uart ec w = setup_uart_size ec 0x8 w"

definition setup_uart_and_virtio :: "'w ecall \<Rightarrow> 'w \<Rightarrow> 'w option" where
  "setup_uart_and_virtio ec w = setup_uart_size ec 0x2000 w"

text \<open>The return from a trap handler is the instruction \<open>mret\<close>, an exception that the kernel handles.\<close>

definition default_trap_handler :: "'w ecall \<Rightarrow> putc \<Rightarrow> 'w app \<Rightarrow> 'w app option" where
  "default_trap_handler ec uart_putc a = do {
     let (epc, w) = s3k_reg_read ec S3K_REG_EPC (fst a);
     let (esp, w) = s3k_reg_read ec S3K_REG_ESP w;
     let (ecause, w) = s3k_reg_read ec S3K_REG_ECAUSE w;
     let (eval, w) = s3k_reg_read ec S3K_REG_EVAL w;
     a \<leftarrow> app_printf uart_putc (''error info:'' @ nl @ ''- epc: 0x%x'' @ nl @ ''- esp: 0x%x'' @ nl
       @ ''- ecause: 0x%x'' @ nl @ ''- eval: 0x%x'' @ nl) [VNum epc, VNum esp, VNum ecause, VNum eval] (w, snd a);
     app_printf uart_putc (''restoring pc and sp'' @ nl @ nl) [] a }"

definition setup_trap :: "'w ecall \<Rightarrow> u64 \<Rightarrow> u64 \<Rightarrow> u64 \<Rightarrow> 'w \<Rightarrow> 'w" where
  "setup_trap ec handler trap_stack_base trap_stack_size w =
    (let (_, w) = s3k_reg_write ec S3K_REG_TPC handler w;
         (_, w) = s3k_reg_write ec S3K_REG_TSP (trap_stack_base + trap_stack_size) w
     in w)"

section \<open>Capabilities\<close>

definition TAG_BLOCK_TO_ADDR :: "tag_t \<Rightarrow> block_t \<Rightarrow> u64" where
  "TAG_BLOCK_TO_ADDR tag block = push_bit MAX_BLOCK_SIZE (ucast tag) + push_bit MIN_BLOCK_SIZE (ucast block)"

text \<open>
  The conversion \<open>%Z\<close> does not exist: its argument is passed and nothing is printed for it. The C
  function takes a pointer and tests it; no caller passes a null pointer.
\<close>

definition s3k_print_cap :: "putc \<Rightarrow> cap \<Rightarrow> 'w app \<Rightarrow> 'w app option" where
  "s3k_print_cap uart_putc cp a = (case cp of
     NoCap _ \<Rightarrow> app_printf uart_putc (''No Capability'' @ nl) [] a
   | TimeCap pad hart bgn mrk end' \<Rightarrow> app_printf uart_putc (''Time hart:%X bgn:%X mrk:%X end:%Z'' @ nl)
       [VNum (ucast hart), VNum (ucast bgn), VNum (ucast mrk), VNum (ucast end')] a
   | MemCap rwx lck tag bgn mrk end' \<Rightarrow> app_printf uart_putc (''Memory rwx:%X lock:%X bgn:%X mrk:%X end:%X'' @ nl)
       [VNum (ucast rwx), VNum (of_bool lck), VNum (TAG_BLOCK_TO_ADDR tag bgn), VNum (TAG_BLOCK_TO_ADDR tag mrk),
        VNum (TAG_BLOCK_TO_ADDR tag end')] a
   | PmpCap rwx used slot addr \<Rightarrow> app_printf uart_putc (''PMP rwx:%X used:%X index:%X address:%Z'' @ nl)
       [VNum (ucast rwx), VNum (of_bool used), VNum (ucast slot), VNum (ucast addr)] a
   | MonCap pad bgn mrk end' \<Rightarrow> app_printf uart_putc (''Monitor  bgn:%X mrk:%X end:%X'' @ nl)
       [VNum (ucast bgn), VNum (ucast mrk), VNum (ucast end')] a
   | ChanCap pad bgn mrk end' \<Rightarrow> app_printf uart_putc (''Channel  bgn:%X mrk:%X end:%X'' @ nl)
       [VNum (ucast bgn), VNum (ucast mrk), VNum (ucast end')] a
   | SockCap mode perm chan tag \<Rightarrow> app_printf uart_putc (''Socket  mode:%X perm:%X channel:%X tag:%X'' @ nl)
       [VNum (ucast mode), VNum (ucast perm), VNum (ucast chan), VNum (ucast tag)] a
   | OtherCap ty _ \<Rightarrow> Some a)"

partial_function (option) cap_read_loop :: "'w ecall \<Rightarrow> cidx_t \<Rightarrow> 'w \<Rightarrow> (cap \<times> 'w) option" where
  "cap_read_loop ec idx w =
    (let ((e, cp), w) = s3k_cap_read ec idx w in if e \<noteq> 0 then cap_read_loop ec idx w else Some (cp, w))"

definition debug_capability_from_idx :: "'w ecall \<Rightarrow> putc \<Rightarrow> u32 \<Rightarrow> 'w app \<Rightarrow> 'w app option" where
  "debug_capability_from_idx ec uart_putc idx a = do {
     (cp, a) \<leftarrow> on_world (cap_read_loop ec (ucast idx)) a;
     s3k_print_cap uart_putc cp a }"

text \<open>The C function is declared with a result but returns none.\<close>

definition log_sys :: "putc \<Rightarrow> string \<Rightarrow> u32 \<Rightarrow> 'w app \<Rightarrow> 'w app option" where
  "log_sys uart_putc msg res a = app_printf uart_putc (''%s %X'' @ nl) [VStr msg, VNum (ucast res)] a"

function find_free_loop :: "'w ecall \<Rightarrow> u32 \<Rightarrow> 'w \<Rightarrow> u32 \<times> 'w" where
  "find_free_loop ec i w =
    (if i \<le> FREE_CAP_END then
       (let ((e, cp), w) = s3k_cap_read ec (ucast i) w
        in if e \<noteq> 0 then (i, w) else find_free_loop ec (i + 1) w)
     else (0, w))"
  by pat_completeness auto
termination
proof (relation "measure (\<lambda>(ec, i, w). 21 - unat i)")
  fix i :: u32 assume "i \<le> FREE_CAP_END"
  then have "unat i \<le> 20" by (simp add: FREE_CAP_END_def word_le_nat_alt)
  then have "unat (i + 1) = unat i + 1" by (simp add: unat_word_ariths)
  with \<open>unat i \<le> 20\<close> show "((ec, i + 1, w'), ec, i, w) \<in> measure (\<lambda>(ec, i, w). 21 - unat i)" for ec w w' by simp
qed simp

declare find_free_loop.simps [simp del]

definition find_free_cap :: "'w ecall \<Rightarrow> 'w \<Rightarrow> u32 \<times> 'w" where
  "find_free_cap ec w = find_free_loop ec FREE_CAP_BEGIN w"

section \<open>Setting up the second process\<close>

definition setup_app_1 :: "'w ecall \<Rightarrow> putc \<Rightarrow> 'w app \<Rightarrow> 'w app option" where
  "setup_app_1 ec uart_putc a = do {
     let uart_addr = s3k_napot_encode UART0_BASE_ADDR 0x8;
     let app1_addr = s3k_napot_encode APP_1_BASE_ADDR APP_1_SIZE;
     let (free_cap_mem_idx, w) = find_free_cap ec (fst a);
     (e, a) \<leftarrow> on_world (s3k_cap_derive ec RAM_MEM (ucast free_cap_mem_idx)
       (s3k_mk_memory APP_1_BASE_ADDR (APP_1_BASE_ADDR + APP_1_SIZE) S3K_MEM_RWX)) (w, snd a);
     a \<leftarrow> log_sys uart_putc ''1'' e a;
     let (free_cap_idx, w) = find_free_cap ec (fst a);
     (e, a) \<leftarrow> on_world (s3k_cap_derive ec (ucast free_cap_mem_idx) (ucast free_cap_idx)
       (s3k_mk_pmp app1_addr S3K_MEM_RWX)) (w, snd a);
     a \<leftarrow> log_sys uart_putc ''1'' e a;
     (e, a) \<leftarrow> on_world (s3k_mon_cap_move ec MONITOR APP0_PID (ucast free_cap_idx) APP1_PID APP_1_CAP_PMP_MEM) a;
     a \<leftarrow> log_sys uart_putc ''2'' e a;
     (e, a) \<leftarrow> on_world (s3k_mon_pmp_load ec MONITOR APP1_PID APP_1_CAP_PMP_MEM APP_1_PMP_SLOT_MEM) a;
     a \<leftarrow> log_sys uart_putc ''3'' e a;
     (e, a) \<leftarrow> on_world (s3k_cap_derive ec UART_MEM (ucast free_cap_idx) (s3k_mk_pmp uart_addr S3K_MEM_RW)) a;
     a \<leftarrow> log_sys uart_putc ''4'' e a;
     (e, a) \<leftarrow> on_world (s3k_mon_cap_move ec MONITOR APP0_PID (ucast free_cap_idx) APP1_PID APP_1_CAP_PMP_UART) a;
     a \<leftarrow> log_sys uart_putc ''5'' e a;
     (e, a) \<leftarrow> on_world (s3k_mon_pmp_load ec MONITOR APP1_PID APP_1_CAP_PMP_UART APP_1_PMP_SLOT_UART) a;
     a \<leftarrow> log_sys uart_putc ''6'' e a;
     (e, a) \<leftarrow> on_world (s3k_mon_reg_write ec MONITOR APP1_PID S3K_REG_PC APP_1_BASE_ADDR) a;
     a \<leftarrow> log_sys uart_putc ''7'' e a;
     let (_, w) = s3k_sync_mem ec (fst a);
     Some (w, snd a) }"

datatype scheduling = NO_APP_1 | NO_APP_0 | ROUND_ROBIN | PARALLEL

definition half_slots :: cap where
  "half_slots = s3k_mk_time (of_nat S3K_MIN_HART) 0 (of_nat S3K_SLOT_CNT div 2)"

definition setup_scheduling :: "'w ecall \<Rightarrow> putc \<Rightarrow> scheduling \<Rightarrow> 'w app \<Rightarrow> 'w app option" where
  "setup_scheduling ec uart_putc scheduling_type a = do {
     (e, a) \<leftarrow> on_world (s3k_cap_delete ec HART2_TIME) a;
     (e, a) \<leftarrow> on_world (s3k_cap_delete ec HART3_TIME) a;
     a \<leftarrow> (case scheduling_type of
         NO_APP_1 \<Rightarrow> do { (e, a) \<leftarrow> on_world (s3k_cap_delete ec HART1_TIME) a; Some a }
       | NO_APP_0 \<Rightarrow> do {
           (e, a) \<leftarrow> on_world (s3k_cap_delete ec HART1_TIME) a;
           let (cap_idx, w) = find_free_cap ec (fst a);
           (e, a) \<leftarrow> on_world (s3k_cap_derive ec HART0_TIME (ucast cap_idx) half_slots) (w, snd a);
           (e, a) \<leftarrow> on_world (s3k_mon_cap_move ec MONITOR APP0_PID HART0_TIME APP1_PID APP_1_TIME) a;
           Some a }
       | ROUND_ROBIN \<Rightarrow> do {
           (e, a) \<leftarrow> on_world (s3k_cap_delete ec HART1_TIME) a;
           let (cap_idx, w) = find_free_cap ec (fst a);
           (e, a) \<leftarrow> on_world (s3k_cap_derive ec HART0_TIME (ucast cap_idx) half_slots) (w, snd a);
           a \<leftarrow> log_sys uart_putc ''Time derivation'' e a;
           (e, a) \<leftarrow> on_world (s3k_mon_cap_move ec MONITOR APP0_PID (ucast cap_idx) APP1_PID APP_1_TIME) a;
           log_sys uart_putc ''Time delegation'' e a }
       | PARALLEL \<Rightarrow> do {
           (e, a) \<leftarrow> on_world (s3k_mon_cap_move ec MONITOR APP0_PID HART1_TIME APP1_PID APP_1_TIME) a;
           Some a });
     let (_, w) = s3k_sync ec (fst a);
     Some (w, snd a) }"

definition setup_socket :: "'w ecall \<Rightarrow> bool \<Rightarrow> bool \<Rightarrow> bool \<Rightarrow> 'w \<Rightarrow> (u32 \<times> 'w) option" where
  "setup_socket ec srv yield capability w = do {
     let (socket_server, w) = find_free_cap ec w;
     let yield_mode = (if yield then IPC_YIELD else IPC_NOYIELD);
     let permission = (if capability then IPC_SDATA OR IPC_CDATA OR IPC_CCAP OR IPC_SCAP else IPC_SDATA OR IPC_CDATA);
     (e, w) \<leftarrow> s3k_cap_derive ec CHANNEL (ucast socket_server) (s3k_mk_socket 0 yield_mode permission 0) w;
     let (socket_client, w) = find_free_cap ec w;
     (e, w) \<leftarrow> s3k_cap_derive ec (ucast socket_server) (ucast socket_client) (s3k_mk_socket 0 yield_mode permission 1) w;
     if srv then do {
       (e, w) \<leftarrow> s3k_mon_cap_move ec MONITOR APP0_PID (ucast socket_client) APP1_PID APP_1_CAP_SOCKET w;
       Some (socket_server, w) }
     else do {
       (e, w) \<leftarrow> s3k_mon_cap_move ec MONITOR APP0_PID (ucast socket_server) APP1_PID APP_1_CAP_SOCKET w;
       Some (socket_client, w) } }"

section \<open>Loops of clients and servers\<close>

text \<open>One round of \<open>server_main_loop\<close>: receive until there is no error, then handle the request.\<close>

partial_function (option) server_recv ::
  "'w ecall \<Rightarrow> putc \<Rightarrow> bool \<Rightarrow> s3k_msg_t \<Rightarrow> 'w app \<Rightarrow> ((s3k_msg_t \<times> s3k_reply_t) \<times> 'w app) option" where
  "server_recv ec uart_putc capability msg a = do {
     let (msg, a) = (if capability
       then let (i, w) = find_free_cap ec (fst a) in (msg\<lparr>cap_idx := ucast i, send_cap := True\<rparr>, (w, snd a))
       else (msg, a));
     a \<leftarrow> app_puts uart_putc (''APP1: ready to receive'' @ nl) a;
     (rep, a) \<leftarrow> on_world (s3k_sock_sendrecv ec APP_1_CAP_SOCKET msg) a;
     a \<leftarrow> (if reply_err rep = S3K_ERR_TIMEOUT then app_puts uart_putc (''APP1: timeout'' @ nl) a else Some a);
     if reply_err rep \<noteq> 0 then server_recv ec uart_putc capability msg a
     else Some ((msg, rep), a) }"

definition server_main_round :: "'w ecall \<Rightarrow> putc \<Rightarrow> (s3k_reply_t \<Rightarrow> u32 \<Rightarrow> 'w app \<Rightarrow> (s3k_msg_t \<times> 'w app) option)
    \<Rightarrow> bool \<Rightarrow> s3k_msg_t \<Rightarrow> 'w app \<Rightarrow> (s3k_msg_t \<times> 'w app) option" where
  "server_main_round ec uart_putc handler capability msg a = do {
     ((msg, rep), a) \<leftarrow> server_recv ec uart_putc capability msg a;
     handler rep (ucast (cap_idx msg)) a }"

partial_function (option) wait_for_app1_blocked :: "'w ecall \<Rightarrow> putc \<Rightarrow> 'w app \<Rightarrow> 'w app option" where
  "wait_for_app1_blocked ec uart_putc a = do {
     a \<leftarrow> app_puts uart_putc (''APP0: waiting loop'' @ nl) a;
     ((e, state), a) \<leftarrow> on_world (s3k_mon_state_get ec MONITOR APP1_PID) a;
     if e \<noteq> 0 then wait_for_app1_blocked ec uart_putc a
     else if state AND PSF_BLOCKED \<noteq> 0 then Some a
     else do {
       a \<leftarrow> app_puts uart_putc (''APP0: waiting 1'' @ nl) a;
       (e, a) \<leftarrow> on_world (s3k_mon_yield ec MONITOR APP1_PID) a;
       a \<leftarrow> app_puts uart_putc (''APP0: waiting 2'' @ nl) a;
       wait_for_app1_blocked ec uart_putc a } }"

partial_function (option) recv_while_timeout ::
  "'w ecall \<Rightarrow> putc \<Rightarrow> string \<Rightarrow> cidx_t \<Rightarrow> cidx_t \<Rightarrow> s3k_reply_t \<Rightarrow> 'w app \<Rightarrow> (s3k_reply_t \<times> 'w app) option" where
  "recv_while_timeout ec uart_putc str sock buf rep a =
    (if reply_err rep = S3K_ERR_TIMEOUT then do {
       a \<leftarrow> app_puts uart_putc str a;
       (rep, a) \<leftarrow> on_world (s3k_sock_recv ec sock buf) a;
       recv_while_timeout ec uart_putc str sock buf rep a }
     else Some (rep, a))"

partial_function (option) send_receive_loop ::
  "'w ecall \<Rightarrow> putc \<Rightarrow> string \<Rightarrow> cidx_t \<Rightarrow> s3k_msg_t \<Rightarrow> 'w app \<Rightarrow> (s3k_reply_t \<times> 'w app) option" where
  "send_receive_loop ec uart_putc str sock msg a = do {
     (rep, a) \<leftarrow> on_world (s3k_sock_sendrecv ec sock msg) a;
     (rep, a) \<leftarrow> recv_while_timeout ec uart_putc str sock (cap_idx msg) rep a;
     if reply_err rep \<noteq> 0 then send_receive_loop ec uart_putc str sock msg a
     else Some (rep, a) }"

definition send_receive_forever :: "'w ecall \<Rightarrow> putc \<Rightarrow> u64 \<Rightarrow> s3k_msg_t \<Rightarrow> 'w app \<Rightarrow> (s3k_reply_t \<times> 'w app) option" where
  "send_receive_forever ec uart_putc sock msg a = send_receive_loop ec uart_putc ''APP0: timeout'' (ucast sock) msg a"

section \<open>The examples \<open>hello\<close> and \<open>ping-pong\<close>\<close>

definition hello_setup_uart :: "'w ecall \<Rightarrow> u64 \<Rightarrow> 'w \<Rightarrow> 'w option" where
  "hello_setup_uart ec uart_idx w = do {
     let uart_addr = s3k_napot_encode UART0_BASE_ADDR 0x8;
     (e, w) \<leftarrow> s3k_cap_derive ec UART_MEM (ucast uart_idx) (s3k_mk_pmp uart_addr S3K_MEM_RW) w;
     (e, w) \<leftarrow> s3k_pmp_load ec (ucast uart_idx) 1 w;
     let (_, w) = s3k_sync_mem ec w;
     Some w }"

text \<open>The part of \<open>setup_app1\<close> that \<open>hello\<close> and \<open>ping-pong\<close> share, up to the time capability.\<close>

definition setup_app1_memory :: "'w ecall \<Rightarrow> u64 \<Rightarrow> 'w \<Rightarrow> 'w option" where
  "setup_app1_memory ec tmp w = do {
     let uart_addr = s3k_napot_encode UART0_BASE_ADDR 0x8;
     let app1_addr = s3k_napot_encode 0x80020000 0x10000;
     (e, w) \<leftarrow> s3k_cap_derive ec RAM_MEM (ucast tmp) (s3k_mk_pmp app1_addr S3K_MEM_RWX) w;
     (e, w) \<leftarrow> s3k_mon_cap_move ec MONITOR APP0_PID (ucast tmp) APP1_PID 0 w;
     (e, w) \<leftarrow> s3k_mon_pmp_load ec MONITOR APP1_PID 0 0 w;
     (e, w) \<leftarrow> s3k_cap_derive ec UART_MEM (ucast tmp) (s3k_mk_pmp uart_addr S3K_MEM_RW) w;
     (e, w) \<leftarrow> s3k_mon_cap_move ec MONITOR APP0_PID (ucast tmp) APP1_PID 1 w;
     (e, w) \<leftarrow> s3k_mon_pmp_load ec MONITOR APP1_PID 1 1 w;
     Some w }"

definition hello_setup_app1 :: "'w ecall \<Rightarrow> u64 \<Rightarrow> 'w \<Rightarrow> 'w option" where
  "hello_setup_app1 ec tmp w = do {
     w \<leftarrow> setup_app1_memory ec tmp w;
     (e, w) \<leftarrow> s3k_mon_cap_move ec MONITOR APP0_PID HART1_TIME APP1_PID 2 w;
     (e, w) \<leftarrow> s3k_mon_reg_write ec MONITOR APP1_PID S3K_REG_PC 0x80020000 w;
     (e, w) \<leftarrow> s3k_mon_resume ec MONITOR APP1_PID w;
     Some w }"

definition pong_setup_app1 :: "'w ecall \<Rightarrow> u64 \<Rightarrow> 'w \<Rightarrow> 'w option" where
  "pong_setup_app1 ec tmp w = do {
     w \<leftarrow> setup_app1_memory ec tmp w;
     (e, w) \<leftarrow> s3k_mon_cap_move ec MONITOR APP0_PID HART0_TIME APP1_PID 2 w;
     (e, w) \<leftarrow> s3k_mon_reg_write ec MONITOR APP1_PID S3K_REG_PC 0x80020000 w;
     Some w }"

definition pong_setup_socket :: "'w ecall \<Rightarrow> u64 \<Rightarrow> u64 \<Rightarrow> 'w \<Rightarrow> 'w option" where
  "pong_setup_socket ec socket tmp w = do {
     (e, w) \<leftarrow> s3k_cap_derive ec CHANNEL (ucast socket) (s3k_mk_socket 0 IPC_YIELD (IPC_SDATA OR IPC_CDATA) 0) w;
     (e, w) \<leftarrow> s3k_cap_derive ec (ucast socket) (ucast tmp) (s3k_mk_socket 0 IPC_YIELD (IPC_SDATA OR IPC_CDATA) 1) w;
     (e, w) \<leftarrow> s3k_mon_cap_move ec MONITOR APP0_PID (ucast tmp) APP1_PID 3 w;
     Some w }"

text \<open>
  \<open>main\<close> of \<open>hello/app0\<close>. The text and its terminator are stored in an array of 12 characters; a
  longer text is undefined behaviour.
\<close>

definition hello_main :: "'w ecall \<Rightarrow> putc \<Rightarrow> 'w app \<Rightarrow> 'w app option" where
  "hello_main ec uart_putc a = do {
     w \<leftarrow> hello_setup_uart ec 10 (fst a);
     w \<leftarrow> hello_setup_app1 ec 11 w;
     (buf, n) \<leftarrow> alt_snprintf 64 ''hello, world from app%x'' [VNum 0];
     if n + 1 > 12 then None
     else do {
       a \<leftarrow> app_puts uart_putc buf (w, snd a);
       app_puts uart_putc ''bye from app0'' a } }"

lemma hello_text: "alt_snprintf 64 ''hello, world from app%x'' [VNum 0] = Some (''hello, world from app0'', 22)"
  by code_simp

lemma hello_main_overflows: "hello_main ec uart_putc a = None"
  by (simp add: hello_main_def hello_text bind_eq_None_conv)

definition hello_main1 :: "putc \<Rightarrow> 'w app \<Rightarrow> 'w app option" where
  "hello_main1 uart_putc a = do {
     a \<leftarrow> app_puts uart_putc ''hello, world from app1'' a;
     app_puts uart_putc ''bye from app1'' a }"

text \<open>\<open>main\<close> of \<open>ping-pong/app0\<close> up to its endless loop, and one round of that loop.\<close>

definition pong_main_start :: "'w ecall \<Rightarrow> putc \<Rightarrow> 'w app \<Rightarrow> 'w app option" where
  "pong_main_start ec uart_putc a = do {
     (e, w) \<leftarrow> s3k_cap_delete ec HART1_TIME (fst a);
     (e, w) \<leftarrow> s3k_cap_delete ec HART2_TIME w;
     (e, w) \<leftarrow> s3k_cap_delete ec HART3_TIME w;
     w \<leftarrow> hello_setup_uart ec 10 w;
     a \<leftarrow> app_puts uart_putc ''starting app0'' (w, snd a);
     w \<leftarrow> pong_setup_app1 ec 11 (fst a);
     w \<leftarrow> pong_setup_socket ec 11 12 w;
     (cp, w) \<leftarrow> cap_read_loop ec 1 w;
     (e, w) \<leftarrow> s3k_mon_resume ec MONITOR APP1_PID w;
     Some (w, snd a) }"

partial_function (option) sendrecv_until_ok ::
  "'w ecall \<Rightarrow> cidx_t \<Rightarrow> s3k_msg_t \<Rightarrow> 'w \<Rightarrow> (s3k_reply_t \<times> 'w) option" where
  "sendrecv_until_ok ec sock msg w = do {
     (rep, w) \<leftarrow> s3k_sock_sendrecv ec sock msg w;
     if reply_err rep \<noteq> 0 then sendrecv_until_ok ec sock msg w else Some (rep, w) }"

text \<open>The words of a reply read as a string: the bytes of the words up to the first zero.\<close>

definition word_bytes :: "u64 \<Rightarrow> string" where
  "word_bytes w = map (\<lambda>i. char_of (unat (ucast (drop_bit (8 * i) w) :: u8))) [0..<8]"

definition reply_str :: "s3k_reply_t \<Rightarrow> string" where
  "reply_str rep = takeWhile (\<lambda>c. c \<noteq> CHR 0x00) (concat (map word_bytes (reply_data rep)))"

definition pong_round :: "'w ecall \<Rightarrow> putc \<Rightarrow> s3k_msg_t \<Rightarrow> 'w app \<Rightarrow> 'w app option" where
  "pong_round ec uart_putc msg a = do {
     (rep, a) \<leftarrow> on_world (sendrecv_until_ok ec 11 msg) a;
     app_puts uart_putc (reply_str rep) a }"

definition ping_round :: "'w ecall \<Rightarrow> putc \<Rightarrow> s3k_msg_t \<Rightarrow> 'w app \<Rightarrow> 'w app option" where
  "ping_round ec uart_putc msg a = do {
     (rep, a) \<leftarrow> send_receive_loop ec uart_putc ''timeout'' 3 msg a;
     app_puts uart_putc (reply_str rep) a }"

definition trapped_handler :: "'w ecall \<Rightarrow> putc \<Rightarrow> 'w app \<Rightarrow> 'w app option" where
  "trapped_handler ec uart_putc a = do {
     let (epc, w) = s3k_reg_read ec S3K_REG_EPC (fst a);
     let (esp, w) = s3k_reg_read ec S3K_REG_ESP w;
     let (ecause, w) = s3k_reg_read ec S3K_REG_ECAUSE w;
     let (eval, w) = s3k_reg_read ec S3K_REG_EVAL w;
     w \<leftarrow> hello_setup_uart ec 16 w;
     a \<leftarrow> app_puts uart_putc ''uart is now setup!'' (w, snd a);
     a \<leftarrow> app_printf uart_putc (''error info:'' @ nl @ ''- epc: 0x%x'' @ nl @ ''- esp: 0x%x'' @ nl
       @ ''- ecause: 0x%x'' @ nl @ ''- eval: 0x%x'' @ nl) [VNum epc, VNum esp, VNum ecause, VNum eval] a;
     app_printf uart_putc (''restoring pc and sp'' @ nl @ nl) [] a }"

end
