(* ===== verification/Authority.thy ===== *)
theory Authority
  imports Trap
begin

text \<open>
  The authority that capabilities give, and how system calls change the capability table.
  A capability grants rights on slots of the schedule, bytes of memory, processes and
  channels. Every change that the kernel makes to the table is one of a few elementary steps:
  a capability is replaced by one that grants no more, deleted, moved, or a capability that
  grants no more than an existing one is inserted after it. Hence no system call creates
  authority, and the ring of the table survives all of them.
\<close>

section \<open>Rights\<close>

text \<open>
  \<open>RTime hart slot\<close>, \<open>RMem address permission-bit\<close>, \<open>RProc pid\<close> and \<open>RChan channel\<close>.
\<close>

datatype right = RTime nat nat | RMem nat nat | RProc nat | RChan nat

fun grants :: "cap \<Rightarrow> right \<Rightarrow> bool" where
  "grants (TimeCap pad hart bgn mrk end') (RTime h i) \<longleftrightarrow> unat hart = h \<and> unat bgn \<le> i \<and> i < unat end'"
| "grants (MemCap rwx lck tag bgn mrk end') (RMem a k) \<longleftrightarrow>
     unat (tag_block_to_addr tag bgn) \<le> a \<and> a < unat (tag_block_to_addr tag end') \<and> bit rwx k"
| "grants (PmpCap rwx used slot addr) (RMem a k) \<longleftrightarrow>
     (let (base, sz) = pmp_napot_decode (ucast addr)
      in unat base \<le> a \<and> a < unat base + unat sz \<and> bit rwx k)"
| "grants (MonCap pad bgn mrk end') (RProc p) \<longleftrightarrow> unat bgn \<le> p \<and> p < unat end'"
| "grants (ChanCap pad bgn mrk end') (RChan c) \<longleftrightarrow> unat bgn \<le> c \<and> c < unat end'"
| "grants (SockCap mode perm chan tag) (RChan c) \<longleftrightarrow> unat chan = c"
| "grants _ _ \<longleftrightarrow> False"

definition weaker :: "cap \<Rightarrow> cap \<Rightarrow> bool" where
  "weaker c d \<longleftrightarrow> (\<forall>r. grants c r \<longrightarrow> grants d r)"

lemma weaker_refl [simp]: "weaker c c"
  by (simp add: weaker_def)

lemma weaker_NoCap [simp]: "weaker (NoCap r) c"
  by (simp add: weaker_def)

text \<open>The mark, the lock and the PMP slot of a capability do not matter for its rights.\<close>

lemma grants_mark:
  "grants (TimeCap pad hart bgn mrk end') = grants (TimeCap pad hart bgn mrk' end')"
  "grants (MemCap rwx lck tag bgn mrk end') = grants (MemCap rwx lck' tag bgn mrk' end')"
  "grants (PmpCap rwx used slot addr) = grants (PmpCap rwx used' slot' addr)"
  "grants (MonCap mpad bgn mrk end') = grants (MonCap mpad bgn mrk' end')"
  "grants (ChanCap mpad bgn mrk end') = grants (ChanCap mpad bgn mrk' end')"
  by (rule ext, case_tac x; simp)+

section \<open>Deriving never amplifies rights\<close>

lemma tag_block_mono: "a \<le> b \<Longrightarrow> unat (tag_block_to_addr tag a) \<le> unat (tag_block_to_addr tag b)"
  by (simp add: unat_tag_block word_le_nat_alt)

lemma uint_push2:
  fixes w :: u64
  assumes "uint w \<le> 2 ^ 60"
  shows "uint (push_bit 2 w) = 4 * uint w"
proof -
  have "uint (push_bit 2 w) = take_bit 64 (uint w * 4)"
    unfolding unsigned_push_bit_eq by (simp add: push_bit_eq_mult)
  then show ?thesis using assms by (simp add: take_bit_int_eq_self)
qed

lemma uint_push2_le: "uint w \<le> 2 ^ n \<Longrightarrow> n \<le> 60 \<Longrightarrow> uint (push_bit 2 w) \<le> 4 * 2 ^ n" for w :: u64
proof -
  assume w: "uint w \<le> 2 ^ n" "n \<le> 60"
  have "(2 :: int) ^ n \<le> 2 ^ 60" using w(2) by (intro power_increasing) simp_all
  with w(1) show ?thesis by (subst uint_push2) linarith+
qed

lemma uint_plus_small: "uint a \<le> 2 ^ 60 \<Longrightarrow> uint b \<le> 2 ^ 60 \<Longrightarrow> uint (a + b) = uint a + uint b" for a b :: u64
  by (simp add: uint_word_ariths)

lemma uint_plus1: "uint w < 2 ^ 60 \<Longrightarrow> uint (w + 1) = uint w + 1" for w :: u64
  by (simp add: uint_word_ariths)

lemma napot_bounds:
  fixes addr :: "48 word"
  assumes "pmp_napot_decode (ucast addr) = (base, sz)"
  shows "unat (sz + base) = unat sz + unat base"
proof -
  let ?a = "ucast addr :: u64"
  have a: "uint ?a < 2 ^ 48" using uint_lt2p [of addr] by (simp add: unsigned_ucast_eq take_bit_int_eq_self)
  have a1: "uint (?a + 1) = uint ?a + 1" using a by (intro uint_plus1) simp
  have n: "uint ((?a + 1) AND ?a) < 2 ^ 48"
    unfolding uint_and by (rule order.strict_trans1 [OF AND_upper2 a]) simp
  have x: "uint ((?a + 1) XOR ?a) < 2 ^ 49"
    unfolding uint_xor a1 using a by (intro XOR_upper) simp_all
  have x1: "uint (((?a + 1) XOR ?a) + 1) = uint ((?a + 1) XOR ?a) + 1" using x by (intro uint_plus1) simp
  have bs: "base = push_bit 2 ((?a + 1) AND ?a)" "sz = push_bit 2 (((?a + 1) XOR ?a) + 1)"
    using assms by (simp_all add: pmp_napot_decode_def)
  have "uint base \<le> 4 * 2 ^ 48" unfolding bs by (rule uint_push2_le [OF less_imp_le [OF n]]) simp
  moreover have "uint (((?a + 1) XOR ?a) + 1) \<le> 2 ^ 49" unfolding x1 using x by linarith
  then have "uint sz \<le> 4 * 2 ^ 49" unfolding bs by (rule uint_push2_le) simp
  ultimately have "uint (sz + base) = uint sz + uint base" by (intro uint_plus_small) simp_all
  then show ?thesis unfolding unat_eq_nat_uint by (simp only: nat_add_distrib unsigned_greater_eq)
qed

lemma derive_time_weaker:
  "\<lbrakk>cap_ok (TimeCap pad hart bgn mrk end'); nhart = hart; nbgn = mrk; nend \<le> end'\<rbrakk>
    \<Longrightarrow> weaker (TimeCap npad nhart nbgn nmrk nend) (TimeCap pad hart bgn mrk end')"
  unfolding weaker_def by (rule allI, case_tac r) (auto simp: word_le_nat_alt)

lemma bit_subset: "n AND m = n \<Longrightarrow> bit n k \<Longrightarrow> bit m k" for n m :: rwx_t
  by (metis bit_and_iff)

lemma derive_memory_weaker:
  assumes "cap_ok (MemCap rwx lck tag bgn mrk end')" "mrk \<le> nbgn" "nend \<le> end'" "nrwx AND rwx = nrwx"
  shows "weaker (MemCap nrwx nlck tag nbgn nmrk nend) (MemCap rwx lck tag bgn mrk end')"
proof -
  have "bgn \<le> nbgn" using assms(1,2) by auto
  note m = tag_block_mono [OF this, of tag] tag_block_mono [OF assms(3), of tag] bit_subset [OF assms(4)]
  show ?thesis unfolding weaker_def by (rule allI, case_tac r) (use m in auto)
qed

lemma derive_pmp_weaker:
  assumes "cap_ok (MemCap rwx lck tag bgn mrk end')" "pmp_napot_decode (ucast addr) = (base, sz)"
    and "tag_block_to_addr tag mrk \<le> base" "sz + base \<le> tag_block_to_addr tag end'" "nrwx AND rwx = nrwx"
  shows "weaker (PmpCap nrwx used slot addr) (MemCap rwx lck tag bgn mrk end')"
proof -
  have "bgn \<le> mrk" using assms(1) by simp
  from tag_block_mono [OF this, of tag] assms(3)
  have b: "unat (tag_block_to_addr tag bgn) \<le> unat base" by (simp add: word_le_nat_alt)
  have e: "unat base + unat sz \<le> unat (tag_block_to_addr tag end')"
    using assms(4) napot_bounds [OF assms(2)] by (simp add: word_le_nat_alt)
  show ?thesis
    unfolding weaker_def by (rule allI, case_tac r) (use b e assms(2) bit_subset [OF assms(5)] in auto)
qed

lemma derive_range_weaker:
  "\<lbrakk>cap_ok (MonCap pad bgn mrk end'); mrk \<le> nbgn; nend \<le> end'\<rbrakk>
    \<Longrightarrow> weaker (MonCap npad nbgn nmrk nend) (MonCap pad bgn mrk end')"
  "\<lbrakk>cap_ok (ChanCap pad bgn mrk end'); mrk \<le> nbgn; nend \<le> end'\<rbrakk>
    \<Longrightarrow> weaker (ChanCap npad nbgn nmrk nend) (ChanCap pad bgn mrk end')"
  "\<lbrakk>cap_ok (ChanCap pad bgn mrk end'); mrk \<le> chan; chan < end'\<rbrakk>
    \<Longrightarrow> weaker (SockCap mode perm chan tag) (ChanCap pad bgn mrk end')"
  unfolding weaker_def by (rule allI, case_tac r; auto simp: word_le_nat_alt word_less_nat_alt)+

section \<open>Elementary steps of the capability table\<close>

text \<open>Replacing a capability by one of the same type that grants no more.\<close>

inductive table_put :: "cte list \<Rightarrow> cte list \<Rightarrow> bool" where
  "\<lbrakk>c < length ct; cap_type cp = cap_type (cte_cap ct c); weaker cp (cte_cap ct c)\<rbrakk>
    \<Longrightarrow> table_put ct (cte_set_cap ct c cp)"

text \<open>
  The other steps: a deletion, an insertion after a stronger capability, and the round of
  revocation in which the only capability of the table meets itself.
\<close>

inductive table_step :: "cte list \<Rightarrow> cte list \<Rightarrow> bool" where
  put: "table_put ct ct' \<Longrightarrow> table_step ct ct'"
| del: "\<lbrakk>c < length ct; \<not> cte_is_empty ct c\<rbrakk> \<Longrightarrow> table_step ct (cte_delete ct c)"
| ins: "\<lbrakk>c < length ct; cte_is_empty ct c; p < length ct; \<not> cte_is_empty ct p;
      cap_type cp \<noteq> CAPTY_NONE; weaker cp (cte_cap ct p)\<rbrakk> \<Longrightarrow> table_step ct (cte_insert ct c cp p)"
| self: "\<lbrakk>c < length ct; \<not> cte_is_empty ct c; cte_next ct c = c; cap_type cp = cap_type (cte_cap ct c);
      weaker cp (cte_cap ct c)\<rbrakk> \<Longrightarrow> table_step ct (cte_set_cap (cte_delete ct c) c cp)"

inductive table_move :: "cte list \<Rightarrow> cte list \<Rightarrow> bool" where
  "\<lbrakk>src < length ct; dst < length ct; \<not> cte_is_empty ct src; cte_is_empty ct dst\<rbrakk>
    \<Longrightarrow> table_move ct (cte_move ct src dst)"

text \<open>
  What one system call does to the table: some replacements, at most one move, and then any
  of the other steps.
\<close>

definition table_path :: "cte list \<Rightarrow> cte list \<Rightarrow> bool" where
  "table_path ct ct' \<longleftrightarrow> (\<exists>a b. table_put\<^sup>*\<^sup>* ct a \<and> (a = b \<or> table_move a b) \<and> table_step\<^sup>*\<^sup>* b ct')"

lemma table_path_refl [simp]: "table_path ct ct"
  by (auto simp: table_path_def)

lemma table_path_steps: "table_step\<^sup>*\<^sup>* ct ct' \<Longrightarrow> table_path ct ct'"
  by (auto simp: table_path_def)

lemma table_path_step: "table_step ct ct' \<Longrightarrow> table_path ct ct'"
  by (auto simp: table_path_def)

lemma table_path_trans: "table_path ct a \<Longrightarrow> table_step\<^sup>*\<^sup>* a ct' \<Longrightarrow> table_path ct ct'"
  unfolding table_path_def by (blast intro: rtranclp_trans)

section \<open>The steps create no authority\<close>

text \<open>A right is held when an entry of the table grants it.\<close>

definition held :: "cte list \<Rightarrow> right \<Rightarrow> bool" where
  "held ct r \<longleftrightarrow> (\<exists>c < length ct. grants (cte_cap ct c) r)"

lemma held_put: "table_put ct ct' \<Longrightarrow> held ct' r \<Longrightarrow> held ct r"
  by (auto simp: held_def cte_get_set weaker_def elim!: table_put.cases split: if_splits)

lemma held_step: "table_step ct ct' \<Longrightarrow> held ct' r \<Longrightarrow> held ct r"
proof (induction rule: table_step.induct)
  case (put ct ct')
  then show ?case by (rule held_put)
qed (auto simp: held_def cte_get_set cte_cap_ops weaker_def split: if_splits)

lemma held_move: "table_move ct ct' \<Longrightarrow> held ct' r \<Longrightarrow> held ct r"
proof (induction rule: table_move.induct)
  case (1 src ct dst)
  then have "src \<noteq> dst" by auto
  with 1 show ?case by (auto simp: held_def cte_cap_ops split: if_splits)
qed

lemma held_star:
  assumes "R\<^sup>*\<^sup>* ct ct'" "\<And>a b. R a b \<Longrightarrow> held b r \<Longrightarrow> held a r" "held ct' r"
  shows "held ct r"
  using assms(1,3) by (induction rule: rtranclp_induct) (auto dest: assms(2))

lemma held_path:
  assumes "table_path ct ct'" "held ct' r"
  shows "held ct r"
proof -
  from assms(1) obtain a b where p: "table_put\<^sup>*\<^sup>* ct a" "a = b \<or> table_move a b" "table_step\<^sup>*\<^sup>* b ct'"
    by (auto simp: table_path_def)
  have "held b r" by (rule held_star [OF p(3) _ assms(2)]) (rule held_step)
  with p(2) have "held a r" using held_move by auto
  then show ?thesis by (rule held_star [OF p(1), rotated]) (rule held_put)
qed

section \<open>The steps keep the ring\<close>

lemma ring_memD: "ring ct xs \<Longrightarrow> c \<in> set xs \<longleftrightarrow> c < length ct \<and> \<not> cte_is_empty ct c"
  using ringD(2) [of ct xs] by (simp add: occupied_def)

lemma ring_put: "table_put ct ct' \<Longrightarrow> ring ct xs \<Longrightarrow> ring ct' xs"
proof (induction rule: table_put.induct)
  case (1 c ct cp)
  show ?case
  proof (cases "cte_is_empty ct c")
    case True
    then have "occupied (cte_set_cap ct c cp) = occupied ct"
      using 1(1,2) by (auto simp: occupied_def cte_is_empty_def cte_get_set)
    with 1(4) show ?thesis by (simp add: ring_def)
  next
    case False
    with 1 show ?thesis by (intro ring_set_cap) (simp_all add: ring_memD cte_is_empty_def)
  qed
qed

lemma ring_self:
  assumes r: "ring ct xs" and c: "c \<in> set xs" "cte_next ct c = c" and cp: "cap_type cp \<noteq> CAPTY_NONE"
  shows "ring (cte_set_cap (cte_delete ct c) c cp) xs"
proof -
  note d = ringD [OF r]
  have n: "ring_next xs c = c" using d(4) [OF c(1)] c(2) by simp
  have "\<not> 2 \<le> length xs" using ring_next_neq [OF d(1) c(1)] n by auto
  with c(1) have xs: "xs = [c]" by (cases xs rule: remdups_adj.cases) auto
  have prev: "cte_prev ct c = c" using d(5) [OF c(1)] n by simp
  have l: "c < length ct" using d(3) [OF c(1)] .
  let ?ct = "cte_set_cap (cte_delete ct c) c cp"
  have nx: "cte_next ?ct c = c" and pv: "cte_prev ?ct c = c"
    using l c(2) prev by (simp_all add: cte_delete_def Let_def cte_get_set)
  have "occupied ?ct = occupied ct"
    using d(2) cp l xs by (auto simp: occupied_def cte_is_empty_def cte_get_set cte_cap_ops)
  with d(2) xs have "occupied ?ct = {c}" by simp
  with xs nx pv n show ?thesis by (simp add: ring_def)
qed

lemma ring_step: "table_step ct ct' \<Longrightarrow> \<exists>xs. ring ct xs \<Longrightarrow> \<exists>ys. ring ct' ys"
proof (induction rule: table_step.induct)
  case (put ct ct')
  then show ?case using ring_put by blast
next
  case (del c ct)
  then show ?case using ring_delete by (metis ring_memD)
next
  case (ins c ct p cp)
  then show ?case using ring_insert by (metis ring_memD)
next
  case (self c ct cp)
  then show ?case using ring_self by (metis ring_memD cte_is_empty_def)
qed

lemma ring_puts: "table_put\<^sup>*\<^sup>* ct ct' \<Longrightarrow> ring ct xs \<Longrightarrow> ring ct' xs"
  by (induction rule: rtranclp_induct) (auto dest: ring_put)

lemma ring_steps: "table_step\<^sup>*\<^sup>* ct ct' \<Longrightarrow> \<exists>xs. ring ct xs \<Longrightarrow> \<exists>ys. ring ct' ys"
  by (induction rule: rtranclp_induct) (auto dest: ring_step)

lemma ring_path:
  assumes "table_path ct ct'" "ring ct xs" "2 \<le> length xs"
  shows "\<exists>ys. ring ct' ys"
proof -
  from assms(1) obtain a b where p: "table_put\<^sup>*\<^sup>* ct a" "a = b \<or> table_move a b" "table_step\<^sup>*\<^sup>* b ct'"
    by (auto simp: table_path_def)
  have a: "ring a xs" using ring_puts [OF p(1) assms(2)] .
  have "\<exists>ys. ring b ys" using p(2)
  proof
    assume "table_move a b"
    then show ?thesis
      by (cases rule: table_move.cases) (use ring_move [OF a assms(3)] ring_memD [OF a] in blast)
  qed (use a in blast)
  with ring_steps [OF p(3)] show ?thesis .
qed

section \<open>The operations follow the steps\<close>

text \<open>A computation that only takes steps of the table, or a whole path.\<close>

abbreviation follows :: "kstate \<Rightarrow> ('e \<times> kstate) option \<Rightarrow> bool" where
  "follows s m \<equiv> (\<forall>e s'. m = Some (e, s') \<longrightarrow> table_path (ctable s) (ctable s'))"

lemma putI:
  "\<lbrakk>c < length ct; cap_type cp = cap_type (cte_cap ct c); grants cp = grants (cte_cap ct c)\<rbrakk>
    \<Longrightarrow> table_put ct (cte_set_cap ct c cp)"
  by (rule table_put.intros) (simp_all add: weaker_def)

lemma sched_delete_ctable: "sched_delete s hart from to = Some s' \<Longrightarrow> ctable s' = ctable s"
  by (auto simp: sched_delete_def bind_eq_Some_conv split: if_splits)

lemma cap_ipc_move_hook_path:
  assumes "cap_ipc_move_hook s src dst = Some s'" "src < length (ctable s)"
  shows "table_put\<^sup>*\<^sup>* (ctable s) (ctable s')"
proof (cases "cte_cap (ctable s) src")
  case (PmpCap rwx used slot addr)
  have "table_put (ctable s) (cte_set_cap (ctable s) src (PmpCap rwx False 0 addr))"
    by (rule putI) (use assms(2) PmpCap grants_mark(3) in auto)
  with assms(1) PmpCap show ?thesis
    by (auto simp: cap_ipc_move_hook_def bind_eq_Some_conv split: if_splits
        dest!: proc_pmp_unload_ctable)
qed (use assms in \<open>auto simp: cap_ipc_move_hook_def dest!: sched_update_ctable\<close>)

lemma cap_move_path:
  assumes inv: "kinv s" and c: "src < length (ctable s)" "dst < length (ctable s)"
    and m: "cap_move s src dst = Some (e, s')"
  shows "\<exists>a. table_put\<^sup>*\<^sup>* (ctable s) a \<and> (a = ctable s' \<or> table_move a (ctable s'))"
proof (cases "cte_is_empty (ctable s) src \<or> \<not> cte_is_empty (ctable s) dst")
  case True
  with m show ?thesis by (auto simp: cap_move_def split: if_splits)
next
  case False
  with m obtain t where t: "(if cte_pid src \<noteq> cte_pid dst then cap_ipc_move_hook s src dst else Some s) = Some t"
    and s': "ctable s' = cte_move (ctable t) src dst"
    by (auto simp: cap_move_def bind_eq_Some_conv)
  have hook: "table_put\<^sup>*\<^sup>* (ctable s) (ctable t)"
    using t cap_ipc_move_hook_path [of s src dst t] c by (auto split: if_splits)
  have "length (ctable t) = length (ctable s)
      \<and> (\<forall>x < length (ctable s). cap_type (cte_cap (ctable t) x) = cap_type (cte_cap (ctable s) x))"
    using t cap_ipc_move_hook_ok [OF inv c] by (auto split: if_splits)
  with False c have "table_move (ctable t) (ctable s')"
    unfolding s' by (intro table_move.intros) (simp_all add: cte_is_empty_def)
  with hook show ?thesis by blast
qed

lemma cap_delete_path:
  assumes c: "c < length (ctable s)" and d: "cap_delete s c = Some (e, s')"
  shows "table_step\<^sup>*\<^sup>* (ctable s) (ctable s')"
proof (cases "cte_is_empty (ctable s) c")
  case True
  with d show ?thesis by (simp add: cap_delete_def)
next
  case False
  have "table_step (ctable s) (cte_delete (ctable s) c)" using c False by (rule table_step.del)
  moreover have "ctable s' = cte_delete (ctable s) c"
    using d False
    by (cases "cte_cap (ctable s) c")
      (auto simp: cap_delete_def cap_delete_time_def cap_delete_memory_def cap_delete_pmp_def
        cap_delete_monitor_def cap_delete_channel_def cap_delete_socket_def bind_eq_Some_conv
        split: if_splits dest!: sched_delete_ctable proc_pmp_unload_ctable cap_sock_clear_ctable)
  ultimately show ?thesis by auto
qed

text \<open>A derivation overwrites the source and inserts the new capability after it.\<close>

lemma derive_path:
  assumes "src < length ct" "dst < length ct" "\<not> cte_is_empty ct src" "cte_is_empty ct dst"
    and "cap_type cp = cap_type (cte_cap ct src)" "grants cp = grants (cte_cap ct src)"
    and "cap_type ncap \<noteq> CAPTY_NONE" "weaker ncap (cte_cap ct src)"
  shows "table_step\<^sup>*\<^sup>* ct (cte_insert (cte_set_cap ct src cp) dst ncap src)"
proof -
  let ?ct = "cte_set_cap ct src cp"
  have ne: "src \<noteq> dst" using assms(3,4) by auto
  have "table_step ct ?ct" using assms(1,5,6) by (intro table_step.put putI)
  moreover have "table_step ?ct (cte_insert ?ct dst ncap src)"
    using assms ne by (intro table_step.ins) (auto simp: cte_is_empty_def cte_get_set weaker_def)
  ultimately show ?thesis by (meson r_into_rtranclp rtranclp.rtrancl_into_rtrancl)
qed

text \<open>
  A successful derivation inserts the new capability behind the source, whose rights stay as they
  are, and the new capability grants no more than the source.
\<close>

lemma cap_derive_shape:
  assumes inv: "kinv s" and src: "src < length (ctable s)" and d: "cap_derive s src dst ncap = Some (SUCCESS, s')"
  shows "cte_is_empty (ctable s) dst \<and> weaker ncap (cte_cap (ctable s) src) \<and> cap_type ncap \<noteq> CAPTY_NONE
    \<and> (\<exists>cp. ctable s' = cte_insert (cte_set_cap (ctable s) src cp) dst ncap src
        \<and> cap_type cp = cap_type (cte_cap (ctable s) src) \<and> grants cp = grants (cte_cap (ctable s) src))"
proof -
  have dst: "cte_is_empty (ctable s) dst" using d by (auto simp: cap_derive_def split: if_splits)
  have shape: ?thesis
    if "weaker ncap (cte_cap (ctable s) src)" "cap_type ncap \<noteq> CAPTY_NONE"
      "ctable s' = cte_insert (cte_set_cap (ctable s) src cp) dst ncap src"
      "cap_type cp = cap_type (cte_cap (ctable s) src)" "grants cp = grants (cte_cap (ctable s) src)" for cp
    using dst that by blast
  have ok: "cap_ok (cte_cap (ctable s) src)" using kinv_cap_ok [OF inv src] .
  show ?thesis
  proof (cases "cte_cap (ctable s) src")
    case (TimeCap pad hart bgn mrk end')
    with d ok show ?thesis
      by (cases ncap) (auto simp: cap_derive_def cap_derive_time_def bind_eq_Some_conv split: if_splits
          dest!: sched_update_ctable intro!: shape derive_time_weaker grants_mark)
  next
    case (MemCap rwx lck tag bgn mrk end')
    show ?thesis
    proof (cases ncap)
      case m: (MemCap nrwx nlck ntag nbgn nmrk nend)
      with MemCap d ok show ?thesis
        by (auto simp: cap_derive_def cap_derive_memory_def Let_def split: if_splits
            intro!: shape derive_memory_weaker grants_mark)
    next
      case (PmpCap nrwx used slot addr)
      obtain base sz where dec: "pmp_napot_decode (ucast addr) = (base, sz)" by fastforce
      from derive_pmp_weaker [OF ok [unfolded MemCap] dec] PmpCap MemCap d show ?thesis
        by (auto simp: cap_derive_def cap_derive_memory_def Let_def dec split: if_splits
            intro!: shape grants_mark)
    qed (use MemCap d in \<open>auto simp: cap_derive_def cap_derive_memory_def split: if_splits\<close>)
  next
    case (MonCap pad bgn mrk end')
    with d ok show ?thesis
      by (cases ncap) (auto simp: cap_derive_def cap_derive_monitor_def Let_def split: if_splits
          intro!: shape derive_range_weaker grants_mark)
  next
    case (ChanCap pad bgn mrk end')
    with d ok show ?thesis
      by (cases ncap) (auto simp: cap_derive_def cap_derive_channel_def Let_def split: if_splits
          intro!: shape derive_range_weaker grants_mark)
  next
    case (SockCap mode perm chan tag)
    then have "weaker (SockCap m p chan tg) (cte_cap (ctable s) src)" for m p tg
      by (auto simp: weaker_def elim!: grants.elims)
    then have ?thesis if "ctable s' = cte_insert (ctable s) dst ncap src" "\<exists>m p t. ncap = SockCap m p chan t"
      using dst that cte_set_cap_id [of "ctable s" src] by (intro conjI exI [of _ "cte_cap (ctable s) src"]) auto
    with SockCap d show ?thesis
      by (cases ncap) (auto simp: cap_derive_def cap_derive_socket_def split: if_splits)
  qed (use d ok in \<open>auto simp: cap_derive_def cap_derive_pmp_def cte_is_empty_def split: if_splits\<close>)
qed

lemma derive_failed:
  "cap_derive s src dst cp = Some (e, s') \<Longrightarrow> e \<noteq> SUCCESS \<Longrightarrow> s' = s"
  by (cases "cte_cap (ctable s) src"; cases cp)
    (auto simp: cap_derive_def cap_derive_time_def cap_derive_memory_def cap_derive_pmp_def
      cap_derive_monitor_def cap_derive_channel_def cap_derive_socket_def bind_eq_Some_conv Let_def
      case_prod_beta split: if_splits)

lemma cap_derive_path:
  assumes inv: "kinv s" and c: "src < length (ctable s)" "dst < length (ctable s)"
    and d: "cap_derive s src dst ncap = Some (e, s')"
  shows "table_step\<^sup>*\<^sup>* (ctable s) (ctable s')"
proof (cases "e = SUCCESS")
  case True
  have "\<not> cte_is_empty (ctable s) src" using d True by (auto simp: cap_derive_def split: if_splits)
  with cap_derive_shape [OF inv c(1) d [unfolded True]] derive_path [OF c] show ?thesis by metis
qed (use derive_failed [OF d] in simp)

text \<open>One round of revocation: the next entry is deleted and the parent overwritten.\<close>

lemma revoke_path:
  assumes "p < length ct" "cte_next ct p < length ct" "\<not> cte_is_empty ct (cte_next ct p)"
    and "\<not> cte_is_empty ct p" "cap_type cp = cap_type (cte_cap ct p)" "grants cp = grants (cte_cap ct p)"
  shows "table_step\<^sup>*\<^sup>* ct (cte_set_cap (cte_delete ct (cte_next ct p)) p cp)"
proof (cases "cte_next ct p = p")
  case True
  with assms show ?thesis
    using table_step.self [of p ct cp] by (simp add: weaker_def)
next
  case False
  let ?ct = "cte_delete ct (cte_next ct p)"
  have "table_step ct ?ct" using assms(2,3) by (rule table_step.del)
  moreover have "table_step ?ct (cte_set_cap ?ct p cp)"
    using assms False by (intro table_step.put putI) (auto simp: cte_cap_ops)
  ultimately show ?thesis by (meson r_into_rtranclp rtranclp.rtrancl_into_rtrancl)
qed

lemma put_path:
  "\<lbrakk>p < length ct; cap_type cp = cap_type (cte_cap ct p); grants cp = grants (cte_cap ct p)\<rbrakk>
    \<Longrightarrow> table_step\<^sup>*\<^sup>* ct (cte_set_cap ct p cp)"
  by (intro r_into_rtranclp table_step.put putI)

lemma del_path: "c < length ct \<Longrightarrow> \<not> cte_is_empty ct c \<Longrightarrow> table_step\<^sup>*\<^sup>* ct (cte_delete ct c)"
  by (intro r_into_rtranclp table_step.del)

lemma kinv_next: "kinv s \<Longrightarrow> p < length (ctable s) \<Longrightarrow> cte_next (ctable s) p < length (ctable s)"
  using kinvD(1) table_okD(2) by blast

text \<open>The loop of \<open>cap_revoke\<close> takes the closure of the steps that its handler takes.\<close>

context revoke_handler
begin

lemma loop_closure:
  assumes "cap_revoke_loop h s p = Some (e, s')" "kinv s" "p < length (ctable s)" "pre (cte_cap (ctable s) p)"
    and step: "\<And>s e s'. \<lbrakk>kinv s; p < length (ctable s); pre (cte_cap (ctable s) p);
      h s p (cte_cap (ctable s) p) = Some (e, s')\<rbrakk> \<Longrightarrow> T\<^sup>*\<^sup>* (ctable s) (ctable s')"
  shows "T\<^sup>*\<^sup>* (ctable s) (ctable s')"
proof -
  let ?P = "\<lambda>g s q (r :: err_t \<times> kstate). g = h \<longrightarrow> q = p \<longrightarrow> kinv s \<longrightarrow> p < length (ctable s)
    \<longrightarrow> pre (cte_cap (ctable s) p) \<longrightarrow> T\<^sup>*\<^sup>* (ctable s) (ctable (snd r))"
  have "?P h s p (e, s')"
  proof (rule cap_revoke_loop.raw_induct [where P = ?P, OF _ assms(1)], intro impI)
    fix f g s q r
    assume IH: "\<And>g s q r. f g s q = Some r \<Longrightarrow> ?P g s q r"
      and body: "g s q (cte_cap (ctable s) q) \<bind> (\<lambda>(err, s). if err = CONTINUE
        then let (preempt, s) = kernel_preempt s in if preempt then Some (ERR_PREEMPTED, s) else f g s q
        else Some (SUCCESS, s)) = Some r"
      and g: "g = h" "q = p" and inv: "kinv s" "p < length (ctable s)" "pre (cte_cap (ctable s) p)"
    from handler_keeps [OF inv] obtain e1 s1 where h: "h s p (cte_cap (ctable s) p) = Some (e1, s1)"
      and s1: "kinv s1" "pre (cte_cap (ctable s1) p)" by (auto simp: ok_iff)
    have T: "T\<^sup>*\<^sup>* (ctable s) (ctable s1)" using step [OF inv h] .
    have l: "p < length (ctable s1)" using inv(2) kinv_lengths(1) [OF inv(1)] kinv_lengths(1) [OF s1(1)] by simp
    show "T\<^sup>*\<^sup>* (ctable s) (ctable (snd r))"
      using body IH [of h "s1\<lparr>reads := Suc (reads s1)\<rparr>" p r] s1 l T
      by (auto simp: g h kernel_preempt_def split: if_splits intro: rtranclp_trans)
  qed
  with assms show ?thesis by simp
qed

end

lemma cap_revoke_path:
  assumes inv: "kinv s" and p: "p < length (ctable s)" and r: "cap_revoke s p = Some (e, s')"
  shows "table_step\<^sup>*\<^sup>* (ctable s) (ctable s')"
proof -
  have time: "table_step\<^sup>*\<^sup>* (ctable s) (ctable s')"
    if "kinv s" "p < length (ctable s)" "cap_type (cte_cap (ctable s) p) = CAPTY_TIME"
      "cap_revoke_time s p (cte_cap (ctable s) p) = Some (e, s')" for s e s'
  proof -
    from cap_type_cases(1) [OF kinv_cap_ok [OF that(1,2)] that(3)] obtain pad hart bgn mrk end'
      where cap: "cte_cap (ctable s) p = TimeCap pad hart bgn mrk end'" by blast
    from that cap kinv_next [OF that(1,2)] show ?thesis
      by (cases "cte_cap (ctable s) (cte_next (ctable s) p)")
        (auto simp: cap_revoke_time_def Let_def bind_eq_Some_conv cte_is_empty_def split: if_splits
          dest!: sched_update_ctable intro!: put_path revoke_path grants_mark)
  qed
  have mem: "table_step\<^sup>*\<^sup>* (ctable s) (ctable s')"
    if "kinv s" "p < length (ctable s)" "cap_type (cte_cap (ctable s) p) = CAPTY_MEMORY"
      "cap_revoke_memory s p (cte_cap (ctable s) p) = Some (e, s')" for s e s'
  proof -
    from cap_type_cases(2) [OF kinv_cap_ok [OF that(1,2)] that(3)] obtain rwx lck tag bgn mrk end'
      where cap: "cte_cap (ctable s) p = MemCap rwx lck tag bgn mrk end'" by blast
    from that cap kinv_next [OF that(1,2)] show ?thesis
      by (cases "cte_cap (ctable s) (cte_next (ctable s) p)")
        (auto simp: cap_revoke_memory_def Let_def bind_eq_Some_conv cte_is_empty_def split: if_splits
          dest!: proc_pmp_unload_ctable intro!: put_path revoke_path del_path grants_mark)
  qed
  have mon: "table_step\<^sup>*\<^sup>* (ctable s) (ctable s')"
    if "kinv s" "p < length (ctable s)" "cap_type (cte_cap (ctable s) p) = CAPTY_MONITOR"
      "cap_revoke_monitor s p (cte_cap (ctable s) p) = Some (e, s')" for s e s'
  proof -
    from cap_type_cases(4) [OF kinv_cap_ok [OF that(1,2)] that(3)] obtain pad bgn mrk end'
      where cap: "cte_cap (ctable s) p = MonCap pad bgn mrk end'" by blast
    from that cap kinv_next [OF that(1,2)] show ?thesis
      by (cases "cte_cap (ctable s) (cte_next (ctable s) p)")
        (auto simp: cap_revoke_monitor_def Let_def cte_is_empty_def split: if_splits
          intro!: put_path revoke_path grants_mark)
  qed
  have chan: "table_step\<^sup>*\<^sup>* (ctable s) (ctable s')"
    if "kinv s" "p < length (ctable s)" "cap_type (cte_cap (ctable s) p) = CAPTY_CHANNEL"
      "cap_revoke_channel s p (cte_cap (ctable s) p) = Some (e, s')" for s e s'
  proof -
    from cap_type_cases(5) [OF kinv_cap_ok [OF that(1,2)] that(3)] obtain pad bgn mrk end'
      where cap: "cte_cap (ctable s) p = ChanCap pad bgn mrk end'" by blast
    from that cap kinv_next [OF that(1,2)] show ?thesis
      by (cases "cte_cap (ctable s) (cte_next (ctable s) p)")
        (auto simp: cap_revoke_channel_def Let_def bind_eq_Some_conv cte_is_empty_def split: if_splits
          dest!: cap_sock_clear_ctable intro!: put_path revoke_path del_path grants_mark)
  qed
  have sock: "table_step\<^sup>*\<^sup>* (ctable s) (ctable s')"
    if "kinv s" "p < length (ctable s)"
      "cap_revoke_socket s p (cte_cap (ctable s) p) = Some (e, s')" for s e s'
    using that kinv_next [OF that(1,2)]
    by (auto simp: cap_revoke_socket_def Let_def bind_eq_Some_conv cte_is_empty_def split: if_splits
        dest!: cap_sock_clear_ctable intro!: del_path)
  from r consider "cap_type (cte_cap (ctable s) p) = CAPTY_NONE" "s' = s"
    | "cap_type (cte_cap (ctable s) p) = CAPTY_TIME" "cap_revoke_loop cap_revoke_time s p = Some (e, s')"
    | "cap_type (cte_cap (ctable s) p) = CAPTY_MEMORY" "cap_revoke_loop cap_revoke_memory s p = Some (e, s')"
    | "cap_revoke_loop cap_revoke_pmp s p = Some (e, s')"
    | "cap_type (cte_cap (ctable s) p) = CAPTY_MONITOR" "cap_revoke_loop cap_revoke_monitor s p = Some (e, s')"
    | "cap_type (cte_cap (ctable s) p) = CAPTY_CHANNEL" "cap_revoke_loop cap_revoke_channel s p = Some (e, s')"
    | "cap_revoke_loop cap_revoke_socket s p = Some (e, s')"
    by (cases "cap_type (cte_cap (ctable s) p)") (auto simp: cap_revoke_def Let_def)
  then show ?thesis
  proof cases
    case 2
    then show ?thesis by (intro rtime.loop_closure [OF 2(2) inv p]) (auto intro: time)
  next
    case 3
    then show ?thesis by (intro rmem.loop_closure [OF 3(2) inv p]) (auto intro: mem)
  next
    case 5
    then show ?thesis by (intro rmon.loop_closure [OF 5(2) inv p]) (auto intro: mon)
  next
    case 6
    then show ?thesis by (intro rchan.loop_closure [OF 6(2) inv p]) (auto intro: chan)
  next
    case 7
    then show ?thesis by (intro rsock.loop_closure [OF 7 inv p]) (auto intro: sock)
  qed (auto simp: revoke_pmp_loop)
qed

section \<open>System calls follow the steps\<close>

lemma proc_pmp_load_ctable: "proc_pmp_load s p k rwx a = Some s' \<Longrightarrow> ctable s' = ctable s"
  by (auto simp: proc_pmp_load_def split: if_splits)

lemma cap_pmp_path:
  assumes "c < length (ctable s)"
  shows "cap_pmp_load s c slot = Some (e, s') \<Longrightarrow> table_step\<^sup>*\<^sup>* (ctable s) (ctable s')"
    and "cap_pmp_unload s c = Some (e, s') \<Longrightarrow> table_step\<^sup>*\<^sup>* (ctable s) (ctable s')"
proof -
  have put: "table_step\<^sup>*\<^sup>* (ctable s) (cte_set_cap (ctable s) c (PmpCap rwx used' slot' addr))"
    if "cte_cap (ctable s) c = PmpCap rwx used slot addr" for rwx used slot addr used' slot'
    by (rule put_path) (use assms that grants_mark(3) in auto)
  show "cap_pmp_load s c slot = Some (e, s') \<Longrightarrow> table_step\<^sup>*\<^sup>* (ctable s) (ctable s')"
    by (cases "cte_cap (ctable s) c")
      (auto simp: cap_pmp_load_def bind_eq_Some_conv put split: if_splits dest!: proc_pmp_load_ctable)
  show "cap_pmp_unload s c = Some (e, s') \<Longrightarrow> table_step\<^sup>*\<^sup>* (ctable s) (ctable s')"
    by (cases "cte_cap (ctable s) c")
      (auto simp: cap_pmp_unload_def bind_eq_Some_conv put split: if_splits dest!: proc_pmp_unload_ctable)
qed

lemma cap_move_table_path:
  assumes "kinv s" "src < length (ctable s)" "dst < length (ctable s)" "cap_move s src dst = Some (e, s')"
  shows "table_path (ctable s) (ctable s')"
  using cap_move_path [OF assms] by (auto simp: table_path_def)

lemma upd_chan_ctable: "upd_chan s ch f = Some s' \<Longrightarrow> ctable s' = ctable s"
  by (auto simp: upd_chan_def split: if_splits)

lemma proc_acquire_ctable: "proc_acquire s p = (b, s') \<Longrightarrow> ctable s' = ctable s"
  by (auto simp: proc_acquire_def split: if_splits)

lemma proc_ipc_acquire_ctable: "proc_ipc_acquire s p ch = (b, s') \<Longrightarrow> ctable s' = ctable s"
  by (auto simp: proc_ipc_acquire_def split: if_splits)

lemma proc_ipc_wait_ctable: "proc_ipc_wait s p ch = Some s' \<Longrightarrow> ctable s' = ctable s"
  by (auto simp: proc_ipc_wait_def bind_eq_Some_conv)

lemma proc_release_ctable: "proc_release s p = Some s' \<Longrightarrow> ctable s' = ctable s"
  by (auto simp: proc_release_def bind_eq_Some_conv)

lemma proc_state_ctable [simp]:
  "ctable (proc_suspend s p) = ctable s" "ctable (proc_resume s p) = ctable s"
  "ctable (proc_pmp_sync s p) = ctable s"
  by (simp_all add: proc_suspend_def proc_resume_def proc_pmp_sync_def Let_def)

lemma do_recv_ctable: "do_recv s cap buf p = Some s' \<Longrightarrow> ctable s' = ctable s"
  by (auto simp: do_recv_def bind_eq_Some_conv Let_def split: if_splits
      dest!: upd_chan_ctable proc_ipc_wait_ctable)

lemmas ctable_kept = upd_chan_ctable proc_acquire_ctable proc_ipc_acquire_ctable
  proc_ipc_wait_ctable proc_release_ctable do_recv_ctable

lemma deliver_send:
  assumes "kinv s" "msg_send_cap msg"
  shows "\<exists>t. deliver s cap msg buf recv = do {
      b \<leftarrow> buf; (_, u) \<leftarrow> cap_move t (msg_cap_buf msg) b; Some u } \<and> kinv t \<and> ctable t = ctable s"
  by (rule exI, rule conjI, unfold deliver_def Let_def, subst if_P [OF assms(2)], rule refl)
    (use assms(1) in simp)

lemma deliver_path:
  assumes inv: "kinv s" and c: "msg_cap_buf msg < length (ctable s)"
    and b: "\<And>b. buf = Some b \<Longrightarrow> b < length (ctable s)"
    and d: "deliver s cap msg buf recv = Some s'"
  shows "table_path (ctable s) (ctable s')"
proof (cases "msg_send_cap msg")
  case True
  from deliver_send [OF inv True, of cap buf recv] obtain t where t: "kinv t" "ctable t = ctable s"
    and "deliver s cap msg buf recv = do {
      b \<leftarrow> buf; (_, u) \<leftarrow> cap_move t (msg_cap_buf msg) b; Some u }" by blast
  with d obtain x e where x: "buf = Some x" and m: "cap_move t (msg_cap_buf msg) x = Some (e, s')"
    by (auto simp: bind_eq_Some_conv)
  with cap_move_table_path [OF t(1) _ _ m] b [OF x] c t(2) show ?thesis by simp
next
  case False
  with d show ?thesis by (auto simp: deliver_def Let_def)
qed

lemma send_to_path:
  assumes inv: "kinv s" and c: "msg_cap_buf msg < length (ctable s)" and r: "recv < S3K_PROC_CNT"
    and b: "\<And>b. buf = Some b \<Longrightarrow> b < length (ctable s)"
    and d: "send_to s cap msg buf recv next = Some (e, n, s')"
  shows "table_path (ctable s) (ctable s')"
proof -
  obtain a t where a: "proc_ipc_acquire s recv (sock_chan cap) = (a, t)" by fastforce
  note t = proc_ipc_acquire_ok(1,4) [OF inv r a]
  show ?thesis
  proof (cases a)
    case True
    with d a obtain u where u: "deliver t cap msg buf recv = Some u" and s': "ctable s' = ctable u"
      by (auto simp: send_to_def Let_def bind_eq_Some_conv split: if_splits dest!: proc_release_ctable)
    with deliver_path [OF t(1) _ _ u] t(2) c b show ?thesis by simp
  qed (use d a t in \<open>simp add: send_to_def\<close>)
qed

lemma do_send_path:
  assumes inv: "kinv s" and c: "msg_cap_buf msg < length (ctable s)" and ch: "unat (sock_chan cap) < S3K_CHAN_CNT"
    and d: "do_send s cap msg next = Some (e, n, s')"
  shows "table_path (ctable s) (ctable s')"
proof -
  let ?ch = "channels s ! unat (sock_chan cap)"
  note get = kinv_get_chan [OF inv ch]
  have go: "table_path (ctable s) (ctable s')"
    if "server ?ch = Some recv \<or> client ?ch = Some recv" "kinv t" "ctable t = ctable s"
      "send_to t cap msg (cap_buf ?ch) recv next = Some (e, n, s')" for t recv
    using send_to_path [OF that(2) _ _ _ that(4)] that(1,3) c get(2) kinv_lengths(1) [OF inv]
    by (auto simp: chan_ok_def)
  let ?s = "s\<lparr>reads := Suc (reads s)\<rparr>"
  have upd: "kinv t" "ctable t = ctable s"
    if "upd_chan (s\<lparr>reads := Suc (reads s)\<rparr>) (sock_chan cap) (\<lambda>c. c\<lparr>client := None\<rparr>) = Some t" for t
    using that upd_chan_ok [of "s\<lparr>reads := Suc (reads s)\<rparr>" "sock_chan cap" "\<lambda>c. c\<lparr>client := None\<rparr>" kinv] inv ch
    by (auto simp: chan_ok_def dest: upd_chan_ctable)
  show ?thesis
  proof (cases "ctable s' = ctable s")
    case False
    with d consider recv t where "client ?ch = Some recv" "upd_chan ?s (sock_chan cap) (\<lambda>c. c\<lparr>client := None\<rparr>) = Some t"
        "send_to t cap msg (cap_buf ?ch) recv next = Some (e, n, s')"
      | recv where "server ?ch = Some recv" "send_to ?s cap msg (cap_buf ?ch) recv next = Some (e, n, s')"
      by (auto simp: do_send_def get(1) Let_def bind_eq_Some_conv split: if_splits option.splits)
    then show ?thesis
    proof cases
      case 1
      then show ?thesis using go [OF disjI2] upd by blast
    next
      case 2
      then show ?thesis using go [OF disjI1, of recv ?s] inv by simp
    qed
  qed simp
qed

lemma cap_sock_path:
  assumes inv: "kinv s" and c: "sock < length (ctable s)" and p: "p < S3K_PROC_CNT" "running s p"
  shows "\<lbrakk>msg_cap_buf msg < length (ctable s); cap_sock_send s sock msg p = Some (e, n, s')\<rbrakk>
      \<Longrightarrow> table_path (ctable s) (ctable s')"
    and "\<lbrakk>msg_cap_buf msg < length (ctable s); cap_sock_sendrecv s sock msg p = Some (e, n, s')\<rbrakk>
      \<Longrightarrow> table_path (ctable s) (ctable s')"
    and "cap_sock_recv s sock buf p = Some (e, n, s') \<Longrightarrow> ctable s' = ctable s"
proof -
  let ?cap = "cte_cap (ctable s) sock"
  have ch: "unat (sock_chan ?cap) < S3K_CHAN_CNT" if "cap_type ?cap = CAPTY_SOCKET"
    using sock_cap_ok [OF inv c that] by (simp add: sock_ok_def)
  show "table_path (ctable s) (ctable s')"
    if "msg_cap_buf msg < length (ctable s)" "cap_sock_send s sock msg p = Some (e, n, s')"
    using that do_send_path [OF inv that(1) ch]
    by (auto simp: cap_sock_send_def Let_def reply_def send_def split: if_splits)
  show "ctable s' = ctable s" if "cap_sock_recv s sock buf p = Some (e, n, s')"
    using that
    by (auto simp: cap_sock_recv_def Let_def bind_eq_Some_conv split: if_splits option.splits prod.splits
        dest!: ctable_kept)
  show "table_path (ctable s) (ctable s')"
    if m: "msg_cap_buf msg < length (ctable s)" and x: "cap_sock_sendrecv s sock msg p = Some (e, n, s')"
  proof -
    have del: "table_path (ctable s) (ctable u)"
      if "cap_type ?cap = CAPTY_SOCKET" "do_send s ?cap msg (Some p) = Some (e1, n1, t)"
        "cap_delete t (msg_cap_buf msg) = Some (e2, u)" for e1 n1 t e2 u
    proof -
      have "kinv t" using do_send_ok [OF inv m sock_cap_ok [OF inv c that(1)] refl, of p] that(2) by simp
      then have "msg_cap_buf msg < length (ctable t)" using m kinv_lengths(1) [OF inv] by (simp add: kinv_lengths)
      from table_path_trans [OF do_send_path [OF inv m ch [OF that(1)] that(2)] cap_delete_path [OF this that(3)]]
      show ?thesis .
    qed
    show ?thesis
      using x do_send_path [OF inv m ch] del
      by (auto simp: cap_sock_sendrecv_def replyrecv_def call_def Let_def bind_eq_Some_conv
          split: if_splits dest!: do_recv_ctable)
  qed
qed

lemma monitor_path:
  assumes inv: "kinv s" and c: "mon < length (ctable s)" "src < length (ctable s)"
  shows "cap_monitor_suspend s mon q = Some (e, s') \<Longrightarrow> ctable s' = ctable s"
    "cap_monitor_resume s mon q = Some (e, s') \<Longrightarrow> ctable s' = ctable s"
    "cap_monitor_reg_write s mon q reg v = Some (e, s') \<Longrightarrow> ctable s' = ctable s"
    "cap_monitor_yield s mon q next = Some (e, n, s') \<Longrightarrow> ctable s' = ctable s"
    "cap_monitor_pmp_load s mon src slot = Some (e, s') \<Longrightarrow> table_step\<^sup>*\<^sup>* (ctable s) (ctable s')"
    "cap_monitor_pmp_unload s mon src = Some (e, s') \<Longrightarrow> table_step\<^sup>*\<^sup>* (ctable s) (ctable s')"
    "dst < length (ctable s) \<Longrightarrow> cap_monitor_cap_move s mon src dst = Some (e, s')
      \<Longrightarrow> table_path (ctable s) (ctable s')"
proof -
  show "ctable s' = ctable s" if "cap_monitor_yield s mon q next = Some (e, n, s')"
    using that
    by (auto simp: cap_monitor_yield_def Let_def case_prod_beta bind_eq_Some_conv split: if_splits)
      (metis proc_acquire_ctable surjective_pairing)+
qed (use cap_pmp_path [OF c(2)] cap_move_table_path [OF inv c(2)] in
    \<open>auto simp: cap_monitor_suspend_def cap_monitor_resume_def cap_monitor_reg_write_def
      cap_monitor_pmp_load_def cap_monitor_pmp_unload_def cap_monitor_cap_move_def
      bind_eq_Some_conv split: if_splits\<close>)

lemma cte_lengths:
  assumes "kinv s"
  shows "ctable_get q i = Some c \<Longrightarrow> c < length (ctable s)" "own_cte s p j = Some c \<Longrightarrow> c < length (ctable s)"
  using cte_pid_ctable_get [of _ _ c] kinv_lengths(1) [OF assms] by (auto simp: own_cte_def)

lemma set_a0_ctable [simp]: "ctable (set_a0 s p v) = ctable s"
  by (simp add: set_a0_def split: option.split)

lemma handlers_path:
  assumes inv: "kinv s" and p: "p < S3K_PROC_CNT" "running s p"
    and h: "handlers c s p args = Some (n, s')"
  shows "table_path (ctable s) (ctable s')"
proof -
  note len = cte_lengths [OF inv]
  note ops = table_path_steps [OF cap_delete_path] table_path_steps [OF cap_revoke_path [OF inv]]
    table_path_steps [OF cap_pmp_path(1)] table_path_steps [OF cap_pmp_path(2)]
  note ipc = cap_sock_path(1,2) [OF inv _ p] and recv = cap_sock_path(3) [OF inv _ p]
  show ?thesis
  proof (cases c)
    case SYS_GET_INFO
    with h show ?thesis by (auto simp: handle_get_info_def Let_def split: if_splits)
  next
    case SYS_SYNC
    with h show ?thesis by (auto simp: handle_sync_def split: if_splits)
  next
    case SYS_SLEEP
    with h show ?thesis by (auto simp: handle_sleep_def Let_def)
  next
    case SYS_CAP_MOVE
    with h show ?thesis by (auto simp: handle_cap_move_def bind_eq_Some_conv
          dest!: len cap_move_table_path [OF inv, rotated 2])
  next
    case SYS_CAP_DELETE
    with h show ?thesis by (auto simp: handle_cap_delete_def bind_eq_Some_conv dest!: len intro: ops)
  next
    case SYS_CAP_REVOKE
    with h show ?thesis by (auto simp: handle_cap_revoke_def bind_eq_Some_conv dest!: len intro: ops)
  next
    case SYS_CAP_DERIVE
    with h show ?thesis by (auto simp: handle_cap_derive_def bind_eq_Some_conv
          dest!: len cap_derive_path [OF inv, rotated 2] intro: table_path_steps)
  next
    case SYS_PMP_LOAD
    with h show ?thesis by (auto simp: handle_pmp_load_def bind_eq_Some_conv dest!: len intro: ops)
  next
    case SYS_PMP_UNLOAD
    with h show ?thesis by (auto simp: handle_pmp_unload_def bind_eq_Some_conv dest!: len intro: ops)
  next
    case SYS_MON_SUSPEND
    with h show ?thesis
      by (auto simp: handle_mon_suspend_def bind_eq_Some_conv dest!: len monitor_path(1) [OF inv, rotated -1])
  next
    case SYS_MON_RESUME
    with h show ?thesis
      by (auto simp: handle_mon_resume_def bind_eq_Some_conv dest!: len monitor_path(2) [OF inv, rotated -1])
  next
    case SYS_MON_YIELD
    with h show ?thesis
      by (auto simp: handle_mon_yield_def bind_eq_Some_conv dest!: len monitor_path(4) [OF inv, rotated -1])
  next
    case SYS_MON_REG_WRITE
    with h show ?thesis
      by (auto simp: handle_mon_reg_write_def bind_eq_Some_conv dest!: len monitor_path(3) [OF inv, rotated -1])
  next
    case SYS_MON_CAP_MOVE
    with h show ?thesis
      by (auto simp: handle_mon_cap_move_def bind_eq_Some_conv dest!: len monitor_path(7) [OF inv, rotated 3])
  next
    case SYS_MON_PMP_LOAD
    with h show ?thesis
      by (auto simp: handle_mon_pmp_load_def bind_eq_Some_conv dest!: len
          intro: table_path_steps [OF monitor_path(5) [OF inv]])
  next
    case SYS_MON_PMP_UNLOAD
    with h show ?thesis
      by (auto simp: handle_mon_pmp_unload_def bind_eq_Some_conv dest!: len
          intro: table_path_steps [OF monitor_path(6) [OF inv]])
  next
    case SYS_SOCK_SEND
    with h show ?thesis
      by (auto simp: handle_sock_send_def bind_eq_Some_conv Let_def dest!: len ipc(1) [rotated 2])
  next
    case SYS_SOCK_SENDRECV
    with h show ?thesis
      by (auto simp: handle_sock_sendrecv_def bind_eq_Some_conv Let_def dest!: len ipc(2) [rotated 2])
  next
    case SYS_SOCK_RECV
    with h show ?thesis
      by (auto simp: handle_sock_recv_def bind_eq_Some_conv Let_def dest!: len dest: recv)
  qed (use h in \<open>auto simp: handler_defs cap_read_def Let_def bind_eq_Some_conv\<close>)
qed

lemma cap_lock_acquire_ctable:
  assumes "cap_lock_acquire s = Some (b, s')"
  shows "ctable s' = ctable s \<and> procs s' = procs s \<and> (kinv s' \<longleftrightarrow> kinv s)"
proof -
  have "ctable (snd (b, s')) = ctable s \<and> procs (snd (b, s')) = procs s \<and> (kinv (snd (b, s')) \<longleftrightarrow> kinv s)"
  proof (rule cap_lock_acquire.raw_induct [OF _ assms])
    fix f s r
    assume IH: "\<And>s r. f s = Some r \<Longrightarrow> ctable (snd r) = ctable s \<and> procs (snd r) = procs s \<and> (kinv (snd r) \<longleftrightarrow> kinv s)"
      and "(if cap_lock s \<noteq> 0 then
          let (preempt, s) = kernel_preempt s in if preempt then Some (False, s) else f s
        else let (got, s) = taslock_try_acquire s in if got then Some (True, s) else f s) = Some r"
    then show "ctable (snd r) = ctable s \<and> procs (snd r) = procs s \<and> (kinv (snd r) \<longleftrightarrow> kinv s)"
      by (auto simp: kernel_preempt_def taslock_try_acquire_def split: if_splits)
  qed
  then show ?thesis by simp
qed

lemma inc_pc_ctable [simp]: "ctable (inc_pc s p) = ctable s"
  by (simp add: inc_pc_def)

lemma syscall_handler_path:
  assumes inv: "kinv s" and p: "p < S3K_PROC_CNT" "running s p"
    and h: "syscall_handler s p = Some (n, s')"
  shows "table_path (ctable s) (ctable s')"
proof -
  have run: "table_path (ctable s) (ctable u)"
    if "handlers c (inc_pc t p) p args = Some (m, u)" "kinv t" "procs t = procs s" "ctable t = ctable s" for c t args m u
    using handlers_path [OF _ p(1) _ that(1)] that(2-4) p(2) by (simp add: running_def inc_pc_def)
  show ?thesis
    using h inv
    by (auto simp: syscall_handler_def Let_def kernel_preempt_def bind_eq_Some_conv cap_lock_release_def
        split: if_splits option.splits dest!: cap_lock_acquire_ctable run)
qed

lemma sched_wait_ctable: "sched_wait s slot = Some s' \<Longrightarrow> ctable s' = ctable s"
  using sched_wait_eq [of s slot s'] by auto

lemma sched_fetch_ctable: "sched_fetch s hart slot = Some (r, s') \<Longrightarrow> ctable s' = ctable s"
  by (auto simp: sched_fetch_def bind_eq_Some_conv Let_def case_prod_beta split: if_splits)
    (metis proc_acquire_ctable surjective_pairing)+

lemma sched_loop_ctable:
  assumes "sched_loop s = Some (p, s')"
  shows "ctable s' = ctable s"
proof -
  have "ctable (snd (p, s')) = ctable s"
  proof (rule sched_loop.raw_induct [OF _ assms])
    fix f s r
    assume IH: "\<And>s r. f s = Some r \<Longrightarrow> ctable (snd r) = ctable s"
      and "(let (t, s1) = time_get s; slot = (t + S3K_SCHED_TIME) div S3K_SLOT_LEN
        in sched_wait s1 slot \<bind> (\<lambda>s2. sched_fetch s2 (mhartid s) slot \<bind>
          (\<lambda>(r, s3). case r of None \<Rightarrow> f s3 | Some p \<Rightarrow> Some (p, s3)))) = Some r"
    then show "ctable (snd r) = ctable s"
      by (auto simp: bind_eq_Some_conv Let_def split: option.splits
          dest!: IH sched_wait_ctable sched_fetch_ctable)
  qed
  then show ?thesis by simp
qed

lemma sched_ctable: "sched s = Some (p, s') \<Longrightarrow> ctable s' = ctable s"
  by (auto simp: sched_def bind_eq_Some_conv timeout_set_def dest!: sched_loop_ctable)

lemma trap_handler_path:
  assumes inv: "kinv s" and p: "p < S3K_PROC_CNT" "running s p"
    and h: "trap_handler s p mcause mtval = Some (x, s')"
  shows "table_path (ctable s) (ctable s')"
proof -
  have "ctable (snd (exception_handler s p mcause mtval)) = ctable s"
    by (simp add: exception_handler_def exception_delegate_def exception_trap_return_def Let_def)
  with h show ?thesis
    by (auto simp: trap_handler_def interrupt_handler_def bind_eq_Some_conv split: if_splits option.splits prod.splits
        dest!: sched_ctable proc_release_ctable syscall_handler_path [OF inv p])
qed

end
