(* ===== verification/Machine.thy ===== *)
theory Machine
  imports Kernel Authority
begin

text \<open>
  The whole machine: the harts of \<open>kernel/src/head.S\<close> and \<open>kernel/src/trap.S\<close> around the
  kernel. A hart either runs a process in user mode or is on its way into the scheduler. A
  trap is one step; user code is arbitrary, it may write any of the registers that the trap
  entry saves. The environment may change the clock and the interrupt lines at any time, as
  long as timer interrupts keep coming.
\<close>

section \<open>Steps of the machine\<close>

text \<open>The registers of a process that are registers of the hart.\<close>

definition hart_reg :: "reg_t \<Rightarrow> bool" where
  "hart_reg r \<longleftrightarrow> r \<notin> {REG_TPC, REG_TSP, REG_EPC, REG_ESP, REG_ECAUSE, REG_EVAL, REG_SERVTIME}"

definition user_step :: "kstate \<Rightarrow> proc_ptr \<Rightarrow> (reg_t \<Rightarrow> u64) \<Rightarrow> kstate" where
  "user_step s p rs = upd_proc s p (\<lambda>q. q\<lparr>regs := (\<lambda>r. if hart_reg r then rs r else regs q r)\<rparr>)"

definition on_hart :: "kstate \<Rightarrow> nat \<Rightarrow> kstate" where
  "on_hart s h = s\<lparr>mhartid := h\<rparr>"

text \<open>\<open>cur h\<close> is the process that hart \<open>h\<close> runs.\<close>

inductive reachable :: "kstate \<Rightarrow> (nat \<Rightarrow> proc_ptr option) \<Rightarrow> bool" where
  boot: "\<lbrakk>kernel_init pad (zero_state S3K_MIN_HART time irq) = Some s; timer_fires s\<rbrakk>
    \<Longrightarrow> reachable s (\<lambda>_. None)"
| enter: "\<lbrakk>reachable s cur; hart_ok h; cur h = None; sched (on_hart s h) = Some (p, s')\<rbrakk>
    \<Longrightarrow> reachable (trap_resume s' p) (cur(h := Some p))"
| user: "\<lbrakk>reachable s cur; cur h = Some p\<rbrakk> \<Longrightarrow> reachable (user_step s p rs) cur"
| trap_ret: "\<lbrakk>reachable s cur; cur h = Some p;
      trap_handler (on_hart s h) p mcause mtval = Some (Trap_return q, s')\<rbrakk>
    \<Longrightarrow> reachable s' (cur(h := Some q))"
| trap_res: "\<lbrakk>reachable s cur; cur h = Some p;
      trap_handler (on_hart s h) p mcause mtval = Some (Trap_resume q, s')\<rbrakk>
    \<Longrightarrow> reachable (trap_resume s' q) (cur(h := Some q))"
| env: "\<lbrakk>reachable s cur; timer_fires (s\<lparr>mip := irq\<rparr>)\<rbrakk>
    \<Longrightarrow> reachable (s\<lparr>mtime := time, mip := irq, reads := n\<rparr>) cur"

section \<open>The invariant of the machine\<close>

text \<open>
  Every hart that runs a process runs a different one, and the kernel invariant holds.
\<close>

definition machine_ok :: "kstate \<Rightarrow> (nat \<Rightarrow> proc_ptr option) \<Rightarrow> bool" where
  "machine_ok s cur \<longleftrightarrow> kinv s \<and> timer_fires s \<and> cap_lock s = 0
     \<and> (\<forall>h p. cur h = Some p \<longrightarrow> hart_ok h \<and> p < S3K_PROC_CNT \<and> running s p)
     \<and> (\<forall>h h' p. cur h = Some p \<longrightarrow> cur h' = Some p \<longrightarrow> h = h')"

lemma machine_okD:
  assumes "machine_ok s cur"
  shows "kinv s" "timer_fires s" "cap_lock s = 0"
    and "cur h = Some p \<Longrightarrow> hart_ok h" "cur h = Some p \<Longrightarrow> p < S3K_PROC_CNT" "cur h = Some p \<Longrightarrow> running s p"
    and "cur h = Some p \<Longrightarrow> cur h' = Some p \<Longrightarrow> h = h'"
  using assms unfolding machine_ok_def by blast+

lemma on_hart_simps [simp]:
  "kinv (on_hart s h) = kinv s" "running (on_hart s h) p = running s p"
  "timer_fires (on_hart s h) = timer_fires s" "cap_lock (on_hart s h) = cap_lock s"
  "mhartid (on_hart s h) = h" "ctable (on_hart s h) = ctable s"
  by (simp_all add: on_hart_def kinv_def running_def timer_fires_def)

lemma trap_resume_simps [simp]:
  "kinv (trap_resume s p) = kinv s" "running (trap_resume s p) q = running s q"
  "timer_fires (trap_resume s p) = timer_fires s" "cap_lock (trap_resume s p) = cap_lock s"
  "ctable (trap_resume s p) = ctable s"
  by (simp_all add: trap_resume_def kinv_def running_def timer_fires_def)

lemma user_step_simps [simp]:
  "running (user_step s p rs) q = running s q" "timer_fires (user_step s p rs) = timer_fires s"
  "cap_lock (user_step s p rs) = cap_lock s" "ctable (user_step s p rs) = ctable s"
  by (cases "p < length (procs s)";
      simp add: user_step_def timer_fires_def running_def upd_proc_def nth_list_update list_update_beyond)+

lemma user_step_kinv: "kinv s \<Longrightarrow> kinv (user_step s p rs)"
  unfolding user_step_def by (rule kinv_upd_proc) (simp_all add: proc_ok_def)

lemma env_simps [simp]:
  "kinv (s\<lparr>mtime := t, mip := i, reads := n\<rparr>) = kinv s"
  "running (s\<lparr>mtime := t, mip := i, reads := n\<rparr>) p = running s p"
  "timer_fires (s\<lparr>mtime := t, mip := i, reads := n\<rparr>) = timer_fires (s\<lparr>mip := i\<rparr>)"
  "cap_lock (s\<lparr>mtime := t, mip := i, reads := n\<rparr>) = cap_lock s"
  by (simp_all add: kinv_def running_def timer_fires_def)

lemma machine_ok_other:
  "machine_ok (trap_resume s p) cur = machine_ok s cur"
  "machine_ok s cur \<Longrightarrow> machine_ok (user_step s p rs) cur"
  "machine_ok s cur \<Longrightarrow> timer_fires (s\<lparr>mip := irq\<rparr>)
    \<Longrightarrow> machine_ok (s\<lparr>mtime := time, mip := irq, reads := n\<rparr>) cur"
  unfolding machine_ok_def trap_resume_simps user_step_simps env_simps
  using user_step_kinv by blast+

text \<open>A hart goes from its process (or none) to \<open>q\<close>; the other harts are not disturbed.\<close>

lemma machine_switch:
  assumes ok: "machine_ok s cur" and h: "hart_ok h"
    and s': "kinv s'" "env_same (on_hart s h) s'" "q < S3K_PROC_CNT" "running s' q"
    and others: "\<And>h' r. \<lbrakk>cur h' = Some r; h' \<noteq> h\<rbrakk> \<Longrightarrow> running s' r \<and> r \<noteq> q"
  shows "machine_ok s' (cur(h := Some q))"
  unfolding machine_ok_def
proof (intro conjI allI impI)
  show "timer_fires s'" "cap_lock s' = 0"
    using machine_okD(2,3) [OF ok] s'(2) by (simp_all add: env_same_def timer_fires_def on_hart_def)
  fix h' r
  assume r: "(cur(h := Some q)) h' = Some r"
  then have "h' = h \<and> r = q \<or> h' \<noteq> h \<and> cur h' = Some r" by (auto split: if_splits)
  then show "hart_ok h'" "r < S3K_PROC_CNT" "running s' r"
    using h s'(3,4) others machine_okD(4,5) [OF ok] by auto
  fix h''
  assume "(cur(h := Some q)) h'' = Some r"
  with r show "h' = h''"
    by (cases "h' = h"; cases "h'' = h") (auto dest: others machine_okD(7) [OF ok])
qed (rule s'(1))

lemma machine_trap:
  assumes ok: "machine_ok s cur" and p: "cur h = Some p" and post: "trap_post (on_hart s h) p q s'"
  shows "machine_ok s' (cur(h := Some q))"
proof (rule machine_switch [OF ok])
  show "hart_ok h" using machine_okD(4) [OF ok p] .
  show "running s' r \<and> r \<noteq> q" if "cur h' = Some r" "h' \<noteq> h" for h' r
  proof -
    have "r \<noteq> p" using machine_okD(7) [OF ok p] that by blast
    moreover note machine_okD(5,6) [OF ok that(1)]
    ultimately show ?thesis using post by (simp add: trap_post_def)
  qed
qed (use post in \<open>simp_all add: trap_post_def\<close>)

lemma trap_handler_post:
  assumes "machine_ok s cur" "cur h = Some p"
    and "trap_handler (on_hart s h) p mcause mtval = Some (x, s')"
  shows "case x of Trap_return q \<Rightarrow> q = p \<and> trap_post (on_hart s h) p q s'
    | Trap_resume q \<Rightarrow> trap_post (on_hart s h) p q s'"
proof -
  let ?s = "on_hart s h"
  have pre: "kinv ?s" "p < S3K_PROC_CNT" "running ?s p" "timer_fires ?s" "cap_lock ?s = 0" "hart_ok (mhartid ?s)"
    using machine_okD(1-6) [OF assms(1)] assms(2) by simp_all
  have "trap_ok ?s p (trap_handler ?s p mcause mtval)"
  proof (cases "mcause = 8")
    case True
    with assms(3) obtain n t where t: "syscall_handler ?s p = Some (n, t)"
      by (auto simp: trap_handler_def bind_eq_Some_conv)
    from trap_syscall_ok [OF syscall_handler_post [OF pre(1-5) t] t pre(2,6)] True show ?thesis by simp
  next
    case False
    with trap_handler_ok [OF pre] show ?thesis by blast
  qed
  with assms(3) show ?thesis by (simp add: trap_ok_def split: trap_exit.split)
qed

lemma reachable_ok: "reachable s cur \<Longrightarrow> machine_ok s cur"
proof (induction rule: reachable.induct)
  case (boot pad time irq s)
  from kernel_init_ok [of pad S3K_MIN_HART time irq] obtain t
    where "kernel_init pad (zero_state S3K_MIN_HART time irq) = Some t" "kinv t" "cap_lock t = 0" by blast
  moreover from this(1) boot(1) have "t = s" by (simp only: option.inject)
  ultimately show ?case using boot(2) by (simp add: machine_ok_def)
next
  case (enter s cur h p s')
  then have "kinv (on_hart s h)" "hart_ok (mhartid (on_hart s h))" by (simp_all add: machine_okD(1))
  from sched_ok(1) [OF enter(4) this] have sch: "scheduled (on_hart s h) p s'" .
  have "machine_ok s' (cur(h := Some p))"
  proof (rule machine_switch [OF enter(5,2)])
    show "running s' r \<and> r \<noteq> p" if "cur h' = Some r" "h' \<noteq> h" for h' r
      using machine_okD(5,6) [OF enter(5) that(1)] sch by (auto simp: scheduled_def runs_on_def)
  qed (use sch in \<open>simp_all add: scheduled_def\<close>)
  then show ?case by (simp only: machine_ok_other)
next
  case (user s cur h p rs)
  then show ?case by (simp only: machine_ok_other)
next
  case (trap_ret s cur h p mcause mtval q s')
  from trap_handler_post [OF trap_ret(4,2,3)] have "trap_post (on_hart s h) p q s'" by auto
  then show ?case by (rule machine_trap [OF trap_ret(4,2)])
next
  case (trap_res s cur h p mcause mtval q s')
  from trap_handler_post [OF trap_res(4,2,3)] have "trap_post (on_hart s h) p q s'" by simp
  then have "machine_ok s' (cur(h := Some q))" by (rule machine_trap [OF trap_res(4,2)])
  then show ?case by (simp only: machine_ok_other)
next
  case (env s cur irq time n)
  then show ?case by (simp only: machine_ok_other)
qed

section \<open>Confinement of authority\<close>

text \<open>The rights that the initial capabilities give.\<close>

definition boot_right :: "right \<Rightarrow> bool" where
  "boot_right r \<longleftrightarrow> (case r of
     RTime h i \<Rightarrow> h < 4 \<and> i < 32
   | RMem a k \<Rightarrow>
       (0x80000000 \<le> a \<and> a < 0x80400000 \<or> 0x80020000 \<le> a \<and> a < 0x88000000) \<and> k < 3
       \<or> 0x10000000 \<le> a \<and> a < 0x10002000 \<and> k < 2
       \<or> 0x200b000 \<le> a \<and> a < 0x200c000 \<and> k = 0
       \<or> 0x04000000 \<le> a \<and> a < 0x04010000 \<and> k < 2
   | RProc p \<Rightarrow> p < S3K_PROC_CNT
   | RChan c \<Rightarrow> c < S3K_CHAN_CNT)"

lemma bit_small: "bit (7 :: rwx_t) k \<longleftrightarrow> k < 3" "bit (3 :: rwx_t) k \<longleftrightarrow> k < 2" "bit (1 :: rwx_t) k \<longleftrightarrow> k = 0"
proof -
  have "bit (mask n :: rwx_t) k \<longleftrightarrow> k < n" if "n \<le> 3" for n
    using that by (auto simp: bit_mask_iff)
  from this [of 3] this [of 2] this [of 1]
  show "bit (7 :: rwx_t) k \<longleftrightarrow> k < 3" "bit (3 :: rwx_t) k \<longleftrightarrow> k < 2" "bit (1 :: rwx_t) k \<longleftrightarrow> k = 0"
    by (simp_all add: mask_eq_exp_minus_1)
qed

lemma boot_mem_grants:
  assumes "grants (MemCap rwx lck tag bgn mrk end') r"
    and "(rwx, tag, bgn, end') \<in> {(7, 16, 0x20, 0x8000), (3, 2, 0, 2), (1, 0, 0x200b, 0x200c), (3, 0, 0x4000, 0x4010)}"
  shows "boot_right r"
proof (cases r)
  case (RMem a k)
  with assms(1) have g: "unat tag * 2 ^ 27 + unat bgn * 2 ^ 12 \<le> a" "a < unat tag * 2 ^ 27 + unat end' * 2 ^ 12"
    "bit rwx k" by (simp_all only: grants.simps unat_tag_block)
  from assms(2) consider "rwx = 7" "tag = 16" "bgn = 0x20" "end' = 0x8000" | "rwx = 3" "tag = 2" "bgn = 0" "end' = 2"
    | "rwx = 1" "tag = 0" "bgn = 0x200b" "end' = 0x200c" | "rwx = 3" "tag = 0" "bgn = 0x4000" "end' = 0x4010"
    by auto
  moreover have "rwx = 7 \<Longrightarrow> k < 3" "rwx = 3 \<Longrightarrow> k < 2" "rwx = 1 \<Longrightarrow> k = 0"
    using g(3) by (simp_all only: bit_small)
  ultimately show ?thesis by cases (use g(1,2) RMem in \<open>simp_all add: boot_right_def\<close>)
qed (use assms(1) in simp_all)

lemma boot_pmp_grants:
  assumes "grants (PmpCap 7 used slot 0x2007ffff) r"
  shows "boot_right r"
proof (cases r)
  case (RMem a k)
  have "pmp_napot_decode 0x2007ffff = (0x80000000, 0x400000)" by (simp add: pmp_napot_decode_def)
  with assms RMem show ?thesis by (auto simp: boot_right_def bit_small)
qed (use assms in simp_all)

lemma init_grants:
  assumes "c < 26" "grants (init_list pad ! c) r"
  shows "boot_right r"
proof -
  have "init_list pad ! c \<in> set (init_list pad)" using assms(1) by (simp add: init_list_ok(1))
  moreover have "boot_right r" if "grants (TimeCap p h 0 0 32) r" "h < 4" for p h
    using that by (cases r) (auto simp: boot_right_def word_less_nat_alt)
  moreover have "boot_right r" if "grants (MonCap p 0 0 2) r" for p
    using that by (cases r) (auto simp: boot_right_def config_defs)
  moreover have "boot_right r" if "grants (ChanCap p 0 0 2) r" for p
    using that by (cases r) (auto simp: boot_right_def config_defs)
  ultimately show ?thesis
    using assms(2) boot_pmp_grants [of False 0] boot_mem_grants
    by (simp add: init_list_def, elim disjE) simp_all
qed

lemma boot_held:
  assumes "kernel_init pad (zero_state h time irq) = Some s" "held (ctable s) r"
  shows "boot_right r"
proof -
  from kernel_init_ok [of pad h time irq] assms(1)
  have caps: "\<forall>c. 0 < c \<longrightarrow> c < 26 \<longrightarrow> cte_cap (ctable s) c = init_list pad ! c"
    "\<forall>c. 26 \<le> c \<longrightarrow> c < length (ctable s) \<longrightarrow> cte_cap (ctable s) c = NoCap 0"
    "cte_cap (ctable s) 0 = PmpCap 7 True 0 0x2007ffff" by (simp_all only: option.inject ex_simps simp_thms) blast+
  from assms(2) obtain c where c: "c < length (ctable s)" "grants (cte_cap (ctable s) c) r"
    by (auto simp: held_def)
  consider "c = 0" | "0 < c" "c < 26" | "26 \<le> c" by linarith
  then show ?thesis
  proof cases
    case 1
    with c caps(3) boot_pmp_grants show ?thesis by simp
  next
    case 2
    with c caps(1) init_grants show ?thesis by simp
  next
    case 3
    with c caps(2) show ?thesis by simp
  qed
qed

lemma reachable_authority:
  assumes "reachable s cur" "held (ctable s) r"
  shows "boot_right r"
  using assms
proof (induction rule: reachable.induct)
  case (boot pad time irq s)
  then show ?case using boot_held by blast
next
  case (enter s cur h p s')
  then show ?case using sched_ctable [OF enter(4)] by simp
next
  case (trap_ret s cur h p mcause mtval q s')
  note ok = reachable_ok [OF trap_ret(1)]
  have "table_path (ctable (on_hart s h)) (ctable s')"
    by (rule trap_handler_path [OF _ _ _ trap_ret(3)]) (use machine_okD(1,5,6) [OF ok] trap_ret(2) in simp_all)
  with trap_ret show ?case using held_path by simp
next
  case (trap_res s cur h p mcause mtval q s')
  note ok = reachable_ok [OF trap_res(1)]
  have "table_path (ctable (on_hart s h)) (ctable s')"
    by (rule trap_handler_path [OF _ _ _ trap_res(3)]) (use machine_okD(1,5,6) [OF ok] trap_res(2) in simp_all)
  with trap_res show ?case using held_path by simp
qed simp_all

end
