(* ===== verification/Boot.thy ===== *)
theory Boot
  imports Machine
begin

text \<open>
  Concrete states for the witnesses of the properties: the state right after the kernel has
  initialised itself with cleared memory, a clock that stands still and a timer interrupt at
  every second read, and the same state with process 0 running.
\<close>

definition pad0 :: padding where
  "pad0 = \<lparr>time_pad = (\<lambda>_. 0), mon_pad = 0, chan_pad = 0\<rparr>"

definition irq0 :: "nat \<Rightarrow> u64" where
  "irq0 n = (if even n then 0 else 0x80)"

definition boot0 :: kstate where
  "boot0 = the (kernel_init pad0 (zero_state S3K_MIN_HART (\<lambda>_. 0) irq0))"

definition run0 :: kstate where
  "run0 = upd_proc boot0 0 (\<lambda>q. q\<lparr>pstate := PSF_BUSY\<rparr>)"

lemma boot0_init: "kernel_init pad0 (zero_state S3K_MIN_HART (\<lambda>_. 0) irq0) = Some boot0"
  using kernel_init_ok [of pad0 S3K_MIN_HART "\<lambda>_. 0" irq0] by (auto simp: boot0_def)

lemma boot0_facts:
  "kinv boot0" "ring (ctable boot0) [0, 25, 9, 8, 7, 6, 5, 4, 3, 2, 1]"
  "\<And>c. 0 < c \<Longrightarrow> c < 26 \<Longrightarrow> cte_cap (ctable boot0) c = init_list pad0 ! c"
  "\<And>c. 26 \<le> c \<Longrightarrow> c < length (ctable boot0) \<Longrightarrow> cte_cap (ctable boot0) c = NoCap 0"
  "cte_cap (ctable boot0) 0 = PmpCap 7 True 0 0x2007ffff"
  "\<And>h i. hart_ok h \<Longrightarrow> i < S3K_SLOT_CNT \<Longrightarrow> slot_owner (slots boot0) h i = Some (0, S3K_SLOT_CNT - i)"
  "\<And>p. p < S3K_PROC_CNT \<Longrightarrow> pstate (procs boot0 ! p) = (if p = 0 then 0 else PSF_SUSPENDED)"
  "cap_lock boot0 = 0" "mhartid boot0 = S3K_MIN_HART" "mip boot0 = irq0"
  using kernel_init_ok [of pad0 S3K_MIN_HART "\<lambda>_. 0" irq0] boot0_init by (metis option.inject)+

lemma timer_boot0: "timer_fires boot0"
  unfolding timer_fires_def boot0_facts(10)
proof
  fix m
  have "irq0 (2 * m + 1) AND 0x80 \<noteq> 0" by (simp add: irq0_def)
  moreover have "m \<le> 2 * m + 1" by simp
  ultimately show "\<exists>n \<ge> m. irq0 n AND 0x80 \<noteq> 0" by blast
qed

lemma run0_facts:
  "kinv run0" "running run0 0" "timer_fires run0" "cap_lock run0 = 0" "mhartid run0 = S3K_MIN_HART"
  "ctable run0 = ctable boot0" "slots run0 = slots boot0" "mip run0 = irq0"
proof -
  have "(0 :: nat) < length (procs boot0)" using kinv_lengths(2) [OF boot0_facts(1)] config_bounds(1) by simp
  then show "running run0 0" by (simp add: run0_def running_def procs_upd_proc)
qed (use boot0_facts timer_boot0 in \<open>simp_all add: run0_def timer_fires_def\<close>)

lemma boot0_reachable: "reachable boot0 (\<lambda>_. None)"
  by (rule reachable.boot [OF boot0_init timer_boot0])

lemma config_values: "(0 :: nat) < S3K_PROC_CNT" "hart_ok 0"
  by (simp_all add: config_defs hart_ok_def)

lemma timer_fires_reads [simp]: "timer_fires (s\<lparr>reads := n\<rparr>) = timer_fires s"
  by (simp add: timer_fires_def)

text \<open>Process 0 is about to make a system call.\<close>

definition call0 :: "syscall_t \<Rightarrow> u64 \<Rightarrow> u64 \<Rightarrow> u64 \<Rightarrow> kstate" where
  "call0 c x y z = set_reg (set_reg (set_reg (set_reg run0 0 REG_T0 (of_nat (syscall_no c)))
     0 REG_A0 x) 0 REG_A1 y) 0 REG_A2 z"

lemma call0_facts:
  "kinv (call0 c x y z)" "running (call0 c x y z) 0" "timer_fires (call0 c x y z)"
  "cap_lock (call0 c x y z) = 0" "mhartid (call0 c x y z) = S3K_MIN_HART"
  "ctable (call0 c x y z) = ctable boot0" "slots (call0 c x y z) = slots boot0" "mip (call0 c x y z) = irq0"
  by (simp_all add: call0_def run0_facts timer_fires_def) (use run0_facts(3) in \<open>simp add: timer_fires_def run0_facts\<close>)

lemma call0_regs:
  "get_reg (call0 c x y z) 0 REG_T0 = of_nat (syscall_no c)"
  "get_reg (call0 c x y z) 0 REG_A0 = x" "get_reg (call0 c x y z) 0 REG_A1 = y" "get_reg (call0 c x y z) 0 REG_A2 = z"
proof -
  have "(0 :: nat) < length (procs run0)" using kinv_lengths(2) [OF run0_facts(1)] config_bounds(1) by simp
  then show "get_reg (call0 c x y z) 0 REG_T0 = of_nat (syscall_no c)"
    "get_reg (call0 c x y z) 0 REG_A0 = x" "get_reg (call0 c x y z) 0 REG_A1 = y" "get_reg (call0 c x y z) 0 REG_A2 = z"
    by (simp_all add: call0_def get_reg_def set_reg_def procs_upd_proc)
qed

lemma call0_args:
  "a0 (sys_args (call0 c x y z) 0) = x" "a1 (sys_args (call0 c x y z) 0) = y" "a2 (sys_args (call0 c x y z) 0) = z"
  by (simp_all add: sys_args_def call0_regs)

lemma call0_syscall: "syscall_of (get_reg (call0 c x y z) 0 REG_T0) = Some c"
  unfolding call0_regs by (cases c) (simp_all add: syscall_of_def all_syscalls_def)

text \<open>A state in which process 1 waits as the server of channel 0 and process 0 has a client socket.\<close>

definition talk0 :: kstate where
  "talk0 = (set_ctable (upd_proc run0 1 (\<lambda>q. q\<lparr>pstate := blocked_on 0, timeout := 100\<rparr>))
     (cte_set_cap (ctable run0) 9 (SockCap IPC_NOYIELD 5 0 7)))
     \<lparr>channels := (channels run0)[0 := \<lparr>server = Some 1, client = None, cap_buf = Some 40\<rparr>],
      mtimecmp := (\<lambda>_. 50), mtime := (\<lambda>_. 0)\<rparr>"

lemma talk0_facts:
  "kinv talk0" "pstate (procs talk0 ! 0) = PSF_BUSY" "cte_cap (ctable talk0) 9 = SockCap IPC_NOYIELD 5 0 7"
  "9 < length (ctable talk0)" "pstate (procs talk0 ! 1) = blocked_on 0" "timeout (procs talk0 ! 1) = 100"
  "server (channels talk0 ! 0) = Some 1" "mtime talk0 = (\<lambda>_. 0)" "mtimecmp talk0 = (\<lambda>_. 50)"
proof -
  note inv = run0_facts(1)
  have len: "length (ctable run0) = 64" "length (procs run0) = 2" "length (channels run0) = 2" "length (procs boot0) = 2"
    using kinv_lengths [OF inv] kinv_lengths [OF boot0_facts(1)] by (simp_all add: config_defs)
  have cap: "cte_cap (ctable run0) 9 = ChanCap 0 0 0 2"
    using boot0_facts(3) [of 9] by (simp add: run0_facts init_list_def pad0_def)
  let ?p = "upd_proc run0 1 (\<lambda>q. q\<lparr>pstate := blocked_on 0, timeout := 100\<rparr>)"
  have "kinv ?p" by (rule kinv_upd_proc [OF inv]) (auto simp: proc_ok_def state_ok_def)
  from kinv_set_cap [OF this, of 9 "SockCap IPC_NOYIELD 5 0 7"]
  have c: "kinv (set_ctable ?p (cte_set_cap (ctable ?p) 9 (SockCap IPC_NOYIELD 5 0 7)))"
    using cap len(1) by (simp add: config_defs)
  have "chans_ok ((channels run0)[0 := \<lparr>server = Some 1, client = None, cap_buf = Some 40\<rparr>])"
    using kinvD(3) [OF inv] by (auto simp: chans_ok_def chan_ok_def config_defs dest!: subsetD [OF set_update_subset_insert])
  with c show "kinv talk0" by (simp add: talk0_def kinv_def)
  show "pstate (procs talk0 ! 0) = PSF_BUSY" "cte_cap (ctable talk0) 9 = SockCap IPC_NOYIELD 5 0 7"
    "9 < length (ctable talk0)" "pstate (procs talk0 ! 1) = blocked_on 0" "timeout (procs talk0 ! 1) = 100"
    "server (channels talk0 ! 0) = Some 1" "mtime talk0 = (\<lambda>_. 0)" "mtimecmp talk0 = (\<lambda>_. 50)"
    using len by (simp_all add: talk0_def cte_get_set procs_upd_proc run0_def)
qed

text \<open>The first state with the clock at the beginning of a slot: process 0 is ready.\<close>

definition idle0 :: kstate where
  "idle0 = upd_proc boot0 0 (\<lambda>q. q\<lparr>timeout := 0\<rparr>)\<lparr>mtime := (\<lambda>_. 0)\<rparr>"

lemma idle0_facts:
  "kinv idle0" "mhartid idle0 = S3K_MIN_HART" "mtime idle0 = (\<lambda>_. 0)" "slots idle0 = slots boot0"
  "pstate (procs idle0 ! 0) = 0" "timeout (procs idle0 ! 0) = 0"
proof -
  have "(0 :: nat) < length (procs boot0)" using kinv_lengths(2) [OF boot0_facts(1)] config_bounds(1) by simp
  then show "pstate (procs idle0 ! 0) = 0" "timeout (procs idle0 ! 0) = 0"
    using boot0_facts(7) [of 0] config_bounds(1) by (simp_all add: idle0_def procs_upd_proc)
  have "kinv (upd_proc boot0 0 (\<lambda>q. q\<lparr>timeout := 0\<rparr>))"
    by (rule kinv_upd_proc [OF boot0_facts(1)]) (auto simp: proc_ok_def)
  then show "kinv idle0" by (simp add: idle0_def kinv_def)
qed (simp_all add: idle0_def boot0_facts)

end
