(* ===== verification/UserKernel.thy ===== *)
theory UserKernel
  imports UserSyscall Boot
begin

text \<open>
  The user library together with the kernel: the wrappers of \<open>common/src/s3k/syscall.c\<close> make
  only calls that the kernel handles without a fault, they return once the kernel is not
  preempted any more, and, with the kernel's own handler as the \<open>ecall\<close> instruction, they do
  what their caller expects.
\<close>

section \<open>The wrappers and the kernel\<close>

text \<open>
  A call fits if the registers that the wrapper sets satisfy what the handlers rely on, whatever
  the other registers hold.
\<close>

definition arg :: "sys_args_t \<Rightarrow> nat \<Rightarrow> u64" where
  "arg a i = [a0 a, a1 a, a2 a, a3 a, a4 a, a5 a, a6 a, a7 a] ! i"

definition fits :: "u64 \<Rightarrow> u64 list \<Rightarrow> bool" where
  "fits nr args \<longleftrightarrow> (\<exists>c. nr = of_nat (syscall_no c) \<and>
     (\<forall>a. (\<forall>i < length args. arg a i = args ! i) \<longrightarrow> args_fit c a))"

lemma fitsI:
  "(\<And>a. \<forall>i < length args. arg a i = args ! i \<Longrightarrow> args_fit c a) \<Longrightarrow> fits (of_nat (syscall_no c)) args"
  unfolding fits_def by blast

lemma unat_small [simp]:
  "unat (ucast (x :: u16) :: u64) < 65536" "unat (ucast (y :: u32) :: u64) < 4294967296"
  using unsigned_less [of x, where 'a = nat] unsigned_less [of y, where 'a = nat]
  by (simp_all add: unsigned_ucast_eq take_bit_nat_eq_self)

lemma call_fits:
  fixes x y z u v :: u16 and r :: u32
  shows "fits (of_nat (syscall_no SYS_GET_INFO)) as" "fits (of_nat (syscall_no SYS_SYNC)) as"
    "fits (of_nat (syscall_no SYS_SLEEP)) as"
    "c \<in> {SYS_REG_READ, SYS_REG_WRITE} \<Longrightarrow> fits (of_nat (syscall_no c)) (ucast r # as)"
    "c \<notin> {SYS_REG_READ, SYS_REG_WRITE, SYS_CAP_MOVE, SYS_CAP_DERIVE, SYS_MON_CAP_READ, SYS_MON_CAP_MOVE,
        SYS_MON_PMP_LOAD, SYS_MON_PMP_UNLOAD, SYS_SOCK_SEND, SYS_SOCK_RECV, SYS_SOCK_SENDRECV}
      \<Longrightarrow> fits (of_nat (syscall_no c)) (ucast x # as)"
    "c \<in> {SYS_CAP_MOVE, SYS_CAP_DERIVE, SYS_SOCK_SEND, SYS_SOCK_RECV, SYS_SOCK_SENDRECV}
      \<Longrightarrow> fits (of_nat (syscall_no c)) (ucast x # ucast y # as)"
    "c \<in> {SYS_MON_CAP_READ, SYS_MON_PMP_LOAD, SYS_MON_PMP_UNLOAD}
      \<Longrightarrow> fits (of_nat (syscall_no c)) (ucast x # ucast y # ucast z # as)"
    "fits (of_nat (syscall_no SYS_MON_CAP_MOVE)) (ucast x # ucast y # ucast z # ucast u # ucast v # as)"
  by (rule fitsI; cases c; simp add: arg_def All_less_Suc2)+


definition args_safe :: "'w ecall \<Rightarrow> 'w ecall \<Rightarrow> bool" where
  "args_safe ec ec' \<longleftrightarrow> (\<forall>nr args w. fits nr args \<longrightarrow> ec nr args w = ec' nr args w)"

lemma DO_ECALL_fits:
  "args_safe ec ec' \<Longrightarrow> fits (of_nat (syscall_no c)) args \<Longrightarrow> DO_ECALL ec c args w = DO_ECALL ec' c args w"
  by (simp add: DO_ECALL_def args_safe_def)

lemmas try_defs = s3k_get_pid_def s3k_get_time_def s3k_get_timeout_def s3k_reg_read_def s3k_reg_write_def
  s3k_sync_def s3k_sync_mem_def s3k_sleep_def s3k_cap_read_def s3k_try_cap_move_def
  s3k_try_cap_delete_def s3k_try_cap_revoke_def s3k_try_cap_derive_def s3k_try_pmp_load_def
  s3k_try_pmp_unload_def s3k_try_mon_suspend_def s3k_try_mon_resume_def s3k_try_mon_state_get_def
  s3k_try_mon_yield_def s3k_try_mon_reg_read_def s3k_try_mon_reg_write_def s3k_try_mon_cap_read_def
  s3k_try_mon_cap_move_def s3k_try_mon_pmp_load_def s3k_try_mon_pmp_unload_def
  s3k_try_sock_send_def s3k_try_sock_recv_def s3k_try_sock_sendrecv_def





section \<open>A wrapper on top of the kernel\<close>

text \<open>
  The instruction \<open>ecall\<close> of process \<open>p\<close> when the kernel handles the call without switching to
  another process: the wrapper's registers are loaded, the handler runs, and the registers of
  the process are what the wrapper reads.
\<close>

fun set_regs :: "kstate \<Rightarrow> proc_ptr \<Rightarrow> (reg_t \<times> u64) list \<Rightarrow> kstate" where
  "set_regs s p [] = s"
| "set_regs s p ((r, v) # rs) = set_regs (set_reg s p r v) p rs"

definition load_args :: "kstate \<Rightarrow> proc_ptr \<Rightarrow> u64 \<Rightarrow> u64 list \<Rightarrow> kstate" where
  "load_args s p nr args = set_regs s p ((REG_T0, nr) #
     zip [REG_A0, REG_A1, REG_A2, REG_A3, REG_A4, REG_A5, REG_A6, REG_A7] args)"

definition ret_regs :: "kstate \<Rightarrow> proc_ptr \<Rightarrow> ecall_ret" where
  "ret_regs s p = \<lparr>ret_t0 = get_reg s p REG_T0, ret_a0 = get_reg s p REG_A0, ret_a1 = get_reg s p REG_A1,
     ret_a2 = get_reg s p REG_A2, ret_a3 = get_reg s p REG_A3, ret_a4 = get_reg s p REG_A4,
     ret_a5 = get_reg s p REG_A5\<rparr>"

definition kernel_ecall :: "proc_ptr \<Rightarrow> kstate ecall" where
  "kernel_ecall p nr args s = (case syscall_handler (load_args s p nr args) p of
     Some (n, s') \<Rightarrow> (ret_regs s' p, s') | None \<Rightarrow> (ret_regs s p, s))"

lemma set_regs_frame [simp]:
  "ctable (set_regs s p rs) = ctable s" "mip (set_regs s p rs) = mip s" "reads (set_regs s p rs) = reads s"
  "cap_lock (set_regs s p rs) = cap_lock s" "length (procs (set_regs s p rs)) = length (procs s)"
  by (induction s p rs rule: set_regs.induct) simp_all

lemma pid_set_reg [simp]: "pid (procs (set_reg s p r v) ! q) = pid (procs s ! q)"
  by (cases "p < length (procs s)") (simp_all add: set_reg_def upd_proc_def nth_list_update list_update_beyond)

lemma pid_set_regs [simp]: "pid (procs (set_regs s p rs) ! q) = pid (procs s ! q)"
  by (induction s p rs rule: set_regs.induct) simp_all

lemma get_set_regs:
  "p < length (procs s) \<Longrightarrow> r \<notin> fst ` set rs \<Longrightarrow> get_reg (set_regs s p rs) p r = get_reg s p r"
  by (induction s p rs rule: set_regs.induct) (auto simp: get_set_reg)

lemma get_reg_reads [simp]: "get_reg (s\<lparr>reads := n\<rparr>) p r = get_reg s p r"
  by (simp add: get_reg_def)

lemma syscall_of_no: "syscall_of (of_nat (syscall_no c)) = Some c"
  by (cases c) (simp_all add: syscall_of_def all_syscalls_def)

lemma kernel_ecall_light:
  fixes args
  assumes p: "p < length (procs s)" and now: "mip s (reads s) AND 0x80 = 0" and c: "c < SYS_CAP_MOVE"
  defines "t \<equiv> load_args s p (of_nat (syscall_no c)) args"
  assumes v: "validators c (sys_args t p) = SUCCESS"
    and h: "handlers c (inc_pc (t\<lparr>reads := Suc (reads s)\<rparr>) p) p (sys_args t p) = Some (n, s')"
  shows "kernel_ecall p (of_nat (syscall_no c)) args s = (ret_regs s' p, s')"
proof -
  have "REG_T0 \<notin> fst ` set (zip [REG_A0, REG_A1, REG_A2, REG_A3, REG_A4, REG_A5, REG_A6, REG_A7] args)"
    by (auto dest!: set_zip_leftD)
  then have "get_reg t p REG_T0 = of_nat (syscall_no c)"
    using p by (simp add: t_def load_args_def get_set_regs get_set_reg del: zip_Cons_Cons)
  moreover have "mip t = mip s" "reads t = reads s" by (simp_all add: t_def load_args_def)
  ultimately have "syscall_handler t p = Some (n, s')"
    using now c v h by (simp add: syscall_handler_def syscall_of_no kernel_preempt_def)
  then show ?thesis by (simp add: kernel_ecall_def t_def)
qed

lemma cap_ok_raw: "cap_ok cp \<Longrightarrow> cap_of_raw (raw_of_cap cp) = cp"
  by (rule cap_roundtrip_lemma) (cases cp; simp)

lemma cap_read_call:
  assumes "kinv s" "p < S3K_PROC_CNT" "unat idx < S3K_CAP_CNT" "mip s (reads s) AND 0x80 = 0"
  shows "\<exists>x y. s3k_cap_read (kernel_ecall p) idx s =
      ((if cte_is_empty (ctable s) (p * S3K_CAP_CNT + unat idx) then ucast (err_code ERR_EMPTY) else 0,
        cte_cap (ctable s) (p * S3K_CAP_CNT + unat idx)),
       set_reg (set_reg (inc_pc (load_args s p (of_nat (syscall_no SYS_CAP_READ)) [ucast idx]
         \<lparr>reads := Suc (reads s)\<rparr>) p) p REG_A0 x) p REG_T0 y)"
proof -
  let ?c = "p * S3K_CAP_CNT + unat idx"
  have p: "p < length (procs s)" using assms kinv_lengths(2) by simp
  have get: "ctable_get p (unat idx) = Some ?c" using assms(2,3) by (simp add: ctable_get_def KASSERT_def)
  then have c: "?c < length (ctable s)" using cte_pid_ctable_get kinv_lengths(1) [OF assms(1)] by simp
  note ok = kinv_cap_ok [OF assms(1) c]
  define t where "t = load_args s p (of_nat (syscall_no SYS_CAP_READ)) [ucast idx]"
  define s' where "s' = inc_pc (t\<lparr>reads := Suc (reads s)\<rparr>) p"
  have t: "ctable s' = ctable s" "pid (procs s' ! p) = pid (procs s ! p)" "length (procs s') = length (procs s)"
    by (simp_all add: s'_def t_def load_args_def inc_pc_def)
  have a: "a0 (sys_args t p) = ucast idx"
    using p by (simp add: sys_args_def t_def load_args_def get_set_reg)
  have u: "unat (ucast idx :: u64) = unat idx" "(ucast (ucast idx :: u64) :: cidx_t) = idx"
    by (simp add: unat_ucast_up) (rule bit_word_eqI, simp add: bit_simps)
  have own: "own_cte s' p (ucast idx) = Some ?c"
    using kinv_proc_ok [OF assms(1,2)] get t(2) by (simp add: own_cte_def proc_ok_def u)
  have v: "validators SYS_CAP_READ (sys_args t p) = SUCCESS"
    using assms(3) by (simp add: validate_cap_read_def valid_idx_def a u)
  let ?e = "if raw_of_cap (cte_cap (ctable s) ?c) \<noteq> 0 then SUCCESS else ERR_EMPTY"
  let ?s = "set_reg (set_reg s' p REG_A0 (raw_of_cap (cte_cap (ctable s) ?c))) p REG_T0 (err_code ?e)"
  have h: "handlers SYS_CAP_READ s' p (sys_args t p) = Some (Some p, ?s)"
    by (simp add: handle_cap_read_def a own cap_read_def t Let_def)
  have call: "kernel_ecall p (of_nat (syscall_no SYS_CAP_READ)) [ucast idx] s = (ret_regs ?s p, ?s)"
    unfolding s'_def t_def
    by (rule kernel_ecall_light [OF p assms(4) _ v [unfolded t_def] h [unfolded s'_def t_def]])
      (simp add: less_syscall_t_def)
  have "cte_is_empty (ctable s) ?c \<longleftrightarrow> raw_of_cap (cte_cap (ctable s) ?c) = 0"
    using ok cap_ok_raw [OF ok] by (cases "cte_cap (ctable s) ?c") (auto simp: cte_is_empty_def cap_of_raw_def)
  then show ?thesis
    using p t cap_ok_raw [OF ok] call
    by (intro exI [of _ "raw_of_cap (cte_cap (ctable s) ?c)"] exI [of _ "err_code ?e"])
      (simp add: s3k_cap_read_def DO_ECALL_def ret_regs_def get_set_reg s'_def t_def del: syscall_no.simps)
qed

text \<open>From the user's point of view, \<open>s3k_cap_read\<close> gives the capability at the index of the
  process's own part of the table, with the error code that tells whether the entry is empty, and
  leaves the table unchanged.\<close>

theorem user_cap_read:
  assumes "kinv s" "p < S3K_PROC_CNT" "unat idx < S3K_CAP_CNT" "mip s (reads s) AND 0x80 = 0"
  shows "\<exists>s'. s3k_cap_read (kernel_ecall p) idx s =
      ((if cte_is_empty (ctable s) (p * S3K_CAP_CNT + unat idx) then ucast (err_code ERR_EMPTY) else 0,
        cte_cap (ctable s) (p * S3K_CAP_CNT + unat idx)), s') \<and> ctable s' = ctable s"
  using cap_read_call [OF assms] by (fastforce simp: inc_pc_def load_args_def)

lemma reg_call:
  assumes p: "p < length (procs s)" and now: "mip s (reads s) AND 0x80 = 0"
    and reg: "reg_of (unat reg) = Some r" "r \<notin> {REG_PC, REG_T0, REG_A0, REG_A1}"
  shows "\<exists>x s'. s3k_reg_write (kernel_ecall p) reg val s = (x, s') \<and> get_reg s' p r = val
      \<and> length (procs s') = length (procs s) \<and> mip s' = mip s \<and> reads s' = Suc (reads s)"
    "\<exists>s'. s3k_reg_read (kernel_ecall p) reg s = (get_reg s p r, s')"
proof -
  have u: "unat (ucast reg :: u64) = unat reg" "(ucast (ucast reg :: u64) :: u32) = reg"
    by (simp add: unat_ucast_up) (rule bit_word_eqI, simp add: bit_simps)
  have v: "valid_reg reg" using reg(1) by (simp add: valid_reg_def reg_of_def split: if_splits)
  define w where "w = load_args s p (of_nat (syscall_no SYS_REG_WRITE)) [ucast reg, val]"
  have a: "a0 (sys_args w p) = ucast reg" "a1 (sys_args w p) = val"
    using p by (simp_all add: sys_args_def w_def load_args_def get_set_reg)
  let ?w = "set_reg (set_reg (inc_pc (w\<lparr>reads := Suc (reads s)\<rparr>) p) p REG_T0 (err_code SUCCESS)) p r val"
  have "validators SYS_REG_WRITE (sys_args w p) = SUCCESS" by (simp add: validate_reg_write_def a u v)
  moreover have "handlers SYS_REG_WRITE (inc_pc (w\<lparr>reads := Suc (reads s)\<rparr>) p) p (sys_args w p) = Some (Some p, ?w)"
    by (simp add: handle_reg_write_def a u reg(1))
  ultimately have "kernel_ecall p (of_nat (syscall_no SYS_REG_WRITE)) [ucast reg, val] s = (ret_regs ?w p, ?w)"
    unfolding w_def by (intro kernel_ecall_light [OF p now]) (simp_all add: less_syscall_t_def)
  moreover have "get_reg ?w p r = val" "length (procs ?w) = length (procs s)" "mip ?w = mip s" "reads ?w = Suc (reads s)"
    using p by (simp_all add: get_set_reg inc_pc_def w_def load_args_def)
  ultimately show "\<exists>x s'. s3k_reg_write (kernel_ecall p) reg val s = (x, s') \<and> get_reg s' p r = val
      \<and> length (procs s') = length (procs s) \<and> mip s' = mip s \<and> reads s' = Suc (reads s)"
    by (simp add: s3k_reg_write_def DO_ECALL_def del: syscall_no.simps)
  define t where "t = load_args s p (of_nat (syscall_no SYS_REG_READ)) [ucast reg]"
  have b: "a0 (sys_args t p) = ucast reg"
    using p by (simp add: sys_args_def t_def load_args_def get_set_reg)
  let ?i = "set_reg (inc_pc (t\<lparr>reads := Suc (reads s)\<rparr>) p) p REG_T0 (err_code SUCCESS)"
  let ?t = "set_reg ?i p REG_A0 (get_reg ?i p r)"
  have "validators SYS_REG_READ (sys_args t p) = SUCCESS" by (simp add: validate_reg_read_def b u v)
  moreover have "handlers SYS_REG_READ (inc_pc (t\<lparr>reads := Suc (reads s)\<rparr>) p) p (sys_args t p) = Some (Some p, ?t)"
    by (simp add: handle_reg_read_def b u reg(1) Let_def)
  ultimately have "kernel_ecall p (of_nat (syscall_no SYS_REG_READ)) [ucast reg] s = (ret_regs ?t p, ?t)"
    unfolding t_def by (intro kernel_ecall_light [OF p now]) (simp_all add: less_syscall_t_def)
  moreover have "get_reg ?i p r = get_reg s p r" "p < length (procs ?i)"
    using p reg(2) by (simp_all add: get_set_reg inc_pc_def t_def load_args_def)
  ultimately show "\<exists>s'. s3k_reg_read (kernel_ecall p) reg s = (get_reg s p r, s')"
    by (simp add: s3k_reg_read_def DO_ECALL_def ret_regs_def get_set_reg del: syscall_no.simps)
qed

text \<open>A process that writes one of its registers through the library (other than those that the
  system call itself uses) and then reads it gets the value that it wrote.\<close>

theorem user_reg_roundtrip:
  assumes "kinv s" "p < S3K_PROC_CNT" "reg_of (unat reg) = Some r" "r \<notin> {REG_PC, REG_T0, REG_A0, REG_A1}"
    and "mip s (reads s) AND 0x80 = 0" "mip s (Suc (reads s)) AND 0x80 = 0"
  shows "fst (s3k_reg_read (kernel_ecall p) reg (snd (s3k_reg_write (kernel_ecall p) reg val s))) = val"
proof -
  have p: "p < length (procs s)" using assms(1,2) kinv_lengths(2) by simp
  from reg_call(1) [OF p assms(5,3,4), of val] obtain x t where
    t: "s3k_reg_write (kernel_ecall p) reg val s = (x, t)" "get_reg t p r = val"
    "length (procs t) = length (procs s)" "mip t = mip s" "reads t = Suc (reads s)" by blast
  with p assms(6) have "p < length (procs t)" "mip t (reads t) AND 0x80 = 0" by simp_all
  from reg_call(2) [OF this assms(3,4)] t show ?thesis by auto
qed

end
