(* ===== verification/AppsKernel.thy ===== *)
theory AppsKernel
  imports Apps UserKernel
begin

text \<open>
  The set-up programs of \<open>Apps\<close> on top of the kernel. The part of the kernel state that matters to
  them is its view: the capabilities, the PMP configurations, the states of the processes, the
  registers of all processes but the caller, and the owners of the slots. The system calls act on
  views, so a program is followed through its calls without looking at the links of the table.
\<close>

section \<open>Views\<close>

record view =
  v_cap :: "cte_t \<Rightarrow> cap"
  v_cfg :: "proc_ptr \<Rightarrow> u8 list"
  v_addr :: "proc_ptr \<Rightarrow> u64 list"
  v_state :: "proc_ptr \<Rightarrow> u64"
  v_regs :: "proc_ptr \<Rightarrow> reg_t \<Rightarrow> u64"
  v_slots :: "u64 list"

definition view_of :: "proc_ptr \<Rightarrow> kstate \<Rightarrow> view" where
  "view_of p s = \<lparr>v_cap = cte_cap (ctable s), v_cfg = \<lambda>q. pmpcfg (procs s ! q), v_addr = \<lambda>q. pmpaddr (procs s ! q),
     v_state = \<lambda>q. pstate (procs s ! q), v_regs = (\<lambda>q. if q = p then (\<lambda>_. 0) else regs (procs s ! q)), v_slots = slots s\<rparr>"

text \<open>No timer interrupt is pending from now on, and nobody holds the capability lock.\<close>

definition quiet :: "kstate \<Rightarrow> bool" where
  "quiet s \<longleftrightarrow> (\<forall>n \<ge> reads s. mip s n AND 0x80 = 0) \<and> cap_lock s = 0"

definition shows_view :: "proc_ptr \<Rightarrow> view \<Rightarrow> kstate \<Rightarrow> bool" where
  "shows_view p V s \<longleftrightarrow> kinv s \<and> quiet s \<and> view_of p s = V"

text \<open>A kernel operation, and a library call of process \<open>p\<close>, that succeeds on one view and gives another.\<close>

definition op_ok :: "proc_ptr \<Rightarrow> view \<Rightarrow> (kstate \<Rightarrow> (err_t \<times> kstate) option) \<Rightarrow> view \<Rightarrow> bool" where
  "op_ok p V f W \<longleftrightarrow> (\<forall>u. kinv u \<longrightarrow> view_of p u = V \<longrightarrow> (\<exists>v. f u = Some (SUCCESS, v) \<and> kinv v \<and> view_of p v = W
     \<and> mip v = mip u \<and> reads v = reads u))"

definition call_ok :: "proc_ptr \<Rightarrow> view \<Rightarrow> (kstate \<Rightarrow> (s3k_err_t \<times> kstate) option) \<Rightarrow> view \<Rightarrow> bool" where
  "call_ok p V f W \<longleftrightarrow> (\<forall>s. shows_view p V s \<longrightarrow> (\<exists>s'. f s = Some (0, s') \<and> shows_view p W s'))"

lemma call_okD: "call_ok p V f W \<Longrightarrow> shows_view p V s \<Longrightarrow> \<exists>s'. f s = Some (0, s') \<and> shows_view p W s'"
  by (simp add: call_ok_def)

lemma view_of_frame [simp]:
  "view_of p (s\<lparr>reads := n\<rparr>) = view_of p s" "view_of p (s\<lparr>cap_lock := l\<rparr>) = view_of p s"
  "view_of p (cap_lock_release s) = view_of p s"
  "view_of p (s\<lparr>csr_pmpaddr := x, csr_pmpcfg := y\<rparr>) = view_of p s"
  by (simp_all add: view_of_def cap_lock_release_def cong: if_cong)

lemma upd_proc_field:
  "(\<And>q. g (f q) = g q) \<Longrightarrow> g (procs (upd_proc s p f) ! q) = g (procs s ! q)"
  by (cases "p < length (procs s)") (simp_all add: upd_proc_def nth_list_update list_update_beyond)

lemma view_of_set_reg [simp]: "view_of p (set_reg s p r v) = view_of p s"
proof -
  have "regs (procs (set_reg s p r v) ! q) = regs (procs s ! q)" if "q \<noteq> p" for q
    using that by (simp add: set_reg_def upd_proc_def)
  then show ?thesis
    by (simp add: view_of_def fun_eq_iff set_reg_def upd_proc_field)
qed

lemma view_of_set_regs [simp]: "view_of p (set_regs s p rs) = view_of p s"
  by (induction s p rs rule: set_regs.induct) simp_all

lemma kinv_set_regs [simp]: "kinv s \<Longrightarrow> kinv (set_regs s p rs)"
  by (induction s p rs rule: set_regs.induct) (simp_all add: kinv_set_reg)

section \<open>Library calls on views\<close>

lemma get_set_regs_nth:
  "p < length (procs s) \<Longrightarrow> distinct rs \<Longrightarrow> i < length rs \<Longrightarrow> i < length vs \<Longrightarrow>
    get_reg (set_regs s p (zip rs vs)) p (rs ! i) = vs ! i"
proof (induction rs arbitrary: s vs i)
  case (Cons r rs)
  then obtain v vs' where vs: "vs = v # vs'" by (cases vs) auto
  have "r \<notin> fst ` set (zip rs vs')" using Cons.prems(2) by (auto dest: set_zip_leftD)
  with Cons vs show ?case by (cases i) (simp_all add: get_set_regs get_set_reg)
qed simp

lemma load_args_arg:
  assumes "p < length (procs s)" "i < length args" "length args \<le> 8"
  shows "arg (sys_args (load_args s p nr args) p) i = args ! i"
proof -
  let ?rs = "[REG_A0, REG_A1, REG_A2, REG_A3, REG_A4, REG_A5, REG_A6, REG_A7]"
  have "arg (sys_args t p) i = map (get_reg t p) ?rs ! i" for t
    by (simp add: arg_def sys_args_def)
  then have "arg (sys_args t p) i = get_reg t p (?rs ! i)" for t
    using assms(2,3) by (subst (asm) nth_map) simp_all
  moreover have "get_reg (load_args s p nr args) p (?rs ! i) = args ! i"
    using get_set_regs_nth [of p "set_reg s p REG_T0 nr" ?rs i args] assms by (simp add: load_args_def)
  ultimately show ?thesis by simp
qed

lemma load_args_frame:
  "view_of p (load_args s p nr args) = view_of p s" "mip (load_args s p nr args) = mip s"
  "reads (load_args s p nr args) = reads s" "length (procs (load_args s p nr args)) = length (procs s)"
  "kinv s \<Longrightarrow> kinv (load_args s p nr args)"
  unfolding load_args_def by (simp_all only: view_of_set_regs set_regs_frame kinv_set_regs)

text \<open>A light call and a call under the lock, from what its handler does.\<close>

lemma kernel_ecall_locked:
  fixes args
  assumes p: "p < length (procs s)" and now: "quiet s" and c: "\<not> c < SYS_CAP_MOVE"
  defines "t \<equiv> load_args s p (of_nat (syscall_no c)) args"
  assumes v: "validators c (sys_args t p) = SUCCESS"
    and h: "handlers c (inc_pc (t\<lparr>reads := Suc (reads s), cap_lock := 1\<rparr>) p) p (sys_args t p) = Some (n, s')"
  shows "kernel_ecall p (of_nat (syscall_no c)) args s = (ret_regs (cap_lock_release s') p, cap_lock_release s')"
proof -
  have "REG_T0 \<notin> fst ` set (zip [REG_A0, REG_A1, REG_A2, REG_A3, REG_A4, REG_A5, REG_A6, REG_A7] args)"
    by (auto dest!: set_zip_leftD)
  then have "get_reg t p REG_T0 = of_nat (syscall_no c)"
    using p by (simp add: t_def load_args_def get_set_regs get_set_reg del: zip_Cons_Cons)
  moreover have "mip t = mip s" "reads t = reads s" "cap_lock t = cap_lock s" by (simp_all add: t_def load_args_def)
  ultimately have "syscall_handler t p = Some (n, cap_lock_release s')"
    using now c v h
    by (simp add: syscall_handler_def syscall_of_no kernel_preempt_def quiet_def cap_lock_acquire_free config_defs)
  then show ?thesis by (simp add: kernel_ecall_def t_def)
qed

text \<open>
  The calls that run one operation on the table and report its error code: \<open>f\<close> is the operation
  that the handler runs once the arguments are those of the call.
\<close>

lemma locked_call:
  assumes op: "op_ok p V f W" and p: "p < S3K_PROC_CNT" and c: "\<not> c < SYS_CAP_MOVE" and len: "length args \<le> 8"
    and v: "\<And>a. \<forall>i < length args. arg a i = args ! i \<Longrightarrow> validators c a = SUCCESS"
    and h: "\<And>u a. kinv u \<Longrightarrow> \<forall>i < length args. arg a i = args ! i \<Longrightarrow>
      handlers c u p a = do { (e, v) \<leftarrow> f u; Some (Some p, set_reg v p REG_T0 (err_code e)) }"
  shows "call_ok p V (retry id (\<lambda>s. let (r, w) = DO_ECALL (kernel_ecall p) c args s in (fst r, w))) W"
  unfolding call_ok_def
proof (intro allI impI)
  fix s assume "shows_view p V s"
  then have s: "kinv s" "quiet s" "view_of p s = V" by (simp_all add: shows_view_def)
  have l: "p < length (procs s)" using s(1) p kinv_lengths(2) by simp
  define t where "t = load_args s p (of_nat (syscall_no c)) args"
  define u where "u = inc_pc (t\<lparr>reads := Suc (reads s), cap_lock := 1\<rparr>) p"
  have a: "\<forall>i < length args. arg (sys_args t p) i = args ! i" using load_args_arg [OF l _ len] by (simp add: t_def)
  have u: "kinv u" "view_of p u = V" "mip u = mip s" "reads u = Suc (reads s)"
    using s load_args_frame [where s = s and p = p] by (simp_all add: u_def t_def inc_pc_def kinv_set_reg)
  from op u(1,2) obtain w where w: "f u = Some (SUCCESS, w)" "kinv w" "view_of p w = W" "mip w = mip u" "reads w = reads u"
    unfolding op_ok_def by blast
  let ?w = "cap_lock_release (set_reg w p REG_T0 (err_code SUCCESS))"
  have "handlers c u p (sys_args t p) = Some (Some p, set_reg w p REG_T0 (err_code SUCCESS))"
    using h [OF u(1) a] w(1) by simp
  from kernel_ecall_locked [OF l s(2) c v this [unfolded u_def t_def]] a
  have call: "kernel_ecall p (of_nat (syscall_no c)) args s = (ret_regs ?w p, ?w)" by (simp add: t_def)
  have "p < length (procs w)" using w(2) p kinv_lengths(2) by simp
  then have "ret_t0 (ret_regs ?w p) = 0" by (simp add: ret_regs_def cap_lock_release_def get_reg_def procs_set_reg)
  then have "(let (r, w) = DO_ECALL (kernel_ecall p) c args s in (fst r, w)) = (0, ?w)"
    using call by (simp add: DO_ECALL_def)
  then have "retry id (\<lambda>s. let (r, w) = DO_ECALL (kernel_ecall p) c args s in (fst r, w)) s = Some (0, ?w)"
    by (subst retry.simps) (simp add: ERR_PREEMPTED_CODE_def)
  moreover have "shows_view p W ?w"
    using w u(3,4) s(2) by (auto simp: shows_view_def quiet_def cap_lock_release_def kinv_set_reg)
  ultimately show "\<exists>s'. retry id (\<lambda>s. let (r, w) = DO_ECALL (kernel_ecall p) c args s in (fst r, w)) s = Some (0, s')
      \<and> shows_view p W s'" by blast
qed

lemma own_cte_kinv: "kinv u \<Longrightarrow> p < S3K_PROC_CNT \<Longrightarrow> unat i < S3K_CAP_CNT \<Longrightarrow> own_cte u p i = Some (p * S3K_CAP_CNT + unat i)"
  using kinv_proc_ok [of u p] by (simp add: own_cte_def ctable_get_def KASSERT_def proc_ok_def)

lemma ctable_get_pid: "q < S3K_PROC_CNT \<Longrightarrow> i < S3K_CAP_CNT \<Longrightarrow> ctable_get q i = Some (q * S3K_CAP_CNT + i)"
  by (simp add: ctable_get_def KASSERT_def)

lemma unat_u16_u64: "unat (ucast (x :: u16) :: u64) = unat x" "(ucast (ucast x :: u64) :: u16) = x"
  by (simp add: unat_ucast_up) (rule bit_word_eqI, simp add: bit_simps)

lemma ucast_u8_u64: "(ucast (ucast (y :: u8) :: u64) :: u8) = y" "(ucast (ucast (z :: u32) :: u64) :: u32) = z"
  by (rule bit_word_eqI, simp add: bit_simps)+

lemmas call_simps = unat_u16_u64 ucast_u8_u64 own_cte_kinv ctable_get_pid valid_idx_def valid_pid_def valid_slot_def
  valid_reg_def arg_def All_less_Suc2

abbreviation cte_at :: "proc_ptr \<Rightarrow> cidx_t \<Rightarrow> cte_t" where
  "cte_at p i \<equiv> p * S3K_CAP_CNT + unat i"

lemma derive_call:
  assumes "op_ok p V (\<lambda>u. cap_derive u a b ncap) W" "a = cte_at p i" "b = cte_at p j" "p < S3K_PROC_CNT"
    and "unat i < S3K_CAP_CNT" "unat j < S3K_CAP_CNT" "cap_canonical ncap" "cap_is_valid ncap"
  shows "call_ok p V (s3k_cap_derive (kernel_ecall p) i j ncap) W"
  unfolding s3k_cap_derive_def s3k_try_cap_derive_def
  by (rule locked_call [OF assms(1,4)])
    (use assms(2-) in \<open>auto simp: less_syscall_t_def call_simps validate_cap_derive_def handle_cap_derive_def
        cap_roundtrip_lemma\<close>)

lemma load_call:
  assumes "op_ok p V (\<lambda>u. cap_pmp_load u a k) W" "a = cte_at p i" "p < S3K_PROC_CNT"
    and "unat i < S3K_CAP_CNT" "unat k < S3K_PMP_CNT"
  shows "call_ok p V (s3k_pmp_load (kernel_ecall p) i k) W"
  unfolding s3k_pmp_load_def s3k_try_pmp_load_def
  by (rule locked_call [OF assms(1,3)])
    (use assms(2-) in \<open>auto simp: less_syscall_t_def call_simps validate_pmp_load_def handle_pmp_load_def\<close>)

lemma mon_move_call:
  assumes "op_ok p V (\<lambda>u. cap_monitor_cap_move u mon a b) W"
    and "mon = cte_at p m" "a = cte_at (unat q) i" "b = cte_at (unat r) j" "p < S3K_PROC_CNT"
    and "unat m < S3K_CAP_CNT" "unat i < S3K_CAP_CNT" "unat j < S3K_CAP_CNT" "unat q < S3K_PROC_CNT" "unat r < S3K_PROC_CNT"
  shows "call_ok p V (s3k_mon_cap_move (kernel_ecall p) m q i r j) W"
  unfolding s3k_mon_cap_move_def s3k_try_mon_cap_move_def
  by (rule locked_call [OF assms(1,5)])
    (use assms(2-) in \<open>auto simp: less_syscall_t_def call_simps validate_mon_cap_move_def handle_mon_cap_move_def\<close>)

lemma mon_load_call:
  assumes "op_ok p V (\<lambda>u. cap_monitor_pmp_load u mon a k) W" "mon = cte_at p m" "a = cte_at (unat q) i" "p < S3K_PROC_CNT"
    and "unat m < S3K_CAP_CNT" "unat i < S3K_CAP_CNT" "unat q < S3K_PROC_CNT" "unat k < S3K_PMP_CNT"
  shows "call_ok p V (s3k_mon_pmp_load (kernel_ecall p) m q i k) W"
  unfolding s3k_mon_pmp_load_def s3k_try_mon_pmp_load_def
  by (rule locked_call [OF assms(1,4)])
    (use assms(2-) in \<open>auto simp: less_syscall_t_def call_simps validate_mon_pmp_load_def handle_mon_pmp_load_def\<close>)

lemma mon_reg_write_call:
  assumes "op_ok p V (\<lambda>u. cap_monitor_reg_write u mon q r x) W" "mon = cte_at p m" "p < S3K_PROC_CNT"
    and "unat m < S3K_CAP_CNT" "unat q < S3K_PROC_CNT" "unat r < REG_CNT"
  shows "call_ok p V (s3k_mon_reg_write (kernel_ecall p) m q r x) W"
  unfolding s3k_mon_reg_write_def s3k_try_mon_reg_write_def
  by (rule locked_call [OF assms(1,3)])
    (use assms(2-) in \<open>auto simp: less_syscall_t_def call_simps validate_mon_reg_write_def handle_mon_reg_write_def\<close>)

lemma mon_resume_call:
  assumes "op_ok p V (\<lambda>u. cap_monitor_resume u mon q) W" "mon = cte_at p m" "p < S3K_PROC_CNT"
    and "unat m < S3K_CAP_CNT" "unat q < S3K_PROC_CNT"
  shows "call_ok p V (s3k_mon_resume (kernel_ecall p) m q) W"
  unfolding s3k_mon_resume_def s3k_try_mon_resume_def
  by (rule locked_call [OF assms(1,3)])
    (use assms(2-) in \<open>auto simp: less_syscall_t_def call_simps validate_mon_resume_def handle_mon_resume_def\<close>)

text \<open>Reloading the PMP registers of the hart changes nothing that the view shows.\<close>

lemma sync_mem_call:
  assumes "shows_view p V s" "p < S3K_PROC_CNT"
  shows "\<exists>s'. s3k_sync_mem (kernel_ecall p) s = ((), s') \<and> shows_view p V s'"
proof -
  have s: "kinv s" "quiet s" "view_of p s = V" using assms(1) by (simp_all add: shows_view_def)
  have l: "p < length (procs s)" using s(1) assms(2) kinv_lengths(2) by simp
  define t where "t = load_args s p (of_nat (syscall_no SYS_SYNC)) [0]"
  have a: "a0 (sys_args t p) = 0" using load_args_arg [OF l, of 0 "[0]"] by (simp add: t_def arg_def)
  let ?w = "proc_pmp_sync (inc_pc (t\<lparr>reads := Suc (reads s)\<rparr>) p) p"
  have "handlers SYS_SYNC (inc_pc (t\<lparr>reads := Suc (reads s)\<rparr>) p) p (sys_args t p) = Some (Some p, ?w)"
    by (simp add: handle_sync_def a)
  moreover have "mip s (reads s) AND 0x80 = 0" using s(2) by (simp add: quiet_def)
  ultimately have "kernel_ecall p (of_nat (syscall_no SYS_SYNC)) [0] s = (ret_regs ?w p, ?w)"
    unfolding t_def by (intro kernel_ecall_light [OF l]) (simp_all add: less_syscall_t_def validate_sync_def)
  moreover have "shows_view p V ?w"
  proof -
    have u: "kinv (inc_pc (t\<lparr>reads := Suc (reads s)\<rparr>) p)" "view_of p (inc_pc (t\<lparr>reads := Suc (reads s)\<rparr>) p) = V"
      using s load_args_frame [where s = s and p = p] by (simp_all add: t_def inc_pc_def kinv_set_reg)
    have q: "mip ?w = mip s" "reads ?w = Suc (reads s)" "cap_lock ?w = cap_lock s"
      by (simp_all add: t_def inc_pc_def proc_pmp_sync_def load_args_def)
    have "kinv ?w" using u(1) by (simp add: proc_pmp_sync_def kinv_def)
    moreover have "view_of p ?w = V" using u(2) by (simp add: proc_pmp_sync_def)
    moreover have "quiet ?w" using s(2) by (auto simp: quiet_def q)
    ultimately show ?thesis by (simp add: shows_view_def)
  qed
  ultimately show ?thesis by (simp add: s3k_sync_mem_def DO_ECALL_def del: syscall_no.simps)
qed

text \<open>Reading a capability, and the search for a free entry.\<close>

lemma read_call:
  assumes "shows_view p V s" "p < S3K_PROC_CNT" "unat i < S3K_CAP_CNT"
  shows "\<exists>s'. s3k_cap_read (kernel_ecall p) i s = ((if cap_type (v_cap V (cte_at p i)) = CAPTY_NONE then ucast (err_code ERR_EMPTY) else 0,
    v_cap V (cte_at p i)), s') \<and> shows_view p V s'"
proof -
  have s: "kinv s" "quiet s" "view_of p s = V" using assms(1) by (simp_all add: shows_view_def)
  let ?t = "load_args s p (of_nat (syscall_no SYS_CAP_READ)) [ucast i]"
  have cap: "cte_cap (ctable s) = v_cap V" using s(3) by (auto simp: view_of_def)
  have "mip s (reads s) AND 0x80 = 0" using s(2) by (simp add: quiet_def)
  from cap_read_call [OF s(1) assms(2,3) this] obtain x y where r: "s3k_cap_read (kernel_ecall p) i s =
      ((if cte_is_empty (ctable s) (cte_at p i) then ucast (err_code ERR_EMPTY) else 0, v_cap V (cte_at p i)),
       set_reg (set_reg (inc_pc (?t\<lparr>reads := Suc (reads s)\<rparr>) p) p REG_A0 x) p REG_T0 y)" (is "_ = (_, ?s')")
    unfolding cap by blast
  have "quiet ?s'" using s(2) by (auto simp: quiet_def inc_pc_def load_args_def)
  moreover have "view_of p ?s' = V" "kinv ?s'"
    using s load_args_frame [where s = s and p = p] by (simp_all add: inc_pc_def kinv_set_reg)
  ultimately show ?thesis using r by (simp add: shows_view_def cte_is_empty_def cap)
qed

lemma find_free_from:
  assumes "shows_view p V s" "p < S3K_PROC_CNT" "i \<le> 21"
  shows "\<exists>s'. find_free_loop (kernel_ecall p) (of_nat i) s
      = (case find (\<lambda>j. cap_type (v_cap V (p * S3K_CAP_CNT + j)) = CAPTY_NONE) [i..<21] of Some j \<Rightarrow> of_nat j | None \<Rightarrow> 0, s')
    \<and> shows_view p V s'"
  using assms(1,3)
proof (induction "21 - i" arbitrary: i s)
  case 0
  then have "i = 21" by simp
  with 0 show ?case by (simp add: FREE_CAP_END_def find_free_loop.simps)
next
  case (Suc n)
  then have i: "i < 21" by simp
  then have u: "unat (of_nat i :: u32) = i" "unat (ucast (of_nat i :: u32) :: cidx_t) = i"
    by (simp_all add: unsigned_of_nat take_bit_nat_eq_self unsigned_ucast_eq)
  then have le: "(of_nat i :: u32) \<le> FREE_CAP_END" using i by (simp add: FREE_CAP_END_def word_le_nat_alt)
  from read_call [OF Suc.prems(1) assms(2), of "ucast (of_nat i :: u32)"] i u obtain s' where
    r: "s3k_cap_read (kernel_ecall p) (ucast (of_nat i :: u32)) s = ((if cap_type (v_cap V (p * S3K_CAP_CNT + i)) = CAPTY_NONE
      then ucast (err_code ERR_EMPTY) else 0, v_cap V (p * S3K_CAP_CNT + i)), s')" "shows_view p V s'"
    by (auto simp: config_defs)
  have up: "[i..<21] = i # [Suc i..<21]" using i by (rule upt_conv_Cons)
  have step: "find_free_loop (kernel_ecall p) (of_nat i) s = (if cap_type (v_cap V (p * S3K_CAP_CNT + i)) = CAPTY_NONE
      then (of_nat i, s') else find_free_loop (kernel_ecall p) (of_nat (Suc i)) s')"
    by (subst find_free_loop.simps) (use r(1) le in \<open>simp add: add.commute\<close>)
  from Suc.hyps(1) [of "Suc i" s'] Suc.hyps(2) i r(2) show ?case
    unfolding step up by (cases "cap_type (v_cap V (p * S3K_CAP_CNT + i)) = CAPTY_NONE") simp_all
qed

text \<open>On the kernel, \<open>find_free_cap\<close> gives the first free entry from 12 to 20, and 0 when there is none.\<close>

lemma find_free_cap_first:
  assumes "shows_view p V s" "p < S3K_PROC_CNT"
  shows "\<exists>s'. find_free_cap (kernel_ecall p) s
      = (case find (\<lambda>j. cap_type (v_cap V (p * S3K_CAP_CNT + j)) = CAPTY_NONE) [12..<21] of Some j \<Rightarrow> of_nat j | None \<Rightarrow> 0, s')
    \<and> shows_view p V s'"
  using find_free_from [OF assms, of 12] by (simp add: find_free_cap_def FREE_CAP_BEGIN_def)

section \<open>Operations on views\<close>

lemma op_okI:
  assumes "\<And>u. kinv u \<Longrightarrow> view_of p u = V \<Longrightarrow> \<exists>v. f u = Some (SUCCESS, v) \<and> view_of p v = W \<and> mip v = mip u \<and> reads v = reads u"
    and "\<And>u v. kinv u \<Longrightarrow> f u = Some (SUCCESS, v) \<Longrightarrow> kinv v"
  shows "op_ok p V f W"
  unfolding op_ok_def using assms by blast

lemma view_ofD:
  assumes "view_of p u = V"
  shows "cte_cap (ctable u) c = v_cap V c" "pmpcfg (procs u ! q) = v_cfg V q" "pmpaddr (procs u ! q) = v_addr V q"
    "pstate (procs u ! q) = v_state V q" "slots u = v_slots V"
  using assms by (auto simp: view_of_def)

lemma view_of_ctable: "view_of p (set_ctable u ct) = (view_of p u)\<lparr>v_cap := cte_cap ct\<rparr>"
  by (simp add: view_of_def set_ctable_def cong: if_cong)

lemma table_length: "kinv u \<Longrightarrow> length (ctable u) = S3K_PROC_CNT * S3K_CAP_CNT"
  by (rule kinv_lengths(1))

lemma derive_pmp_op:
  assumes c: "src < S3K_PROC_CNT * S3K_CAP_CNT" "dst < S3K_PROC_CNT * S3K_CAP_CNT"
    and cap: "v_cap V src = MemCap rwx lck tag bgn mrk end'" "v_cap V dst = NoCap 0"
    and addr: "pmp_napot_decode (ucast addr) = (base, sz)" "tag_block_to_addr tag mrk \<le> base"
      "sz + base \<le> tag_block_to_addr tag end'" "nrwx AND rwx = nrwx"
    and v: "cap_is_valid (PmpCap nrwx False 0 addr)"
  shows "op_ok p V (\<lambda>u. cap_derive u src dst (PmpCap nrwx False 0 addr))
    (V\<lparr>v_cap := (v_cap V)(src := MemCap rwx True tag bgn mrk end', dst := PmpCap nrwx False 0 addr)\<rparr>)"
proof (rule op_okI)
  fix u assume u: "kinv u" "view_of p u = V"
  note d = view_ofD [OF u(2)] and l = table_length [OF u(1)]
  have ne: "src \<noteq> dst" using cap by auto
  let ?ct = "cte_insert (cte_set_cap (ctable u) src (MemCap rwx True tag bgn mrk end')) dst (PmpCap nrwx False 0 addr) src"
  have "cte_cap ?ct = (v_cap V)(src := MemCap rwx True tag bgn mrk end', dst := PmpCap nrwx False 0 addr)"
    using c l ne d(1) by (auto simp: fun_eq_iff cte_cap_ops cte_get_set)
  moreover have "cap_derive u src dst (PmpCap nrwx False 0 addr) = Some (SUCCESS, set_ctable u ?ct)"
    using d(1) cap addr by (simp add: cap_derive_def cap_derive_memory_def cte_is_empty_def)
  ultimately show "\<exists>v. cap_derive u src dst (PmpCap nrwx False 0 addr) = Some (SUCCESS, v)
      \<and> view_of p v = V\<lparr>v_cap := (v_cap V)(src := MemCap rwx True tag bgn mrk end', dst := PmpCap nrwx False 0 addr)\<rparr>
      \<and> mip v = mip u \<and> reads v = reads u"
    using u(2) by (simp add: view_of_ctable)
next
  fix u v assume "kinv u" "cap_derive u src dst (PmpCap nrwx False 0 addr) = Some (SUCCESS, v)"
  with cap_derive_ok [of u src dst, OF _ _ _ v] c table_length show "kinv v" by simp
qed

lemma load_op:
  assumes c: "c < S3K_PROC_CNT * S3K_CAP_CNT" and cap: "v_cap V c = PmpCap rwx False 0 addr"
    and k: "unat k < S3K_PMP_CNT" "v_cfg V (cte_pid c) ! unat k = 0" and q: "cte_pid c = q"
  shows "op_ok p V (\<lambda>u. cap_pmp_load u c k)
    (V\<lparr>v_cap := (v_cap V)(c := PmpCap rwx True k addr),
       v_cfg := (v_cfg V)(q := (v_cfg V q)[unat k := ucast rwx OR 0x18]),
       v_addr := (v_addr V)(q := (v_addr V q)[unat k := ucast addr])\<rparr>)"
proof (rule op_okI)
  fix u assume u: "kinv u" "view_of p u = V"
  note d = view_ofD [OF u(2)] and l = table_length [OF u(1)]
  have pid: "cte_pid c < S3K_PROC_CNT" "cte_pid c < length (procs u)"
    using kinv_pid [OF u(1)] c l kinv_lengths(2) [OF u(1)] by simp_all
  let ?u = "upd_proc u q (\<lambda>q. q\<lparr>pmpcfg := (pmpcfg q)[unat k := ucast rwx OR 0x18], pmpaddr := (pmpaddr q)[unat k := ucast addr]\<rparr>)"
  let ?v = "set_ctable ?u (cte_set_cap (ctable ?u) c (PmpCap rwx True k addr))"
  have "cap_pmp_load u c k = Some (SUCCESS, ?v)"
    using cap k d by (simp add: cap_pmp_load_def kinv_proc_get [OF u(1) pid(1), unfolded q]
        proc_pmp_avail_def proc_pmp_load_def q)
  moreover have "view_of p ?v = V\<lparr>v_cap := (v_cap V)(c := PmpCap rwx True k addr),
       v_cfg := (v_cfg V)(q := (v_cfg V q)[unat k := ucast rwx OR 0x18]),
       v_addr := (v_addr V)(q := (v_addr V q)[unat k := ucast addr])\<rparr>"
    unfolding u(2) [symmetric]
    using c l pid(2) q by (auto simp: view_of_def fun_eq_iff cte_get_set procs_upd_proc)
  ultimately show "\<exists>v. cap_pmp_load u c k = Some (SUCCESS, v) \<and> view_of p v = V\<lparr>v_cap := (v_cap V)(c := PmpCap rwx True k addr),
       v_cfg := (v_cfg V)(q := (v_cfg V q)[unat k := ucast rwx OR 0x18]),
       v_addr := (v_addr V)(q := (v_addr V q)[unat k := ucast addr])\<rparr> \<and> mip v = mip u \<and> reads v = reads u" by simp
next
  fix u v assume "kinv u" "cap_pmp_load u c k = Some (SUCCESS, v)"
  with cap_pmp_load_ok [of u c k] c k table_length show "kinv v" by simp
qed

text \<open>Process \<open>q\<close> is suspended and covered by the monitor capability \<open>mon\<close>.\<close>

definition controls :: "view \<Rightarrow> cte_t \<Rightarrow> proc_ptr \<Rightarrow> bool" where
  "controls V mon q \<longleftrightarrow> (\<exists>pad bgn mrk end'. v_cap V mon = MonCap pad bgn mrk end' \<and> unat mrk \<le> q \<and> q < unat end')
     \<and> v_state V q = PSF_SUSPENDED \<and> q < S3K_PROC_CNT"

lemma check_monitor_view:
  assumes "controls V mon q" "kinv u" "view_of p u = V" "unat x = q"
  shows "check_monitor u mon x b = Some SUCCESS" "proc_get u q = Some q"
proof -
  show g: "proc_get u q = Some q" using assms(1,2) kinv_proc_get by (simp add: controls_def)
  show "check_monitor u mon x b = Some SUCCESS"
    using assms(1,4) view_ofD [OF assms(3)] g
    by (auto simp: controls_def check_monitor_def proc_is_suspended_def word_less_nat_alt word_le_nat_alt)
qed

lemma unat_of_pid: "q < S3K_PROC_CNT \<Longrightarrow> unat (of_nat q :: pid_t) = q"
  using config_bounds(2) by (simp add: unsigned_of_nat take_bit_nat_eq_self)

lemma mon_load_op:
  assumes "op_ok p V (\<lambda>u. cap_pmp_load u c k) W" "controls V mon (cte_pid c)"
  shows "op_ok p V (\<lambda>u. cap_monitor_pmp_load u mon c k) W"
  using assms check_monitor_view(1) [OF assms(2), where p = p] unat_of_pid [of "cte_pid c"]
  by (simp add: op_ok_def cap_monitor_pmp_load_def controls_def)

lemma mon_reg_write_op:
  assumes "controls V mon (unat x)" "reg_of (unat reg) = Some r" "unat x \<noteq> p" "mon < S3K_PROC_CNT * S3K_CAP_CNT"
  shows "op_ok p V (\<lambda>u. cap_monitor_reg_write u mon x reg val)
    (V\<lparr>v_regs := (v_regs V)(unat x := (v_regs V (unat x))(r := val))\<rparr>)"
proof (rule op_okI)
  fix u assume u: "kinv u" "view_of p u = V"
  let ?q = "unat x"
  have l: "?q < length (procs u)" using assms(1) kinv_lengths(2) [OF u(1)] by (simp add: controls_def)
  have "cap_monitor_reg_write u mon x reg val = Some (SUCCESS, set_reg u ?q r val)"
    using check_monitor_view [OF assms(1) u refl] assms(2) by (simp add: cap_monitor_reg_write_def)
  moreover have "view_of p (set_reg u ?q r val) = V\<lparr>v_regs := (v_regs V)(?q := (v_regs V ?q)(r := val))\<rparr>"
    unfolding u(2) [symmetric] using l assms(3) by (auto simp: view_of_def fun_eq_iff procs_set_reg)
  ultimately show "\<exists>v. cap_monitor_reg_write u mon x reg val = Some (SUCCESS, v)
      \<and> view_of p v = V\<lparr>v_regs := (v_regs V)(?q := (v_regs V ?q)(r := val))\<rparr> \<and> mip v = mip u \<and> reads v = reads u" by simp
next
  fix u v assume "kinv u" "cap_monitor_reg_write u mon x reg val = Some (SUCCESS, v)"
  moreover have "unat reg < REG_CNT" using assms(2) by (simp add: reg_of_def split: if_splits)
  ultimately show "kinv v" using monitor_reg_ok(2) [of u mon reg x val] assms(4) table_length by simp
qed

lemma mon_resume_op:
  assumes "controls V mon (unat x)" "mon < S3K_PROC_CNT * S3K_CAP_CNT"
  shows "op_ok p V (\<lambda>u. cap_monitor_resume u mon x) (V\<lparr>v_state := (v_state V)(unat x := 0)\<rparr>)"
proof (rule op_okI)
  fix u assume u: "kinv u" "view_of p u = V"
  let ?q = "unat x"
  have l: "?q < length (procs u)" using assms(1) kinv_lengths(2) [OF u(1)] by (simp add: controls_def)
  have st: "pstate (procs u ! ?q) = PSF_SUSPENDED" using view_ofD(4) [OF u(2)] assms(1) by (simp add: controls_def)
  have "cap_monitor_resume u mon x = Some (SUCCESS, proc_resume u ?q)"
    using check_monitor_view [OF assms(1) u refl] by (simp add: cap_monitor_resume_def)
  moreover have "view_of p (proc_resume u ?q) = V\<lparr>v_state := (v_state V)(?q := 0)\<rparr>"
    unfolding u(2) [symmetric] using l st
    by (auto simp: view_of_def fun_eq_iff proc_resume_def procs_upd_proc PSF_SUSPENDED_def)
  ultimately show "\<exists>v. cap_monitor_resume u mon x = Some (SUCCESS, v) \<and> view_of p v = V\<lparr>v_state := (v_state V)(?q := 0)\<rparr>
      \<and> mip v = mip u \<and> reads v = reads u" by (simp add: proc_resume_def Let_def)
next
  fix u v assume "kinv u" "cap_monitor_resume u mon x = Some (SUCCESS, v)"
  then show "kinv v" using monitor_state_ok(2) [of u mon x] assms(2) table_length by simp
qed

lemma move_view:
  assumes "src < S3K_PROC_CNT * S3K_CAP_CNT" "dst < S3K_PROC_CNT * S3K_CAP_CNT" "src \<noteq> dst"
    and "kinv u" "view_of p u = V" "slots u' = ss" "ctable u' = ctable u" "procs u' = procs u"
  shows "view_of p (set_ctable u' (cte_move (ctable u') src dst))
    = V\<lparr>v_cap := (v_cap V)(dst := v_cap V src, src := NoCap 0), v_slots := ss\<rparr>"
  unfolding assms(5) [symmetric] using assms(1-3,6-8) table_length [OF assms(4)]
  by (auto simp: view_of_def fun_eq_iff cte_cap_ops)

text \<open>Handing a capability to a suspended process: an unloaded PMP frame, or time.\<close>

lemma mon_move_op:
  assumes c: "src < S3K_PROC_CNT * S3K_CAP_CNT" "dst < S3K_PROC_CNT * S3K_CAP_CNT" "mon < S3K_PROC_CNT * S3K_CAP_CNT"
    and pids: "cte_pid mon = cte_pid src" "cte_pid dst \<noteq> cte_pid src" "controls V mon (cte_pid dst)"
    and cap: "v_cap V dst = NoCap 0"
      "v_cap V src = PmpCap rwx False k addr \<and> ss = v_slots V
        \<or> v_cap V src = TimeCap pad h bgn mrk end' \<and> ss = assign_hart (unat h) (cte_pid dst) (unat end') (unat mrk) (unat end') (v_slots V)"
  shows "op_ok p V (\<lambda>u. cap_monitor_cap_move u mon src dst)
    (V\<lparr>v_cap := (v_cap V)(dst := v_cap V src, src := NoCap 0), v_slots := ss\<rparr>)"
proof (rule op_okI)
  fix u assume u: "kinv u" "view_of p u = V"
  note d = view_ofD [OF u(2)]
  have ne: "src \<noteq> dst" using pids(2) by auto
  have "check_monitor_move u mon src dst = Some SUCCESS"
    using pids check_monitor_view(1) [OF pids(3) u] unat_of_pid [of "cte_pid dst"]
    by (simp add: check_monitor_move_def controls_def)
  moreover have "cap_ipc_move_hook u src dst = Some (u\<lparr>slots := ss\<rparr>)"
  proof (cases "v_cap V src = PmpCap rwx False k addr \<and> ss = v_slots V")
    case True
    then show ?thesis using d by (simp add: cap_ipc_move_hook_def)
  next
    case False
    with cap(2) have t: "v_cap V src = TimeCap pad h bgn mrk end'"
      "ss = assign_hart (unat h) (cte_pid dst) (unat end') (unat mrk) (unat end') (v_slots V)" by blast+
    have "cap_ok (v_cap V src)" using kinv_cap_ok [OF u(1), of src] c(1) d(1) table_length [OF u(1)] by simp
    with t have "hart_ok (unat h)" "unat end' \<le> S3K_SLOT_CNT" by simp_all
    with t d(1,5) show ?thesis by (simp add: cap_ipc_move_hook_def sched_update_ok [OF u(1)])
  qed
  moreover have "\<not> cte_is_empty (ctable u) src" "cte_is_empty (ctable u) dst"
    using cap d(1) by (auto simp: cte_is_empty_def)
  ultimately have "cap_monitor_cap_move u mon src dst
      = Some (SUCCESS, set_ctable (u\<lparr>slots := ss\<rparr>) (cte_move (ctable (u\<lparr>slots := ss\<rparr>)) src dst))"
    using pids(2) by (simp add: cap_monitor_cap_move_def cap_move_def)
  with move_view [OF c(1,2) ne u, of "u\<lparr>slots := ss\<rparr>" ss]
  show "\<exists>v. cap_monitor_cap_move u mon src dst = Some (SUCCESS, v)
      \<and> view_of p v = V\<lparr>v_cap := (v_cap V)(dst := v_cap V src, src := NoCap 0), v_slots := ss\<rparr>
      \<and> mip v = mip u \<and> reads v = reads u" by simp
next
  fix u v assume "kinv u" "cap_monitor_cap_move u mon src dst = Some (SUCCESS, v)"
  with monitor_cap_ok(2) [of u mon src dst] c table_length show "kinv v" by simp
qed

end
