(* ===== verification/Hello.thy ===== *)
theory Hello
  imports AppsKernel
begin

text \<open>
  The set-up code of \<open>projects/hello/app0/main.c\<close> followed through its system calls, from the kernel
  right after initialisation to the moment when the second process is ready.
\<close>

section \<open>The example \<open>hello\<close>\<close>

text \<open>The frames that \<open>hello\<close> makes: the registers of the serial port and the memory of the second process.\<close>

definition uart_frame :: "48 word" where "uart_frame = 0x4000000"

definition app1_frame :: "48 word" where "app1_frame = 0x20009fff"

lemma frames:
  "s3k_mk_pmp (s3k_napot_encode UART0_BASE_ADDR 8) S3K_MEM_RW = PmpCap 3 False 0 uart_frame"
  "s3k_mk_pmp (s3k_napot_encode 0x80020000 0x10000) S3K_MEM_RWX = PmpCap 7 False 0 app1_frame"
  "pmp_napot_decode (ucast uart_frame) = (0x10000000, 8)" "pmp_napot_decode (ucast app1_frame) = (0x80020000, 0x10000)"
  "tag_block_to_addr 2 0 = 0x10000000" "tag_block_to_addr 2 2 = 0x10002000"
  "tag_block_to_addr 16 0x20 = 0x80020000" "tag_block_to_addr 16 0x8000 = 0x88000000"
  by code_simp+

lemma frame_cfg: "(ucast (3 :: rwx_t) :: u8) OR 0x18 = 0x1b" "(ucast (7 :: rwx_t) :: u8) OR 0x18 = 0x1f"
  by code_simp+

lemma frame_caps [simp]:
  "cap_is_valid (PmpCap 3 False 0 uart_frame)" "cap_is_valid (PmpCap 7 False 0 app1_frame)"
  by code_simp+

text \<open>What the set-up code relies on: the initial capabilities of process 0, a suspended process 1.\<close>

definition setup_view :: "view \<Rightarrow> bool" where
  "setup_view V \<longleftrightarrow> v_cap V 1 = MemCap 7 False 16 0x20 0x20 0x8000 \<and> (\<exists>l. v_cap V 2 = MemCap 3 l 2 0 0 2)
     \<and> (\<exists>pad. v_cap V 5 = TimeCap pad 1 0 0 32) \<and> (\<exists>pad. v_cap V 8 = MonCap pad 0 0 2) \<and> v_cap V 11 = NoCap 0
     \<and> (\<forall>c. 32 \<le> c \<longrightarrow> c < 64 \<longrightarrow> v_cap V c = NoCap 0)
     \<and> v_cfg V 1 = replicate 8 0 \<and> v_state V 1 = PSF_SUSPENDED"

lemma config_at: "S3K_PROC_CNT = 2" "S3K_CAP_CNT = 32" "S3K_PMP_CNT = 8"
  by (simp_all add: config_defs)

lemma pid_at: "c < 32 \<Longrightarrow> cte_pid c = 0" "32 \<le> c \<Longrightarrow> c < 64 \<Longrightarrow> cte_pid c = 1"
  by (simp_all add: cte_pid_def config_at)

definition uart_view :: "cte_t \<Rightarrow> view \<Rightarrow> view" where
  "uart_view c V = V\<lparr>v_cap := (v_cap V)(2 := MemCap 3 True 2 0 0 2, c := PmpCap 3 True 1 uart_frame),
     v_cfg := (v_cfg V)(0 := (v_cfg V 0)[1 := 0x1b]), v_addr := (v_addr V)(0 := (v_addr V 0)[1 := ucast uart_frame])\<rparr>"

lemma hello_uart:
  assumes "shows_view 0 V s" "v_cap V 2 = MemCap 3 l 2 0 0 2" "v_cap V (unat (ucast i :: cidx_t)) = NoCap 0" "unat (ucast i :: cidx_t) < 32"
    and "v_cfg V 0 ! 1 = 0"
  shows "\<exists>s'. hello_setup_uart (kernel_ecall 0) i s = Some s' \<and> shows_view 0 (uart_view (unat (ucast i :: cidx_t)) V) s'"
proof -
  let ?c = "unat (ucast i :: cidx_t)"
  have ne: "?c \<noteq> 2" using assms(2,3) by auto
  define V1 where "V1 = V\<lparr>v_cap := (v_cap V)(2 := MemCap 3 True 2 0 0 2, ?c := PmpCap 3 False 0 uart_frame)\<rparr>"
  have "op_ok 0 V (\<lambda>u. cap_derive u 2 ?c (PmpCap 3 False 0 uart_frame)) V1"
    unfolding V1_def by (rule derive_pmp_op [OF _ _ _ _ frames(3)]) (use assms frames in \<open>simp_all add: config_at\<close>)
  then have "call_ok 0 V (s3k_cap_derive (kernel_ecall 0) UART_MEM (ucast i) (PmpCap 3 False 0 uart_frame)) V1"
    by (rule derive_call) (use assms(4) in \<open>simp_all add: config_at app_consts\<close>)
  from call_okD [OF this assms(1)] obtain s1 where
    s1: "s3k_cap_derive (kernel_ecall 0) UART_MEM (ucast i) (PmpCap 3 False 0 uart_frame) s = Some (0, s1)" "shows_view 0 V1 s1" by blast
  have "op_ok 0 V1 (\<lambda>u. cap_pmp_load u ?c 1) (V1\<lparr>v_cap := (v_cap V1)(?c := PmpCap 3 True 1 uart_frame),
       v_cfg := (v_cfg V1)(0 := (v_cfg V1 0)[unat (1 :: u8) := ucast (3 :: rwx_t) OR 0x18]),
       v_addr := (v_addr V1)(0 := (v_addr V1 0)[unat (1 :: u8) := ucast uart_frame])\<rparr>)"
    by (rule load_op) (use assms(4,5) in \<open>simp_all add: V1_def config_at pid_at\<close>)
  also have "V1\<lparr>v_cap := (v_cap V1)(?c := PmpCap 3 True 1 uart_frame),
       v_cfg := (v_cfg V1)(0 := (v_cfg V1 0)[unat (1 :: u8) := ucast (3 :: rwx_t) OR 0x18]),
       v_addr := (v_addr V1)(0 := (v_addr V1 0)[unat (1 :: u8) := ucast uart_frame])\<rparr> = uart_view ?c V"
    using ne by (simp add: V1_def uart_view_def frame_cfg)
  finally have "call_ok 0 V1 (s3k_pmp_load (kernel_ecall 0) (ucast i) 1) (uart_view ?c V)"
    by (rule load_call) (use assms(4) in \<open>simp_all add: config_at\<close>)
  from call_okD [OF this s1(2)] obtain s2 where
    s2: "s3k_pmp_load (kernel_ecall 0) (ucast i) 1 s1 = Some (0, s2)" "shows_view 0 (uart_view ?c V) s2" by blast
  from sync_mem_call [OF s2(2)] obtain s3 where "s3k_sync_mem (kernel_ecall 0) s2 = ((), s3)" "shows_view 0 (uart_view ?c V) s3"
    by (auto simp: config_at)
  with s1(1) s2(1) show ?thesis by (simp add: hello_setup_uart_def frames)
qed

text \<open>
  A frame for process 1: derived from the memory capability \<open>src\<close> into the entry \<open>t\<close>, moved to entry
  \<open>j\<close> of process 1 and loaded there in slot \<open>k\<close>.
\<close>

definition give_view :: "cte_t \<Rightarrow> cap \<Rightarrow> cte_t \<Rightarrow> cte_t \<Rightarrow> pmp_slot_t \<Rightarrow> rwx_t \<Rightarrow> 48 word \<Rightarrow> view \<Rightarrow> view" where
  "give_view src cp t j k rwx addr V = V\<lparr>v_cap := (v_cap V)(src := cp, t := NoCap 0, j := PmpCap rwx True k addr),
     v_cfg := (v_cfg V)(1 := (v_cfg V 1)[unat k := ucast rwx OR 0x18]),
     v_addr := (v_addr V)(1 := (v_addr V 1)[unat k := ucast addr])\<rparr>"

lemma give_frame:
  assumes s: "shows_view 0 V s" and c: "src < 32" "t < 32" "32 \<le> j" "j < 64" "unat k < 8"
    and cap: "v_cap V src = MemCap rwx l tag bgn mrk end'" "v_cap V t = NoCap 0" "v_cap V j = NoCap 0" "controls V 8 1"
    and addr: "pmp_napot_decode (ucast addr) = (base, sz)" "tag_block_to_addr tag mrk \<le> base"
      "sz + base \<le> tag_block_to_addr tag end'" "nrwx AND rwx = nrwx" "cap_is_valid (PmpCap nrwx False 0 addr)"
    and free: "v_cfg V 1 ! unat k = 0"
    and idx: "src = cte_at 0 isrc" "t = cte_at 0 it" "j = cte_at 1 ij" "unat isrc < 32" "unat it < 32" "unat ij < 32"
  shows "\<exists>s1 s2 s3. s3k_cap_derive (kernel_ecall 0) isrc it (PmpCap nrwx False 0 addr) s = Some (0, s1)
    \<and> s3k_mon_cap_move (kernel_ecall 0) MONITOR APP0_PID it APP1_PID ij s1 = Some (0, s2)
    \<and> s3k_mon_pmp_load (kernel_ecall 0) MONITOR APP1_PID ij k s2 = Some (0, s3)
    \<and> shows_view 0 (give_view src (MemCap rwx True tag bgn mrk end') t j k nrwx addr V) s3"
proof -
  have mon: "v_cap V 8 \<noteq> NoCap 0" "v_cap V 8 \<noteq> MemCap rwx l tag bgn mrk end'" using cap(4) by (auto simp: controls_def)
  then have ne: "src \<noteq> t" "t \<noteq> 8" "src \<noteq> 8" "t \<noteq> j" "src \<noteq> j" "j \<noteq> 8" using cap(1,2) c by auto
  define V1 where "V1 = V\<lparr>v_cap := (v_cap V)(src := MemCap rwx True tag bgn mrk end', t := PmpCap nrwx False 0 addr)\<rparr>"
  have "op_ok 0 V (\<lambda>u. cap_derive u src t (PmpCap nrwx False 0 addr)) V1"
    unfolding V1_def by (rule derive_pmp_op [OF _ _ cap(1,2) addr]) (use c in \<open>simp_all add: config_at\<close>)
  then have "call_ok 0 V (s3k_cap_derive (kernel_ecall 0) isrc it (PmpCap nrwx False 0 addr)) V1"
    by (rule derive_call) (use idx addr(5) in \<open>simp_all add: config_at\<close>)
  from call_okD [OF this s] obtain s1 where
    s1: "s3k_cap_derive (kernel_ecall 0) isrc it (PmpCap nrwx False 0 addr) s = Some (0, s1)" "shows_view 0 V1 s1" by blast
  define V2 where "V2 = V1\<lparr>v_cap := (v_cap V1)(j := v_cap V1 t, t := NoCap 0), v_slots := v_slots V1\<rparr>"
  have "controls V1 8 1" using cap(4) ne by (simp add: controls_def V1_def)
  then have "op_ok 0 V1 (\<lambda>u. cap_monitor_cap_move u 8 t j) V2"
    unfolding V2_def
    by (intro mon_move_op [where rwx = nrwx and k = 0 and addr = addr]) (use c ne cap(3) in \<open>simp_all add: config_at pid_at V1_def\<close>)
  then have "call_ok 0 V1 (s3k_mon_cap_move (kernel_ecall 0) MONITOR APP0_PID it APP1_PID ij) V2"
    by (rule mon_move_call) (use idx in \<open>simp_all add: config_at app_consts\<close>)
  from call_okD [OF this s1(2)] obtain s2 where
    s2: "s3k_mon_cap_move (kernel_ecall 0) MONITOR APP0_PID it APP1_PID ij s1 = Some (0, s2)" "shows_view 0 V2 s2" by blast
  define V3 where "V3 = V2\<lparr>v_cap := (v_cap V2)(j := PmpCap nrwx True k addr),
       v_cfg := (v_cfg V2)(1 := (v_cfg V2 1)[unat k := ucast nrwx OR 0x18]),
       v_addr := (v_addr V2)(1 := (v_addr V2 1)[unat k := ucast addr])\<rparr>"
  have "op_ok 0 V2 (\<lambda>u. cap_pmp_load u j k) V3"
    unfolding V3_def by (rule load_op) (use c ne free in \<open>simp_all add: config_at pid_at V2_def V1_def\<close>)
  moreover have "controls V2 8 (cte_pid j)" using cap(4) ne c by (simp add: controls_def V2_def V1_def pid_at)
  ultimately have "op_ok 0 V2 (\<lambda>u. cap_monitor_pmp_load u 8 j k) V3" by (rule mon_load_op)
  then have "call_ok 0 V2 (s3k_mon_pmp_load (kernel_ecall 0) MONITOR APP1_PID ij k) V3"
    by (rule mon_load_call) (use idx c in \<open>simp_all add: config_at app_consts\<close>)
  from call_okD [OF this s2(2)] obtain s3 where
    s3: "s3k_mon_pmp_load (kernel_ecall 0) MONITOR APP1_PID ij k s2 = Some (0, s3)" "shows_view 0 V3 s3" by blast
  have "V3 = give_view src (MemCap rwx True tag bgn mrk end') t j k nrwx addr V"
    using ne by (auto simp: give_view_def V3_def V2_def V1_def fun_upd_twist)
  with s1(1) s2(1) s3 show ?thesis by auto
qed

definition app1_memory_view :: "view \<Rightarrow> view" where
  "app1_memory_view V = give_view 2 (MemCap 3 True 2 0 0 2) 11 33 1 3 uart_frame
     (give_view 1 (MemCap 7 True 16 0x20 0x20 0x8000) 11 32 0 7 app1_frame V)"

lemma setup_view_controls: "setup_view V \<Longrightarrow> controls V 8 1"
  by (auto simp: setup_view_def controls_def config_at)

lemma app1_memory:
  assumes s: "shows_view 0 V s" and V: "setup_view V"
  shows "\<exists>s'. setup_app1_memory (kernel_ecall 0) 11 s = Some s' \<and> shows_view 0 (app1_memory_view V) s'"
proof -
  define V1 where "V1 = give_view 1 (MemCap 7 True 16 0x20 0x20 0x8000) 11 32 0 7 app1_frame V"
  note d = V [unfolded setup_view_def]
  have u: "unat (11 :: u16) = 11" "unat (0x8000 :: u16) = 0x8000" by simp_all
  have "\<exists>s1 s2 s3. s3k_cap_derive (kernel_ecall 0) RAM_MEM 11 (PmpCap 7 False 0 app1_frame) s = Some (0, s1)
    \<and> s3k_mon_cap_move (kernel_ecall 0) MONITOR APP0_PID 11 APP1_PID 0 s1 = Some (0, s2)
    \<and> s3k_mon_pmp_load (kernel_ecall 0) MONITOR APP1_PID 0 0 s2 = Some (0, s3) \<and> shows_view 0 V1 s3"
    unfolding V1_def
    by (rule give_frame [OF s _ _ _ _ _ _ _ _ setup_view_controls [OF V] frames(4), where l = False])
      (use d in \<open>simp_all add: frames config_at app_consts\<close>)
  then obtain s1 s2 s3 where s3: "s3k_cap_derive (kernel_ecall 0) RAM_MEM 11 (PmpCap 7 False 0 app1_frame) s = Some (0, s1)"
    "s3k_mon_cap_move (kernel_ecall 0) MONITOR APP0_PID 11 APP1_PID 0 s1 = Some (0, s2)"
    "s3k_mon_pmp_load (kernel_ecall 0) MONITOR APP1_PID 0 0 s2 = Some (0, s3)" "shows_view 0 V1 s3" by blast
  from d obtain l where l: "v_cap V 2 = MemCap 3 l 2 0 0 2" by blast
  have c1: "controls V1 8 1" using setup_view_controls [OF V] by (simp add: controls_def V1_def give_view_def)
  have "\<exists>s4 s5 s6. s3k_cap_derive (kernel_ecall 0) UART_MEM 11 (PmpCap 3 False 0 uart_frame) s3 = Some (0, s4)
    \<and> s3k_mon_cap_move (kernel_ecall 0) MONITOR APP0_PID 11 APP1_PID 1 s4 = Some (0, s5)
    \<and> s3k_mon_pmp_load (kernel_ecall 0) MONITOR APP1_PID 1 1 s5 = Some (0, s6)
    \<and> shows_view 0 (give_view 2 (MemCap 3 True 2 0 0 2) 11 33 1 3 uart_frame V1) s6"
    by (rule give_frame [OF s3(4) _ _ _ _ _ _ _ _ c1 frames(3), where l = l])
      (use d l in \<open>simp_all add: frames config_at app_consts V1_def give_view_def\<close>)
  with s3(1-3) show ?thesis
    by (auto simp: setup_app1_memory_def frames app1_memory_view_def V1_def)
qed

definition hello_view :: "4 word \<Rightarrow> view \<Rightarrow> view" where
  "hello_view pad V = (let W = app1_memory_view V in
     W\<lparr>v_cap := (v_cap W)(34 := TimeCap pad 1 0 0 32, 5 := NoCap 0), v_slots := assign_hart 1 1 32 0 32 (v_slots W),
       v_regs := (v_regs W)(1 := (v_regs W 1)(REG_PC := 0x80020000)), v_state := (v_state W)(1 := 0)\<rparr>)"

lemma hello_app1:
  assumes s: "shows_view 0 V s" and V: "setup_view V" "v_cap V 5 = TimeCap pad 1 0 0 32"
  shows "\<exists>s'. hello_setup_app1 (kernel_ecall 0) 11 s = Some s' \<and> shows_view 0 (hello_view pad V) s'"
proof -
  define W where "W = app1_memory_view V"
  from app1_memory [OF s V(1)] obtain s1 where s1: "setup_app1_memory (kernel_ecall 0) 11 s = Some s1" "shows_view 0 W s1"
    unfolding W_def by blast
  note w = W_def app1_memory_view_def give_view_def
  have c: "controls W 8 1" using setup_view_controls [OF V(1)] by (simp add: controls_def w)
  have t: "v_cap W 5 = TimeCap pad 1 0 0 32" "v_cap W 34 = NoCap 0" using V by (simp_all add: w setup_view_def)
  define W1 where "W1 = W\<lparr>v_cap := (v_cap W)(34 := v_cap W 5, 5 := NoCap 0), v_slots := assign_hart 1 1 32 0 32 (v_slots W)\<rparr>"
  have "op_ok 0 W (\<lambda>u. cap_monitor_cap_move u 8 5 34) W1"
    unfolding W1_def
    by (rule mon_move_op [where pad = pad and h = 1 and bgn = 0 and mrk = 0 and end' = 32])
      (use c t in \<open>simp_all add: config_at pid_at\<close>)
  then have "call_ok 0 W (s3k_mon_cap_move (kernel_ecall 0) MONITOR APP0_PID HART1_TIME APP1_PID 2) W1"
    by (rule mon_move_call) (simp_all add: config_at app_consts)
  from call_okD [OF this s1(2)] obtain s2 where
    s2: "s3k_mon_cap_move (kernel_ecall 0) MONITOR APP0_PID HART1_TIME APP1_PID 2 s1 = Some (0, s2)" "shows_view 0 W1 s2" by blast
  define W2 where "W2 = W1\<lparr>v_regs := (v_regs W1)(unat APP1_PID := (v_regs W1 (unat APP1_PID))(REG_PC := 0x80020000))\<rparr>"
  have c1: "controls W1 8 (unat APP1_PID)" using c by (simp add: controls_def W1_def app_consts)
  have "op_ok 0 W1 (\<lambda>u. cap_monitor_reg_write u 8 APP1_PID S3K_REG_PC 0x80020000) W2"
    unfolding W2_def
    by (rule mon_reg_write_op [OF c1]) (simp_all add: app_consts config_at reg_of_def REG_CNT_def all_regs_def)
  then have "call_ok 0 W1 (s3k_mon_reg_write (kernel_ecall 0) MONITOR APP1_PID S3K_REG_PC 0x80020000) W2"
    by (rule mon_reg_write_call) (simp_all add: config_at app_consts REG_CNT_def all_regs_def)
  from call_okD [OF this s2(2)] obtain s3 where
    s3: "s3k_mon_reg_write (kernel_ecall 0) MONITOR APP1_PID S3K_REG_PC 0x80020000 s2 = Some (0, s3)" "shows_view 0 W2 s3" by blast
  have c2: "controls W2 8 (unat APP1_PID)" using c1 by (simp add: controls_def W2_def)
  have "op_ok 0 W2 (\<lambda>u. cap_monitor_resume u 8 APP1_PID) (W2\<lparr>v_state := (v_state W2)(unat APP1_PID := 0)\<rparr>)"
    by (rule mon_resume_op [OF c2]) (simp add: config_at)
  then have "call_ok 0 W2 (s3k_mon_resume (kernel_ecall 0) MONITOR APP1_PID) (W2\<lparr>v_state := (v_state W2)(unat APP1_PID := 0)\<rparr>)"
    by (rule mon_resume_call) (simp_all add: config_at app_consts)
  from call_okD [OF this s3(2)] obtain s4 where
    s4: "s3k_mon_resume (kernel_ecall 0) MONITOR APP1_PID s3 = Some (0, s4)"
    "shows_view 0 (W2\<lparr>v_state := (v_state W2)(unat APP1_PID := 0)\<rparr>) s4" by blast
  have "W2\<lparr>v_state := (v_state W2)(unat APP1_PID := 0)\<rparr> = hello_view pad V"
    using t(1) by (simp add: hello_view_def Let_def W2_def W1_def W_def app_consts)
  with s1(1) s2(1) s3(1) s4 show ?thesis by (simp add: hello_setup_app1_def)
qed

text \<open>The kernel right after initialisation, with process 0 running.\<close>

lemma boot_view:
  assumes "kernel_init pad (zero_state hart time irq) = Some s0"
    and "s = upd_proc s0 0 (\<lambda>q. q\<lparr>pstate := PSF_BUSY, timeout := t, regs := rs\<rparr>)" "\<And>n. irq n AND 0x80 = 0"
  shows "shows_view 0 (view_of 0 s) s" "setup_view (view_of 0 s)" "v_cap (view_of 0 s) 5 = TimeCap (time_pad pad 1) 1 0 0 32"
    "v_cap (view_of 0 s) 10 = NoCap 0" "v_cfg (view_of 0 s) 0 = 0x1f # replicate 7 0" "length (v_addr (view_of 0 s) q) = 8 \<or> \<not> q < 2"
proof -
  from kernel_init_ok [of pad hart time irq] assms(1) have s0: "kinv s0"
    "\<And>c. 0 < c \<Longrightarrow> c < 26 \<Longrightarrow> cte_cap (ctable s0) c = init_list pad ! c"
    "\<And>c. 26 \<le> c \<Longrightarrow> c < length (ctable s0) \<Longrightarrow> cte_cap (ctable s0) c = NoCap 0"
    "cte_cap (ctable s0) 0 = PmpCap 7 True 0 0x2007ffff" "pstate (procs s0 ! 1) = PSF_SUSPENDED" "cap_lock s0 = 0" "mip s0 = irq"
    by (auto simp: config_at)
  have len: "length (ctable s0) = 64" "length (procs s0) = 2" using kinv_lengths [OF s0(1)] by (simp_all add: config_at)
  have "kinv s" unfolding assms(2) by (rule kinv_upd_proc [OF s0(1)]) (auto simp: proc_ok_def state_ok_def)
  moreover have "quiet s" using s0(6,7) assms(3) by (simp add: assms(2) quiet_def)
  ultimately show "shows_view 0 (view_of 0 s) s" by (simp add: shows_view_def)
  have used: "pmp_used (ctable s0) c = (if c = 0 then Some (7, 0, 0x2007ffff) else None)" for c
  proof -
    have "\<forall>cp \<in> set (init_list pad). used_of cp = None" by (simp add: init_list_def)
    then have "used_of (init_list pad ! c) = None" if "c < 26" using that init_list_ok(1) [of pad] by simp
    with s0(2-4) len show ?thesis by (cases "c < 26") (auto simp: pmp_used_cap not_less)
  qed
  note U = kinvD(5) [OF s0(1)]
  have cfg: "length (pmpcfg (procs s0 ! q)) = 8" "length (pmpaddr (procs s0 ! q)) = 8" if "q < 2" for q
    using kinv_proc_ok [OF s0(1), of q] that by (simp_all add: proc_ok_def config_at)
  have zero: "pmpcfg (procs s0 ! q) ! k = 0" if qk: "q < 2" "k < 8" "(q, k) \<noteq> (0, 0)" for q k
  proof (rule ccontr)
    assume "pmpcfg (procs s0 ! q) ! k \<noteq> 0"
    then obtain c rwx a where "pmp_used (ctable s0) c = Some (rwx, k, a)" "cte_pid c = q"
      using pmp_invD(3) [OF U, of q k] qk len(2) by (auto simp: config_at)
    then show False using used qk(3) pid_at(1) [of 0] by (auto split: if_splits)
  qed
  have "pmpcfg (procs s0 ! 0) ! 0 = 0x1f"
    using pmp_invD(1) [OF U, of 0] used [of 0] pid_at(1) [of 0] by (simp add: frame_cfg)
  with cfg(1) [of 0] zero [of 0] have c0: "pmpcfg (procs s0 ! 0) = 0x1f # replicate 7 0"
    by (intro nth_equalityI) (auto simp: nth_Cons split: nat.split)
  have c1: "pmpcfg (procs s0 ! 1) = replicate 8 0" using cfg(1) [of 1] zero [of 1] by (intro nth_equalityI) auto
  have caps: "v_cap (view_of 0 s) = cte_cap (ctable s0)" by (simp add: view_of_def assms(2))
  have fld: "v_cfg (view_of 0 s) q = pmpcfg (procs s0 ! q)" "v_addr (view_of 0 s) q = pmpaddr (procs s0 ! q)" for q
    using len(2) by (simp_all add: view_of_def assms(2) procs_upd_proc)
  show "v_cap (view_of 0 s) 5 = TimeCap (time_pad pad 1) 1 0 0 32" "v_cap (view_of 0 s) 10 = NoCap 0"
    using s0(2) [of 5] s0(2) [of 10] by (simp_all add: caps init_list_def nth_append)
  show "v_cfg (view_of 0 s) 0 = 0x1f # replicate 7 0" "length (v_addr (view_of 0 s) q) = 8 \<or> \<not> q < 2"
    using c0 cfg(2) by (auto simp: fld)
  show "setup_view (view_of 0 s)"
    using s0(2) [of 1] s0(2) [of 2] s0(2) [of 5] s0(2) [of 8] s0(2) [of 11] s0(3) s0(5) c1 len
    by (auto simp: setup_view_def caps fld init_list_def nth_append) (simp add: view_of_def assms(2) procs_upd_proc)
qed

lemma eight_slots: "replicate 8 0 = [0, 0, 0, 0, 0, 0, 0, 0]" "replicate 7 0 = [0, 0, 0, 0, 0, 0, 0]"
  by (simp_all add: numeral_eq_Suc)

lemma hello_view_fields:
  assumes "v_cfg V 1 = replicate 8 0" "length (v_addr V 1) = 8"
  shows "v_cfg (hello_view pad V) 1 = [0x1f, 0x1b, 0, 0, 0, 0, 0, 0]"
    "v_addr (hello_view pad V) 1 ! 0 = ucast app1_frame" "v_addr (hello_view pad V) 1 ! 1 = ucast uart_frame"
    "v_cfg (hello_view pad V) 0 = v_cfg V 0" "v_addr (hello_view pad V) 0 = v_addr V 0"
    "v_regs (hello_view pad V) 1 REG_PC = 0x80020000" "v_state (hello_view pad V) 1 = 0"
    "v_slots (hello_view pad V) = assign_hart 1 1 32 0 32 (v_slots V)"
  using assms by (simp_all add: hello_view_def Let_def app1_memory_view_def give_view_def frame_cfg eight_slots)



end
