(* ===== verification/Tutorials.thy ===== *)
theory Tutorials
  imports Apps
begin

text \<open>
  The programs of the tutorials \<open>projects/tutorial.01.hello-world\<close> to \<open>projects/tutorial.09.fs\<close> and of
  \<open>projects/exercise\<close>, over the helpers of \<open>Apps\<close>. A \<open>main\<close> that ends in an endless loop is the part
  before the loop (\<open>_start\<close>) and one round of the loop (\<open>_round\<close>).

  What is not a call of the library is an argument: accesses of the program to memory that another
  process or a capability opens to it, and the operations of the file system, which act on the
  world as well. Loops that only count in a local variable are left out.
\<close>

section \<open>Constants, strings in messages, memory and files\<close>

definition S3K_REG_SERVTIME :: u32 where "S3K_REG_SERVTIME = 38"
definition BUFFER_PMP :: pmp_slot_t where "BUFFER_PMP = 2"
definition APP_1_PMP_SLOT_BUFFER :: pmp_slot_t where "APP_1_PMP_SLOT_BUFFER = 2"
definition SHARED_BUFFER_BASE :: u64 where "SHARED_BUFFER_BASE = APP_1_BASE_ADDR + APP_1_SIZE"
definition SHARED_BUFFER_SIZE :: u64 where "SHARED_BUFFER_SIZE = 0x10000"

text \<open>Storing characters at the start of the data words of a message, lowest byte first.\<close>

fun bytes_word :: "string \<Rightarrow> u64" where
  "bytes_word [] = 0"
| "bytes_word (c # cs) = of_nat (of_char c) OR push_bit 8 (bytes_word cs)"

fun group_words :: "string \<Rightarrow> u64 list" where
  "group_words [] = []"
| "group_words (c # cs) = bytes_word (take 8 (c # cs)) # group_words (drop 7 cs)"

definition put_bytes :: "string \<Rightarrow> s3k_msg_t \<Rightarrow> s3k_msg_t" where
  "put_bytes cs msg = msg\<lparr>data := group_words (cs @ drop (length cs) (concat (map word_bytes (data msg))))\<rparr>"

text \<open>\<open>alt_snprintf\<close> into the data of a message; the zero that ends the text is stored too.\<close>

definition msg_printf :: "nat \<Rightarrow> string \<Rightarrow> va list \<Rightarrow> s3k_msg_t \<Rightarrow> s3k_msg_t option" where
  "msg_printf sz fmt ap msg = do { (str, n) \<leftarrow> alt_snprintf sz fmt ap; Some (put_bytes (str @ [CHR 0x00]) msg) }"

text \<open>Loads and stores of the program; an access that the PMP refuses does not continue.\<close>

record 'w memory =
  ld64 :: "u64 \<Rightarrow> 'w \<Rightarrow> (u64 \<times> 'w) option"
  st64 :: "u64 \<Rightarrow> u64 \<Rightarrow> 'w \<Rightarrow> 'w option"
  ld32 :: "u64 \<Rightarrow> 'w \<Rightarrow> (u32 \<times> 'w) option"
  st32 :: "u64 \<Rightarrow> u32 \<Rightarrow> 'w \<Rightarrow> 'w option"
  copy_to :: "u64 \<Rightarrow> u8 list \<Rightarrow> 'w \<Rightarrow> 'w option"

text \<open>
  The file system with the one file object of the programs: the result codes, the bytes that
  \<open>f_read\<close> stores and the number of bytes that \<open>f_write\<close> reports.
\<close>

record 'w fatfs =
  f_mount :: "string \<Rightarrow> u8 \<Rightarrow> 'w \<Rightarrow> (u32 \<times> 'w) option"
  f_open :: "string \<Rightarrow> u8 \<Rightarrow> 'w \<Rightarrow> (u32 \<times> 'w) option"
  f_read :: "nat \<Rightarrow> 'w \<Rightarrow> ((u32 \<times> u8 list) \<times> 'w) option"
  f_write :: "string \<Rightarrow> 'w \<Rightarrow> ((u32 \<times> u32) \<times> 'w) option"
  f_close :: "'w \<Rightarrow> (u32 \<times> 'w) option"

definition FA_READ :: u8 where "FA_READ = 0x01"
definition FA_WRITE :: u8 where "FA_WRITE = 0x02"
definition FA_CREATE_ALWAYS :: u8 where "FA_CREATE_ALWAYS = 0x08"
definition FR_OK :: u32 where "FR_OK = 0"

definition on_memory :: "('w \<Rightarrow> 'w option) \<Rightarrow> 'w app \<Rightarrow> 'w app option" where
  "on_memory f a = map_option (\<lambda>w. (w, snd a)) (f (fst a))"

section \<open>Tutorials 1 to 3\<close>

definition tut01_main :: "'w ecall \<Rightarrow> putc \<Rightarrow> 'w app \<Rightarrow> 'w app option" where
  "tut01_main ec uart_putc a = do {
     a \<leftarrow> on_memory (setup_uart ec) a;
     app_printf uart_putc (''Hello, world'' @ nl) [] a }"

definition tut02_trap_handler :: "'w ecall \<Rightarrow> putc \<Rightarrow> 'w app \<Rightarrow> 'w app option" where
  "tut02_trap_handler ec uart_putc a = do {
     a \<leftarrow> on_memory (setup_uart ec) a;
     a \<leftarrow> app_puts uart_putc ''uart is now setup!'' a;
     default_trap_handler ec uart_putc a }"

definition tut02_main :: "'w ecall \<Rightarrow> putc \<Rightarrow> u64 \<Rightarrow> u64 \<Rightarrow> 'w app \<Rightarrow> 'w app option" where
  "tut02_main ec uart_putc handler trap_stack a = do {
     let w = setup_trap ec handler trap_stack 1024 (fst a);
     app_printf uart_putc (''Hello, world'' @ nl) [] (w, snd a) }"

text \<open>The derivation of a memory slice from \<open>RAM_MEM\<close> and the report of its result.\<close>

definition tut03_derive :: "'w ecall \<Rightarrow> putc \<Rightarrow> u32 \<Rightarrow> 'w app \<Rightarrow> 'w app option" where
  "tut03_derive ec uart_putc i a = do {
     (e, a) \<leftarrow> on_world (s3k_cap_derive ec RAM_MEM (ucast i)
       (s3k_mk_memory APP_1_BASE_ADDR (APP_1_BASE_ADDR + APP_1_SIZE) S3K_MEM_RWX)) a;
     log_sys uart_putc ''cap derivation result'' e a }"

definition tut03_main :: "'w ecall \<Rightarrow> putc \<Rightarrow> 'w memory \<Rightarrow> u64 \<Rightarrow> u64 \<Rightarrow> 'w app \<Rightarrow> 'w app option" where
  "tut03_main ec uart_putc m handler trap_stack a = do {
     a \<leftarrow> on_memory (setup_uart ec) a;
     let w = setup_trap ec handler trap_stack 1024 (fst a);
     a \<leftarrow> app_printf uart_putc (''Hello, world'' @ nl) [] (w, snd a);
     a \<leftarrow> debug_capability_from_idx ec uart_putc (ucast RAM_MEM) a;
     let (free_cap, w) = find_free_cap ec (fst a);
     a \<leftarrow> app_printf uart_putc (''Using free cap %d'' @ nl) [VNum (ucast free_cap)] (w, snd a);
     a \<leftarrow> tut03_derive ec uart_putc free_cap a;
     let (i, w) = find_free_cap ec (fst a);
     a \<leftarrow> tut03_derive ec uart_putc i (w, snd a);
     a \<leftarrow> debug_capability_from_idx ec uart_putc (ucast RAM_MEM) a;
     a \<leftarrow> debug_capability_from_idx ec uart_putc free_cap a;
     let (free_cap_pmp, w) = find_free_cap ec (fst a);
     let pmp_addr = s3k_napot_encode APP_1_BASE_ADDR APP_1_SIZE;
     (e, a) \<leftarrow> on_world (s3k_cap_derive ec (ucast free_cap) (ucast free_cap_pmp) (s3k_mk_pmp pmp_addr S3K_MEM_RW)) (w, snd a);
     a \<leftarrow> log_sys uart_putc ''cap derivation result'' e a;
     a \<leftarrow> debug_capability_from_idx ec uart_putc free_cap a;
     a \<leftarrow> debug_capability_from_idx ec uart_putc free_cap_pmp a;
     (e, a) \<leftarrow> on_world (s3k_pmp_load ec (ucast free_cap_pmp) 2) a;
     a \<leftarrow> log_sys uart_putc ''Loading the PMP'' e a;
     a \<leftarrow> app_printf uart_putc (''Sync status'' @ nl) [] a;
     let (_, w) = s3k_sync_mem ec (fst a);
     a \<leftarrow> app_printf uart_putc (''Accessing the new memory'' @ nl) [] (w, snd a);
     a \<leftarrow> on_memory (st64 m APP_1_BASE_ADDR 10) a;
     (v, a) \<leftarrow> on_world (ld64 m APP_1_BASE_ADDR) a;
     app_printf uart_putc (''Successfully wrote in random memory 0x%X'' @ nl) [VNum v] a }"

section \<open>Tutorial 4: time\<close>

definition tut04_main_start :: "'w ecall \<Rightarrow> putc \<Rightarrow> 'w app \<Rightarrow> 'w app option" where
  "tut04_main_start ec uart_putc a = do {
     a \<leftarrow> on_memory (setup_uart ec) a;
     a \<leftarrow> setup_app_1 ec uart_putc a;
     a \<leftarrow> app_printf uart_putc (''hello, world from app0'' @ nl) [] a;
     a \<leftarrow> setup_scheduling ec uart_putc PARALLEL a;
     (e, a) \<leftarrow> on_world (s3k_mon_resume ec MONITOR APP1_PID) a;
     log_sys uart_putc ''10'' e a }"

definition tut04_main_round :: "putc \<Rightarrow> 'w app \<Rightarrow> 'w app option" where
  "tut04_main_round uart_putc a = app_puts uart_putc ''0'' a"

definition tut04_app1_start :: "'w ecall \<Rightarrow> putc \<Rightarrow> 'w app \<Rightarrow> 'w app option" where
  "tut04_app1_start ec uart_putc a = do {
     a \<leftarrow> app_puts uart_putc ''hello, world from app1'' a;
     (e, a) \<leftarrow> on_world (s3k_cap_revoke ec APP_1_TIME) a;
     Some a }"

definition tut04_app1_round :: "putc \<Rightarrow> 'w app \<Rightarrow> 'w app option" where
  "tut04_app1_round uart_putc a = app_puts uart_putc ''1'' a"

section \<open>Tutorials 5 and 7: messages with and without yielding\<close>

text \<open>The message \<open>msg\<close> is uninitialised but for the bytes that are stored in its data.\<close>

definition msg_main_start :: "'w ecall \<Rightarrow> putc \<Rightarrow> bool \<Rightarrow> s3k_msg_t \<Rightarrow> 'w app \<Rightarrow> ((u32 \<times> s3k_msg_t) \<times> 'w app) option" where
  "msg_main_start ec uart_putc yield msg a = do {
     a \<leftarrow> on_memory (setup_uart ec) a;
     a \<leftarrow> app_puts uart_putc ''starting app0'' a;
     a \<leftarrow> setup_app_1 ec uart_putc a;
     a \<leftarrow> setup_scheduling ec uart_putc ROUND_ROBIN a;
     (socket, a) \<leftarrow> on_world (setup_socket ec True yield False) a;
     (e, a) \<leftarrow> on_world (s3k_mon_resume ec MONITOR APP1_PID) a;
     let msg = put_bytes (''pong'' @ [CHR 0x00]) msg;
     let (_, w) = s3k_reg_write ec S3K_REG_SERVTIME 4500 (fst a);
     Some ((socket, msg), w, snd a) }"

definition tut05_main_start :: "'w ecall \<Rightarrow> putc \<Rightarrow> s3k_msg_t \<Rightarrow> 'w app \<Rightarrow> ((u32 \<times> s3k_msg_t) \<times> 'w app) option" where
  "tut05_main_start ec uart_putc msg a = msg_main_start ec uart_putc True msg a"

definition tut07_main_start :: "'w ecall \<Rightarrow> putc \<Rightarrow> s3k_msg_t \<Rightarrow> 'w app \<Rightarrow> ((u32 \<times> s3k_msg_t) \<times> 'w app) option" where
  "tut07_main_start ec uart_putc msg a = msg_main_start ec uart_putc False msg a"

partial_function (option) sendrecv_report ::
  "'w ecall \<Rightarrow> putc \<Rightarrow> string \<Rightarrow> cidx_t \<Rightarrow> s3k_msg_t \<Rightarrow> 'w app \<Rightarrow> (s3k_reply_t \<times> 'w app) option" where
  "sendrecv_report ec uart_putc str sock msg a = do {
     (rep, a) \<leftarrow> on_world (s3k_sock_sendrecv ec sock msg) a;
     a \<leftarrow> (if reply_err rep = S3K_ERR_TIMEOUT then app_puts uart_putc str a else Some a);
     if reply_err rep \<noteq> 0 then sendrecv_report ec uart_putc str sock msg a else Some (rep, a) }"

definition tut05_main_round :: "'w ecall \<Rightarrow> putc \<Rightarrow> u32 \<Rightarrow> s3k_msg_t \<Rightarrow> 'w app \<Rightarrow> 'w app option" where
  "tut05_main_round ec uart_putc socket msg a = do {
     (rep, a) \<leftarrow> sendrecv_report ec uart_putc ''0> timeout'' (ucast socket) msg a;
     app_puts uart_putc (reply_str rep) a }"

text \<open>A round of \<open>app1\<close>, from the message and the counter to those of the next round.\<close>

partial_function (option) ping_report ::
  "'w ecall \<Rightarrow> putc \<Rightarrow> u32 \<Rightarrow> s3k_msg_t \<Rightarrow> 'w app \<Rightarrow> ((s3k_msg_t \<times> s3k_reply_t) \<times> 'w app) option" where
  "ping_report ec uart_putc count msg a = do {
     msg \<leftarrow> msg_printf 32 ''ping %d'' [VNum (ucast count)] msg;
     (rep, a) \<leftarrow> on_world (s3k_sock_sendrecv ec APP_1_CAP_SOCKET msg) a;
     a \<leftarrow> (if reply_err rep = S3K_ERR_TIMEOUT then app_puts uart_putc ''1> timeout'' a else Some a);
     if reply_err rep \<noteq> 0 then ping_report ec uart_putc count msg a else Some ((msg, rep), a) }"

definition tut05_app1_round :: "'w ecall \<Rightarrow> putc \<Rightarrow> u32 \<Rightarrow> s3k_msg_t \<Rightarrow> 'w app \<Rightarrow> ((u32 \<times> s3k_msg_t) \<times> 'w app) option" where
  "tut05_app1_round ec uart_putc count msg a = do {
     ((msg, rep), a) \<leftarrow> ping_report ec uart_putc count msg a;
     a \<leftarrow> app_puts uart_putc (reply_str rep) a;
     Some ((count + 1, msg), a) }"

definition tut05_app1_start :: "putc \<Rightarrow> 'w app \<Rightarrow> (u32 \<times> 'w app) option" where
  "tut05_app1_start uart_putc a = do { a \<leftarrow> app_puts uart_putc ''starting app1'' a; Some (0, a) }"

text \<open>The loops of tutorial 7 are those of tutorial 5.\<close>

definition tut07_main_round :: "'w ecall \<Rightarrow> putc \<Rightarrow> u32 \<Rightarrow> s3k_msg_t \<Rightarrow> 'w app \<Rightarrow> 'w app option" where
  "tut07_main_round = tut05_main_round"

definition tut07_app1_start :: "putc \<Rightarrow> 'w app \<Rightarrow> (u32 \<times> 'w app) option" where
  "tut07_app1_start = tut05_app1_start"

definition tut07_app1_round :: "'w ecall \<Rightarrow> putc \<Rightarrow> u32 \<Rightarrow> s3k_msg_t \<Rightarrow> 'w app \<Rightarrow> ((u32 \<times> s3k_msg_t) \<times> 'w app) option" where
  "tut07_app1_round = tut05_app1_round"

section \<open>Tutorials 6 and 8: remote procedure calls\<close>

definition tut06_main_start :: "'w ecall \<Rightarrow> putc \<Rightarrow> s3k_msg_t \<Rightarrow> 'w app \<Rightarrow> ((u64 \<times> s3k_msg_t) \<times> 'w app) option" where
  "tut06_main_start ec uart_putc msg a = do {
     a \<leftarrow> on_memory (setup_uart ec) a;
     a \<leftarrow> app_puts uart_putc ''starting app0'' a;
     a \<leftarrow> setup_app_1 ec uart_putc a;
     (socket, a) \<leftarrow> on_world (setup_socket ec False True False) a;
     (e, a) \<leftarrow> on_world (s3k_mon_resume ec MONITOR APP1_PID) a;
     a \<leftarrow> wait_for_app1_blocked ec uart_putc a;
     let msg = put_bytes (''ping'' @ [CHR 0x00]) msg;
     let (_, w) = s3k_reg_write ec S3K_REG_SERVTIME 4500 (fst a);
     Some ((ucast socket, msg), w, snd a) }"

definition tut06_main_round :: "'w ecall \<Rightarrow> putc \<Rightarrow> u64 \<Rightarrow> s3k_msg_t \<Rightarrow> 'w app \<Rightarrow> 'w app option" where
  "tut06_main_round ec uart_putc socket msg a = do {
     (rep, a) \<leftarrow> send_receive_forever ec uart_putc socket msg a;
     app_printf uart_putc (''APP0: %s'' @ nl) [VStr (reply_str rep)] a }"

text \<open>The handler of \<open>app1\<close>; \<open>count\<close> is a variable of the program, \<open>output\<close> an uninitialised one of the handler.\<close>

definition tut06_on_msg :: "putc \<Rightarrow> s3k_msg_t \<Rightarrow> u32 \<Rightarrow> s3k_reply_t \<Rightarrow> u32 \<Rightarrow> 'w app \<Rightarrow> ((s3k_msg_t \<times> u32) \<times> 'w app) option" where
  "tut06_on_msg uart_putc output count input idx a = do {
     a \<leftarrow> app_printf uart_putc (''APP1: %s'' @ nl) [VStr (reply_str input)] a;
     output \<leftarrow> msg_printf 10 ''pong %d'' [VNum (ucast count)] output;
     Some ((output, count + 1), a) }"

text \<open>One round of \<open>server_main_loop(on_msg, false)\<close>: the counter is carried along.\<close>

definition tut06_app1_round :: "'w ecall \<Rightarrow> putc \<Rightarrow> s3k_msg_t \<Rightarrow> s3k_msg_t \<Rightarrow> u32 \<Rightarrow> 'w app \<Rightarrow> ((s3k_msg_t \<times> u32) \<times> 'w app) option" where
  "tut06_app1_round ec uart_putc output msg count a = do {
     ((msg, rep), a) \<leftarrow> server_recv ec uart_putc False msg a;
     tut06_on_msg uart_putc output count rep (ucast (cap_idx msg)) a }"

definition setup_buffer_cap :: "'w ecall \<Rightarrow> putc \<Rightarrow> 'w app \<Rightarrow> (u32 \<times> 'w app) option" where
  "setup_buffer_cap ec uart_putc a = do {
     let (new_cap, w) = find_free_cap ec (fst a);
     a \<leftarrow> debug_capability_from_idx ec uart_putc (ucast RAM_MEM) (w, snd a);
     (e, a) \<leftarrow> on_world (s3k_cap_derive ec RAM_MEM (ucast new_cap)
       (s3k_mk_memory SHARED_BUFFER_BASE (SHARED_BUFFER_BASE + SHARED_BUFFER_SIZE) S3K_MEM_RW)) a;
     a \<leftarrow> log_sys uart_putc ''app 0: derive cap for shared buffer'' e a;
     Some (new_cap, a) }"

definition setup_buffer_pmp :: "'w ecall \<Rightarrow> putc \<Rightarrow> u32 \<Rightarrow> 'w app \<Rightarrow> (u32 \<times> 'w app) option" where
  "setup_buffer_pmp ec uart_putc parent_cap_idx a = do {
     let (pmp_cap_idx, w) = find_free_cap ec (fst a);
     (e, a) \<leftarrow> on_world (s3k_cap_revoke ec (ucast parent_cap_idx)) (w, snd a);
     a \<leftarrow> log_sys uart_putc ''app 0: revoke parent cap'' e a;
     (e, a) \<leftarrow> on_world (s3k_cap_derive ec (ucast parent_cap_idx) (ucast pmp_cap_idx)
       (s3k_mk_pmp (s3k_napot_encode SHARED_BUFFER_BASE SHARED_BUFFER_SIZE) S3K_MEM_RW)) a;
     a \<leftarrow> log_sys uart_putc ''app 0: derive new mem cap'' e a;
     (e, a) \<leftarrow> on_world (s3k_pmp_load ec (ucast pmp_cap_idx) BUFFER_PMP) a;
     a \<leftarrow> log_sys uart_putc ''app 0: load pmp for new buffer'' e a;
     let (_, w) = s3k_sync_mem ec (fst a);
     Some (pmp_cap_idx, w, snd a) }"

definition tut08_main_start :: "'w ecall \<Rightarrow> putc \<Rightarrow> 'w app \<Rightarrow> ((u64 \<times> u32) \<times> 'w app) option" where
  "tut08_main_start ec uart_putc a = do {
     a \<leftarrow> on_memory (setup_uart ec) a;
     a \<leftarrow> app_puts uart_putc ''starting app0'' a;
     a \<leftarrow> setup_app_1 ec uart_putc a;
     (socket, a) \<leftarrow> on_world (setup_socket ec False True True) a;
     (e, a) \<leftarrow> on_world (s3k_mon_resume ec MONITOR APP1_PID) a;
     a \<leftarrow> wait_for_app1_blocked ec uart_putc a;
     a \<leftarrow> app_printf uart_putc (''APP0: other app booted'' @ nl) [] a;
     (parent_cap, a) \<leftarrow> setup_buffer_cap ec uart_putc a;
     let (_, w) = s3k_reg_write ec S3K_REG_SERVTIME 4500 (fst a);
     Some ((ucast socket, parent_cap), w, snd a) }"

definition tut08_main_round :: "'w ecall \<Rightarrow> putc \<Rightarrow> 'w memory \<Rightarrow> u64 \<Rightarrow> u32 \<Rightarrow> u32 \<Rightarrow> s3k_msg_t \<Rightarrow> 'w app
    \<Rightarrow> ((u32 \<times> s3k_msg_t) \<times> 'w app) option" where
  "tut08_main_round ec uart_putc m socket parent_cap counter msg a = do {
     (child_cap, a) \<leftarrow> setup_buffer_pmp ec uart_putc parent_cap a;
     a \<leftarrow> app_printf uart_putc (''APP0: writing counter in shared memory  %d'' @ nl) [VNum (ucast counter)] a;
     let counter = counter + 1;
     a \<leftarrow> on_memory (st32 m SHARED_BUFFER_BASE counter) a;
     let msg = msg\<lparr>send_cap := True, cap_idx := ucast child_cap\<rparr>;
     a \<leftarrow> app_printf uart_putc (''APP0: sending %d'' @ nl) [VNum (ucast counter)] a;
     (rep, a) \<leftarrow> send_receive_forever ec uart_putc socket msg a;
     a \<leftarrow> app_printf uart_putc (''APP0: received %s'' @ nl) [VStr (reply_str rep)] a;
     Some ((counter, msg), a) }"

definition tut08_on_msg :: "'w ecall \<Rightarrow> putc \<Rightarrow> 'w memory \<Rightarrow> s3k_msg_t \<Rightarrow> s3k_reply_t \<Rightarrow> u32 \<Rightarrow> 'w app \<Rightarrow> (s3k_msg_t \<times> 'w app) option" where
  "tut08_on_msg ec uart_putc m output input idx a = do {
     a \<leftarrow> app_printf uart_putc (''1> handling request'' @ nl) [] a;
     if cap_type (reply_cap input) = CAPTY_NONE then do {
       a \<leftarrow> app_printf uart_putc (''1> missing capability in message'' @ nl) [] a;
       output \<leftarrow> msg_printf 10 [] [] output;
       Some (output, a) }
     else do {
       (e, a) \<leftarrow> on_world (s3k_pmp_load ec (ucast idx) APP_1_PMP_SLOT_BUFFER) a;
       let (_, w) = s3k_sync_mem ec (fst a);
       (counter, a) \<leftarrow> on_world (ld32 m SHARED_BUFFER_BASE) (w, snd a);
       output \<leftarrow> msg_printf 10 ''%d'' [VNum (ucast counter)] output;
       Some (output, a) } }"

definition tut08_app1_round :: "'w ecall \<Rightarrow> putc \<Rightarrow> 'w memory \<Rightarrow> s3k_msg_t \<Rightarrow> s3k_msg_t \<Rightarrow> 'w app \<Rightarrow> (s3k_msg_t \<times> 'w app) option" where
  "tut08_app1_round ec uart_putc m output msg a =
     server_main_round ec uart_putc (tut08_on_msg ec uart_putc m output) True msg a"

text \<open>The start of \<open>app1\<close>, before \<open>server_main_loop\<close>.\<close>

definition tut06_app1_start :: "putc \<Rightarrow> 'w app \<Rightarrow> 'w app option" where
  "tut06_app1_start uart_putc a = app_puts uart_putc ''starting app1'' a"

definition tut08_app1_start :: "putc \<Rightarrow> 'w app \<Rightarrow> 'w app option" where
  "tut08_app1_start uart_putc a = app_puts uart_putc ''starting app1'' a"

section \<open>Tutorial 9: files\<close>

text \<open>The second file is read into a buffer of 1024 characters; what \<open>f_read\<close> stores is printed up to its first zero.\<close>

definition tut09_write :: "putc \<Rightarrow> 'w fatfs \<Rightarrow> 'w app \<Rightarrow> 'w app option" where
  "tut09_write uart_putc fs a = do {
     (fr, a) \<leftarrow> on_world (f_open fs ''newfile.txt'' (FA_WRITE OR FA_CREATE_ALWAYS)) a;
     if fr = FR_OK then do {
       ((_, bw), a) \<leftarrow> on_world (f_write fs (''It works!'' @ [CHR 0x0D, CHR 0x0A])) a;
       (fr, a) \<leftarrow> on_world (f_close fs) a;
       if fr = FR_OK \<and> bw = 11 then app_printf uart_putc (''File saved'' @ nl) [] a else Some a }
     else app_printf uart_putc (''File not opened'' @ nl) [] a }"

definition tut09_read :: "putc \<Rightarrow> 'w fatfs \<Rightarrow> 'w app \<Rightarrow> 'w app option" where
  "tut09_read uart_putc fs a = do {
     (fr, a) \<leftarrow> on_world (f_open fs ''test.txt'' FA_READ) a;
     if fr = FR_OK then do {
       ((_, bytes), a) \<leftarrow> on_world (f_read fs 1023) a;
       (fr, a) \<leftarrow> on_world (f_close fs) a;
       if length bytes > 1023 then None
       else if fr = FR_OK then app_puts uart_putc (map (\<lambda>c. char_of (unat c)) bytes) a
       else Some a }
     else app_puts uart_putc (''File not opened'' @ nl) a }"

definition tut09_main :: "'w ecall \<Rightarrow> putc \<Rightarrow> 'w fatfs \<Rightarrow> 'w app \<Rightarrow> 'w app option" where
  "tut09_main ec uart_putc fs a = do {
     a \<leftarrow> on_memory (setup_uart_and_virtio ec) a;
     a \<leftarrow> app_printf uart_putc (''hello, world'' @ nl) [] a;
     (_, a) \<leftarrow> on_world (f_mount fs [] 0) a;
     a \<leftarrow> app_printf uart_putc (''File system mounted'' @ nl) [] a;
     a \<leftarrow> tut09_write uart_putc fs a;
     tut09_read uart_putc fs a }"

section \<open>The exercise\<close>

definition setup_other_app :: "'w ecall \<Rightarrow> 'w \<Rightarrow> 'w option" where
  "setup_other_app ec w = do {
     let uart_addr = s3k_napot_encode UART0_BASE_ADDR 0x8;
     let app1_addr = s3k_napot_encode APP_1_BASE_ADDR APP_1_SIZE;
     let (free_cap_mem_idx, w) = find_free_cap ec w;
     (e, w) \<leftarrow> s3k_cap_derive ec RAM_MEM (ucast free_cap_mem_idx)
       (s3k_mk_memory APP_1_BASE_ADDR (APP_1_BASE_ADDR + APP_1_SIZE) S3K_MEM_RWX) w;
     let (free_cap_idx, w) = find_free_cap ec w;
     (e, w) \<leftarrow> s3k_cap_derive ec (ucast free_cap_mem_idx) (ucast free_cap_idx) (s3k_mk_pmp app1_addr S3K_MEM_RWX) w;
     (e, w) \<leftarrow> s3k_mon_cap_move ec MONITOR APP0_PID (ucast free_cap_idx) APP1_PID APP_1_CAP_PMP_MEM w;
     (e, w) \<leftarrow> s3k_mon_pmp_load ec MONITOR APP1_PID APP_1_CAP_PMP_MEM APP_1_PMP_SLOT_MEM w;
     let (free_cap_idx, w) = find_free_cap ec w;
     (e, w) \<leftarrow> s3k_cap_derive ec (ucast free_cap_mem_idx) (ucast free_cap_idx) (s3k_mk_pmp app1_addr S3K_MEM_RWX) w;
     (e, w) \<leftarrow> s3k_pmp_load ec (ucast free_cap_idx) BUFFER_PMP w;
     let (free_cap_idx, w) = find_free_cap ec w;
     (e, w) \<leftarrow> s3k_cap_derive ec UART_MEM (ucast free_cap_idx) (s3k_mk_pmp uart_addr S3K_MEM_RW) w;
     (e, w) \<leftarrow> s3k_mon_cap_move ec MONITOR APP0_PID (ucast free_cap_idx) APP1_PID APP_1_CAP_PMP_UART w;
     (e, w) \<leftarrow> s3k_mon_pmp_load ec MONITOR APP1_PID APP_1_CAP_PMP_UART APP_1_PMP_SLOT_UART w;
     (e, w) \<leftarrow> s3k_mon_reg_write ec MONITOR APP1_PID S3K_REG_PC APP_1_BASE_ADDR w;
     let (_, w) = s3k_sync_mem ec w;
     Some w }"

definition exercise_start :: "'w ecall \<Rightarrow> putc \<Rightarrow> 'w fatfs \<Rightarrow> 'w app \<Rightarrow> (u32 \<times> 'w app) option" where
  "exercise_start ec uart_putc fs a = do {
     a \<leftarrow> on_memory (setup_uart_and_virtio ec) a;
     a \<leftarrow> app_puts uart_putc ''0> starting app'' a;
     (_, a) \<leftarrow> on_world (f_mount fs [] 0) a;
     a \<leftarrow> app_printf uart_putc (''0> File system mounted'' @ nl) [] a;
     a \<leftarrow> on_memory (setup_other_app ec) a;
     a \<leftarrow> setup_scheduling ec uart_putc ROUND_ROBIN a;
     (socket, a) \<leftarrow> on_world (setup_socket ec True True False) a;
     (e, a) \<leftarrow> on_world (s3k_mon_resume ec MONITOR APP1_PID) a;
     Some (socket, a) }"

text \<open>
  Loading the program that the other process names, into a buffer of 1024 bytes with the contents
  \<open>buffer\<close>: \<open>f_read\<close> overwrites its first bytes, and the whole buffer is copied.
\<close>

definition exercise_load :: "'w ecall \<Rightarrow> putc \<Rightarrow> 'w fatfs \<Rightarrow> 'w memory \<Rightarrow> u8 list \<Rightarrow> string \<Rightarrow> 'w app \<Rightarrow> 'w app option" where
  "exercise_load ec uart_putc fs m buffer name a = do {
     (fr, a) \<leftarrow> on_world (f_open fs name FA_READ) a;
     if fr = FR_OK then do {
       a \<leftarrow> app_puts uart_putc (''0> File opened '' @ nl) a;
       ((_, bytes), a) \<leftarrow> on_world (f_read fs 1024) a;
       (fr, a) \<leftarrow> on_world (f_close fs) a;
       if length bytes > 1024 then None
       else if fr = FR_OK then do {
         a \<leftarrow> app_puts uart_putc (''0> Booting app1 '' @ nl) a;
         a \<leftarrow> on_memory (copy_to m APP_1_BASE_ADDR (bytes @ drop (length bytes) buffer)) a;
         (e, a) \<leftarrow> on_world (s3k_mon_reg_write ec MONITOR APP1_PID S3K_REG_PC APP_1_BASE_ADDR) a;
         (e, a) \<leftarrow> on_world (s3k_mon_resume ec MONITOR APP1_PID) a;
         Some a }
       else app_puts uart_putc (''0> Filed to read file '' @ nl) a }
     else app_puts uart_putc (''0> File not opened'' @ nl) a }"

text \<open>The message that the program sends is uninitialised.\<close>

definition exercise_round :: "'w ecall \<Rightarrow> putc \<Rightarrow> 'w fatfs \<Rightarrow> 'w memory \<Rightarrow> u8 list \<Rightarrow> u32 \<Rightarrow> s3k_msg_t \<Rightarrow> 'w app \<Rightarrow> 'w app option" where
  "exercise_round ec uart_putc fs m buffer socket msg a = do {
     (rep, a) \<leftarrow> on_world (sendrecv_until_ok ec (ucast socket) msg) a;
     a \<leftarrow> app_puts uart_putc (''0> hello'' @ nl) a;
     a \<leftarrow> app_printf uart_putc (''0> file %s'' @ nl) [VStr (reply_str rep)] a;
     (e, a) \<leftarrow> on_world (s3k_mon_suspend ec MONITOR APP1_PID) a;
     exercise_load ec uart_putc fs m buffer (reply_str rep) a }"

definition exercise_app1_main :: "'w ecall \<Rightarrow> putc \<Rightarrow> s3k_msg_t \<Rightarrow> 'w app \<Rightarrow> 'w app option" where
  "exercise_app1_main ec uart_putc msg a = do {
     a \<leftarrow> app_puts uart_putc ''1> starting'' a;
     let msg = put_bytes (''app2.bin'' @ [CHR 0x00]) msg;
     (rep, a) \<leftarrow> send_receive_forever ec uart_putc (ucast APP_1_CAP_SOCKET) msg a;
     app_puts uart_putc ''1> end'' a }"

definition exercise_app2_main :: "putc \<Rightarrow> 'w app \<Rightarrow> 'w app option" where
  "exercise_app2_main uart_putc a = app_puts uart_putc ''2> started'' a"

section \<open>The rest of \<open>trapped\<close> and \<open>ping-pong\<close>\<close>

text \<open>
  \<open>main\<close> of \<open>trapped\<close> and of the second tutorial write to the port before they have a frame for it: the first
  access is refused, the handler opens the port, and the access is repeated. The model has the
  writes only.
\<close>

definition trapped_setup_trap :: "'w ecall \<Rightarrow> u64 \<Rightarrow> u64 \<Rightarrow> 'w \<Rightarrow> 'w" where
  "trapped_setup_trap ec handler trap_stack w =
    (let (_, w) = s3k_reg_write ec S3K_REG_TPC handler w;
         (_, w) = s3k_reg_write ec S3K_REG_TSP (trap_stack + 1024) w
     in w)"

definition trapped_setup_uart :: "'w ecall \<Rightarrow> cidx_t \<Rightarrow> 'w \<Rightarrow> 'w option" where
  "trapped_setup_uart ec uart_idx w = do {
     let uart_addr = s3k_napot_encode UART0_BASE_ADDR 0x8;
     (e, w) \<leftarrow> s3k_cap_derive ec UART_MEM uart_idx (s3k_mk_pmp uart_addr S3K_MEM_RW) w;
     (e, w) \<leftarrow> s3k_pmp_load ec uart_idx 1 w;
     let (_, w) = s3k_sync_mem ec w;
     Some w }"

definition trapped_main :: "'w ecall \<Rightarrow> putc \<Rightarrow> u64 \<Rightarrow> u64 \<Rightarrow> 'w app \<Rightarrow> 'w app option" where
  "trapped_main ec uart_putc handler trap_stack a = do {
     let w = trapped_setup_trap ec handler trap_stack (fst a);
     a \<leftarrow> app_puts uart_putc ''hello, world from app0'' (w, snd a);
     app_puts uart_putc ''bye from app0'' a }"

definition ping_main_start :: "putc \<Rightarrow> s3k_msg_t \<Rightarrow> 'w app \<Rightarrow> (s3k_msg_t \<times> 'w app) option" where
  "ping_main_start uart_putc msg a = do {
     a \<leftarrow> app_puts uart_putc ''starting app1'' a;
     Some (put_bytes (''ping'' @ [CHR 0x00]) msg, a) }"

text \<open>The handler of \<open>trapped\<close> opens the port with its own copy of \<open>setup_uart\<close>, which is that of \<open>hello\<close>.\<close>

lemma trapped_setup_uart_hello: "trapped_setup_uart ec (ucast i) w = hello_setup_uart ec i w"
  by (simp add: trapped_setup_uart_def hello_setup_uart_def)

section \<open>Strings in messages\<close>

lemma take_bit_of_char: "take_bit 8 (of_char c :: nat) = of_char c"
  by (simp add: take_bit_eq_mod)

lemma bit_of_charD: "bit (of_char c :: nat) n \<Longrightarrow> n < 8"
  using take_bit_of_char [of c] by (metis bit_take_bit_iff)

lemma bytes_word_byte:
  "i < length cs \<Longrightarrow> length cs \<le> 8 \<Longrightarrow> ucast (drop_bit (8 * i) (bytes_word cs)) = (of_nat (of_char (cs ! i)) :: u8)"
proof (induction cs arbitrary: i)
  case (Cons c cs)
  show ?case
  proof (cases i)
    case 0
    then show ?thesis
      by (intro bit_word_eqI) (auto simp: bit_simps dest: bit_of_charD)
  next
    case (Suc j)
    have "drop_bit (8 * i) (bytes_word (c # cs)) = take_bit (64 - 8 * i) (drop_bit (8 * j) (bytes_word cs))"
      using Suc by (intro bit_word_eqI) (auto simp: bit_simps dest: bit_of_charD)
    then have "(ucast (drop_bit (8 * i) (bytes_word (c # cs))) :: u8) = ucast (drop_bit (8 * j) (bytes_word cs))"
      using Suc Cons.prems by (intro bit_word_eqI) (auto simp: bit_simps)
    with Cons Suc show ?thesis by simp
  qed
qed simp

lemma word_bytes_word: "length cs = 8 \<Longrightarrow> word_bytes (bytes_word cs) = cs"
  by (rule nth_equalityI) (simp_all add: word_bytes_def bytes_word_byte unsigned_of_nat take_bit_of_char)

lemma group_words_bytes: "8 dvd length bs \<Longrightarrow> concat (map word_bytes (group_words bs)) = bs"
proof (induction bs rule: group_words.induct)
  case (2 c cs)
  then have l: "8 \<le> length (c # cs)" by (intro dvd_imp_le) simp_all
  have "length (drop 7 cs) = length (c # cs) - 8" by simp
  then have "8 dvd length (drop 7 cs)" using 2(2) dvd_diff_nat [of 8 "length (c # cs)" 8] by simp
  with 2(1) l have "concat (map word_bytes (group_words (c # cs))) = take 8 (c # cs) @ drop 7 cs"
    by (simp add: word_bytes_word del: bytes_word.simps)
  then show ?case by simp
qed simp

text \<open>A string stored in a message with four words is what the receiver of its data reads.\<close>

lemma message_string:
  assumes "length (data msg) = 4" "length cs < 32" "CHR 0x00 \<notin> set cs" "reply_data rep = data (put_bytes (cs @ [CHR 0x00]) msg)"
  shows "reply_str rep = cs"
proof -
  have "length (concat (map word_bytes (data msg))) = 32"
    using assms(1) by (simp add: length_concat word_bytes_def comp_def sum_list_triv)
  then have "8 dvd length ((cs @ [CHR 0x00]) @ drop (length (cs @ [CHR 0x00])) (concat (map word_bytes (data msg))))"
    using assms(2) by simp
  from group_words_bytes [OF this] have "reply_str rep
      = takeWhile (\<lambda>c. c \<noteq> CHR 0x00) ((cs @ [CHR 0x00]) @ drop (length (cs @ [CHR 0x00])) (concat (map word_bytes (data msg))))"
    by (simp add: reply_str_def assms(4) put_bytes_def)
  then show ?thesis using assms(3) by (auto simp: takeWhile_append)
qed

end
