(* ===== verification/Exercise.thy ===== *)
theory Exercise
  imports Hello Tutorials
begin

text \<open>
  The set-up code of \<open>projects/exercise/app0/main.c\<close> followed through its system calls, like \<open>hello\<close>:
  a slice of memory and the serial port for the second process, and a window of the first process
  into that memory, through which it loads programs.
\<close>

section \<open>Steps of the set-up\<close>

lemma derive_mem_op:
  assumes c: "src < S3K_PROC_CNT * S3K_CAP_CNT" "dst < S3K_PROC_CNT * S3K_CAP_CNT"
    and cap: "v_cap V src = MemCap rwx False tag bgn mrk end'" "v_cap V dst = NoCap 0"
    and new: "mrk \<le> nbgn" "nend \<le> end'" "nrwx AND rwx = nrwx" "cap_is_valid (MemCap nrwx False tag nbgn nbgn nend)"
  shows "op_ok p V (\<lambda>u. cap_derive u src dst (MemCap nrwx False tag nbgn nbgn nend))
    (V\<lparr>v_cap := (v_cap V)(src := MemCap rwx False tag bgn nend end', dst := MemCap nrwx False tag nbgn nbgn nend)\<rparr>)"
proof (rule op_okI)
  fix u assume u: "kinv u" "view_of p u = V"
  note d = view_ofD [OF u(2)] and l = table_length [OF u(1)]
  have ne: "src \<noteq> dst" using cap by auto
  let ?new = "MemCap nrwx False tag nbgn nbgn nend" and ?old = "MemCap rwx False tag bgn nend end'"
  let ?ct = "cte_insert (cte_set_cap (ctable u) src ?old) dst ?new src"
  have "cte_cap ?ct = (v_cap V)(src := ?old, dst := ?new)"
    using c l ne d(1) by (auto simp: fun_eq_iff cte_cap_ops cte_get_set)
  moreover have "cap_derive u src dst ?new = Some (SUCCESS, set_ctable u ?ct)"
    using d(1) cap new by (simp add: cap_derive_def cap_derive_memory_def cte_is_empty_def)
  ultimately show "\<exists>v. cap_derive u src dst ?new = Some (SUCCESS, v)
      \<and> view_of p v = V\<lparr>v_cap := (v_cap V)(src := ?old, dst := ?new)\<rparr> \<and> mip v = mip u \<and> reads v = reads u"
    using u(2) by (simp add: view_of_ctable)
next
  fix u v assume "kinv u" "cap_derive u src dst (MemCap nrwx False tag nbgn nbgn nend) = Some (SUCCESS, v)"
  with cap_derive_ok [of u src dst, OF _ _ _ new(4)] c table_length show "kinv v" by simp
qed

text \<open>The first free entry, and a frame that process 0 derives and loads for itself.\<close>

lemma find_free_at:
  assumes "shows_view 0 V s" "12 \<le> n" "n \<le> 20" "cap_type (v_cap V n) = CAPTY_NONE"
    and "\<And>k. 12 \<le> k \<Longrightarrow> k < n \<Longrightarrow> cap_type (v_cap V k) \<noteq> CAPTY_NONE"
  shows "\<exists>s'. find_free_cap (kernel_ecall 0) s = (of_nat n, s') \<and> shows_view 0 V s'"
proof -
  have "find (\<lambda>j. cap_type (v_cap V (0 * S3K_CAP_CNT + j)) = CAPTY_NONE) [12..<21] = Some n"
    unfolding find_Some_iff
  proof (intro exI [of _ "n - 12"] conjI allI impI)
    fix j assume "j < n - 12"
    then show "cap_type (v_cap V (0 * S3K_CAP_CNT + [12..<21] ! j)) \<noteq> CAPTY_NONE"
      using assms(3) assms(5) [of "12 + j"] nth_upt [of 12 j 21] by (simp del: upt_rec_numeral)
  qed (use assms(2-4) nth_upt [of 12 "n - 12" 21] in \<open>simp_all del: upt_rec_numeral\<close>)
  with find_free_cap_first [OF assms(1)] show ?thesis by (auto simp: config_at)
qed

definition frame_view :: "cte_t \<Rightarrow> cap \<Rightarrow> cte_t \<Rightarrow> pmp_slot_t \<Rightarrow> rwx_t \<Rightarrow> 48 word \<Rightarrow> view \<Rightarrow> view" where
  "frame_view src cp t k rwx addr V = V\<lparr>v_cap := (v_cap V)(src := cp, t := PmpCap rwx True k addr),
     v_cfg := (v_cfg V)(0 := (v_cfg V 0)[unat k := ucast rwx OR 0x18]),
     v_addr := (v_addr V)(0 := (v_addr V 0)[unat k := ucast addr])\<rparr>"

lemma own_frame:
  assumes s: "shows_view 0 V s" and c: "src < 32" "t < 32" "unat k < 8"
    and cap: "v_cap V src = MemCap rwx l tag bgn mrk end'" "v_cap V t = NoCap 0"
    and addr: "pmp_napot_decode (ucast addr) = (base, sz)" "tag_block_to_addr tag mrk \<le> base"
      "sz + base \<le> tag_block_to_addr tag end'" "nrwx AND rwx = nrwx" "cap_is_valid (PmpCap nrwx False 0 addr)"
    and free: "v_cfg V 0 ! unat k = 0" and idx: "src = cte_at 0 isrc" "t = cte_at 0 it"
  shows "\<exists>s1 s2. s3k_cap_derive (kernel_ecall 0) isrc it (PmpCap nrwx False 0 addr) s = Some (0, s1)
    \<and> s3k_pmp_load (kernel_ecall 0) it k s1 = Some (0, s2)
    \<and> shows_view 0 (frame_view src (MemCap rwx True tag bgn mrk end') t k nrwx addr V) s2"
proof -
  have ne: "src \<noteq> t" using cap by auto
  define V1 where "V1 = V\<lparr>v_cap := (v_cap V)(src := MemCap rwx True tag bgn mrk end', t := PmpCap nrwx False 0 addr)\<rparr>"
  have "op_ok 0 V (\<lambda>u. cap_derive u src t (PmpCap nrwx False 0 addr)) V1"
    unfolding V1_def by (rule derive_pmp_op [OF _ _ cap addr]) (use c in \<open>simp_all add: config_at\<close>)
  then have "call_ok 0 V (s3k_cap_derive (kernel_ecall 0) isrc it (PmpCap nrwx False 0 addr)) V1"
    by (rule derive_call) (use c idx addr(5) in \<open>simp_all add: config_at\<close>)
  from call_okD [OF this s] obtain s1 where
    s1: "s3k_cap_derive (kernel_ecall 0) isrc it (PmpCap nrwx False 0 addr) s = Some (0, s1)" "shows_view 0 V1 s1" by blast
  have "op_ok 0 V1 (\<lambda>u. cap_pmp_load u t k) (V1\<lparr>v_cap := (v_cap V1)(t := PmpCap nrwx True k addr),
       v_cfg := (v_cfg V1)(0 := (v_cfg V1 0)[unat k := ucast nrwx OR 0x18]),
       v_addr := (v_addr V1)(0 := (v_addr V1 0)[unat k := ucast addr])\<rparr>)"
    by (rule load_op) (use c free in \<open>simp_all add: V1_def config_at pid_at\<close>)
  also have "V1\<lparr>v_cap := (v_cap V1)(t := PmpCap nrwx True k addr),
       v_cfg := (v_cfg V1)(0 := (v_cfg V1 0)[unat k := ucast nrwx OR 0x18]),
       v_addr := (v_addr V1)(0 := (v_addr V1 0)[unat k := ucast addr])\<rparr>
      = frame_view src (MemCap rwx True tag bgn mrk end') t k nrwx addr V"
    using ne by (simp add: V1_def frame_view_def)
  finally have "call_ok 0 V1 (s3k_pmp_load (kernel_ecall 0) it k)
      (frame_view src (MemCap rwx True tag bgn mrk end') t k nrwx addr V)"
    by (rule load_call) (use c idx in \<open>simp_all add: config_at\<close>)
  from call_okD [OF this s1(2)] s1(1) show ?thesis by blast
qed

section \<open>The frames of the exercise\<close>

definition virtio_frame :: "48 word" where "virtio_frame = 0x40003ff"

lemma exercise_frames:
  "s3k_mk_pmp (s3k_napot_encode UART0_BASE_ADDR 0x2000) S3K_MEM_RW = PmpCap 3 False 0 virtio_frame"
  "pmp_napot_decode (ucast virtio_frame) = (0x10000000, 0x2000)" "cap_is_valid (PmpCap 3 False 0 virtio_frame)"
  "s3k_mk_pmp (s3k_napot_encode APP_1_BASE_ADDR APP_1_SIZE) S3K_MEM_RWX = PmpCap 7 False 0 app1_frame"
  "s3k_mk_memory APP_1_BASE_ADDR (APP_1_BASE_ADDR + APP_1_SIZE) S3K_MEM_RWX = MemCap 7 False 16 0x20 0x20 0x30"
  "cap_is_valid (MemCap 7 False 16 0x20 0x20 0x30)" "tag_block_to_addr 16 0x30 = 0x80030000"
  by code_simp+

text \<open>The views after the parts of the set-up, each from the one before.\<close>

definition virtio_view :: "view \<Rightarrow> view" where
  "virtio_view V = frame_view 2 (MemCap 3 True 2 0 0 2) 10 1 3 virtio_frame V"

definition slice_view :: "view \<Rightarrow> view" where
  "slice_view V = V\<lparr>v_cap := (v_cap V)(1 := MemCap 7 False 16 0x20 0x30 0x8000, 12 := MemCap 7 False 16 0x20 0x20 0x30)\<rparr>"

definition slice_frames_view :: "view \<Rightarrow> view" where
  "slice_frames_view V = frame_view 12 (MemCap 7 True 16 0x20 0x20 0x30) 13 2 7 app1_frame
     (give_view 12 (MemCap 7 True 16 0x20 0x20 0x30) 13 32 0 7 app1_frame (slice_view V))"

definition other_app_view :: "view \<Rightarrow> view" where
  "other_app_view V = (let W = give_view 2 (MemCap 3 True 2 0 0 2) 14 42 1 3 uart_frame (slice_frames_view V)
     in W\<lparr>v_regs := (v_regs W)(1 := (v_regs W 1)(REG_PC := 0x80020000))\<rparr>)"

lemma setup_virtio_view:
  assumes "shows_view 0 V s" "v_cap V 2 = MemCap 3 l 2 0 0 2" "v_cap V 10 = NoCap 0" "v_cfg V 0 ! 1 = 0"
  shows "\<exists>s'. setup_uart_and_virtio (kernel_ecall 0) s = Some s' \<and> shows_view 0 (virtio_view V) s'"
proof -
  have "\<exists>s1 s2. s3k_cap_derive (kernel_ecall 0) UART_MEM UART_CAP (PmpCap 3 False 0 virtio_frame) s = Some (0, s1)
    \<and> s3k_pmp_load (kernel_ecall 0) UART_CAP UART_PMP s1 = Some (0, s2) \<and> shows_view 0 (virtio_view V) s2"
    unfolding virtio_view_def UART_PMP_def
    by (rule own_frame [OF assms(1) _ _ _ assms(2,3) exercise_frames(2)])
      (use assms(4) in \<open>simp_all add: exercise_frames frames app_consts config_at\<close>)
  then obtain s1 s2 where s2: "s3k_cap_derive (kernel_ecall 0) UART_MEM UART_CAP (PmpCap 3 False 0 virtio_frame) s = Some (0, s1)"
    "s3k_pmp_load (kernel_ecall 0) UART_CAP UART_PMP s1 = Some (0, s2)" "shows_view 0 (virtio_view V) s2" by blast
  from sync_mem_call [OF s2(3)] obtain s3 where "s3k_sync_mem (kernel_ecall 0) s2 = ((), s3)" "shows_view 0 (virtio_view V) s3"
    by (auto simp: config_at)
  with s2(1,2) show ?thesis by (simp add: setup_uart_and_virtio_def setup_uart_size_def exercise_frames(1))
qed

text \<open>What the set-up finds: room in the table, the initial memory capabilities, and a suspended process 1.\<close>

definition room :: "view \<Rightarrow> bool" where
  "room V \<longleftrightarrow> v_cap V 1 = MemCap 7 False 16 0x20 0x20 0x8000 \<and> (\<exists>l. v_cap V 2 = MemCap 3 l 2 0 0 2)
     \<and> (\<forall>c. 12 \<le> c \<longrightarrow> c < 21 \<longrightarrow> v_cap V c = NoCap 0) \<and> (\<forall>c. 32 \<le> c \<longrightarrow> c < 64 \<longrightarrow> v_cap V c = NoCap 0)
     \<and> controls V 8 1 \<and> v_cfg V 1 = replicate 8 0 \<and> v_cfg V 0 ! 2 = 0"

lemma slice_call:
  assumes s: "shows_view 0 V s" and V: "room V"
  shows "\<exists>s1 s2 s3. find_free_cap (kernel_ecall 0) s = (12, s1)
    \<and> s3k_cap_derive (kernel_ecall 0) RAM_MEM 12 (MemCap 7 False 16 0x20 0x20 0x30) s1 = Some (0, s2)
    \<and> find_free_cap (kernel_ecall 0) s2 = (13, s3) \<and> shows_view 0 (slice_view V) s3"
proof -
  note d = V [unfolded room_def]
  from find_free_at [OF s, of 12] d obtain s1 where s1: "find_free_cap (kernel_ecall 0) s = (12, s1)" "shows_view 0 V s1" by auto
  have "op_ok 0 V (\<lambda>u. cap_derive u 1 12 (MemCap 7 False 16 0x20 0x20 0x30)) (slice_view V)"
    unfolding slice_view_def by (rule derive_mem_op [where mrk = "0x20"]) (use d exercise_frames(6) in \<open>simp_all add: config_at\<close>)
  then have "call_ok 0 V (s3k_cap_derive (kernel_ecall 0) RAM_MEM 12 (MemCap 7 False 16 0x20 0x20 0x30)) (slice_view V)"
    by (rule derive_call) (use exercise_frames(6) in \<open>simp_all add: config_at app_consts\<close>)
  from call_okD [OF this s1(2)] obtain s2 where
    s2: "s3k_cap_derive (kernel_ecall 0) RAM_MEM 12 (MemCap 7 False 16 0x20 0x20 0x30) s1 = Some (0, s2)"
      "shows_view 0 (slice_view V) s2" by blast
  have "cap_type (v_cap (slice_view V) k) \<noteq> CAPTY_NONE" if "12 \<le> k" "k < 13" for k
  proof -
    have "k = 12" using that by simp
    then show ?thesis by (simp add: slice_view_def)
  qed
  with find_free_at [OF s2(2), of 13] d obtain s3 where "find_free_cap (kernel_ecall 0) s2 = (13, s3)" "shows_view 0 (slice_view V) s3"
    by (auto simp: slice_view_def)
  with s1 s2 show ?thesis by blast
qed

lemma slice_frames_call:
  assumes s: "shows_view 0 (slice_view V) s" and V: "room V"
  shows "\<exists>s1 s2 s3 s4 s5 s6 s7. s3k_cap_derive (kernel_ecall 0) 12 13 (PmpCap 7 False 0 app1_frame) s = Some (0, s1)
    \<and> s3k_mon_cap_move (kernel_ecall 0) MONITOR APP0_PID 13 APP1_PID APP_1_CAP_PMP_MEM s1 = Some (0, s2)
    \<and> s3k_mon_pmp_load (kernel_ecall 0) MONITOR APP1_PID APP_1_CAP_PMP_MEM APP_1_PMP_SLOT_MEM s2 = Some (0, s3)
    \<and> find_free_cap (kernel_ecall 0) s3 = (13, s4)
    \<and> s3k_cap_derive (kernel_ecall 0) 12 13 (PmpCap 7 False 0 app1_frame) s4 = Some (0, s5)
    \<and> s3k_pmp_load (kernel_ecall 0) 13 BUFFER_PMP s5 = Some (0, s6)
    \<and> find_free_cap (kernel_ecall 0) s6 = (14, s7) \<and> shows_view 0 (slice_frames_view V) s7"
proof -
  note d = V [unfolded room_def] and w = slice_view_def give_view_def
  define W where "W = give_view 12 (MemCap 7 True 16 0x20 0x20 0x30) 13 32 0 7 app1_frame (slice_view V)"
  have c: "controls (slice_view V) 8 1" using d by (simp add: controls_def slice_view_def)
  have "\<exists>s1 s2 s3. s3k_cap_derive (kernel_ecall 0) 12 13 (PmpCap 7 False 0 app1_frame) s = Some (0, s1)
    \<and> s3k_mon_cap_move (kernel_ecall 0) MONITOR APP0_PID 13 APP1_PID 0 s1 = Some (0, s2)
    \<and> s3k_mon_pmp_load (kernel_ecall 0) MONITOR APP1_PID 0 0 s2 = Some (0, s3) \<and> shows_view 0 W s3"
    unfolding W_def
    by (rule give_frame [OF s _ _ _ _ _ _ _ _ c frames(4), where l = False])
      (use d in \<open>simp_all add: frames exercise_frames config_at app_consts slice_view_def\<close>)
  then obtain s1 s2 s3 where s3: "s3k_cap_derive (kernel_ecall 0) 12 13 (PmpCap 7 False 0 app1_frame) s = Some (0, s1)"
    "s3k_mon_cap_move (kernel_ecall 0) MONITOR APP0_PID 13 APP1_PID 0 s1 = Some (0, s2)"
    "s3k_mon_pmp_load (kernel_ecall 0) MONITOR APP1_PID 0 0 s2 = Some (0, s3)" "shows_view 0 W s3" by blast
  have taken: "12 \<le> k \<Longrightarrow> k < 13 \<Longrightarrow> cap_type (v_cap W k) \<noteq> CAPTY_NONE" for k
    by (cases "k = 12") (simp_all add: W_def w)
  from find_free_at [OF s3(4), of 13] taken obtain s4 where s4: "find_free_cap (kernel_ecall 0) s3 = (13, s4)" "shows_view 0 W s4"
    by (auto simp: W_def w)
  have "\<exists>s5 s6. s3k_cap_derive (kernel_ecall 0) 12 13 (PmpCap 7 False 0 app1_frame) s4 = Some (0, s5)
    \<and> s3k_pmp_load (kernel_ecall 0) 13 BUFFER_PMP s5 = Some (0, s6) \<and> shows_view 0 (slice_frames_view V) s6"
    unfolding slice_frames_view_def W_def [symmetric] BUFFER_PMP_def
    by (rule own_frame [OF s4(2) _ _ _ _ _ frames(4), where l = True])
      (use d in \<open>simp_all add: frames exercise_frames config_at W_def w\<close>)
  then obtain s5 s6 where s6: "s3k_cap_derive (kernel_ecall 0) 12 13 (PmpCap 7 False 0 app1_frame) s4 = Some (0, s5)"
    "s3k_pmp_load (kernel_ecall 0) 13 BUFFER_PMP s5 = Some (0, s6)" "shows_view 0 (slice_frames_view V) s6" by blast
  have "12 \<le> k \<Longrightarrow> k < 14 \<Longrightarrow> cap_type (v_cap (slice_frames_view V) k) \<noteq> CAPTY_NONE" for k
    by (cases "k = 12"; cases "k = 13") (simp_all add: slice_frames_view_def frame_view_def)
  with find_free_at [OF s6(3), of 14] d obtain s7 where "find_free_cap (kernel_ecall 0) s6 = (14, s7)"
    "shows_view 0 (slice_frames_view V) s7" by (auto simp: slice_frames_view_def frame_view_def w)
  with s3 s4 s6 show ?thesis by (auto simp: app_consts)
qed

lemma other_app_call:
  assumes s: "shows_view 0 V s" and V: "room V"
  shows "\<exists>s'. setup_other_app (kernel_ecall 0) s = Some s' \<and> shows_view 0 (other_app_view V) s'"
proof -
  from slice_call [OF assms] obtain a1 a2 a3 where a: "find_free_cap (kernel_ecall 0) s = (12, a1)"
    "s3k_cap_derive (kernel_ecall 0) RAM_MEM 12 (MemCap 7 False 16 0x20 0x20 0x30) a1 = Some (0, a2)"
    "find_free_cap (kernel_ecall 0) a2 = (13, a3)" "shows_view 0 (slice_view V) a3" by blast
  from slice_frames_call [OF a(4) V] obtain s1 s2 s3 s4 s5 s6 s7 where
    b: "s3k_cap_derive (kernel_ecall 0) 12 13 (PmpCap 7 False 0 app1_frame) a3 = Some (0, s1)"
    "s3k_mon_cap_move (kernel_ecall 0) MONITOR APP0_PID 13 APP1_PID APP_1_CAP_PMP_MEM s1 = Some (0, s2)"
    "s3k_mon_pmp_load (kernel_ecall 0) MONITOR APP1_PID APP_1_CAP_PMP_MEM APP_1_PMP_SLOT_MEM s2 = Some (0, s3)"
    "find_free_cap (kernel_ecall 0) s3 = (13, s4)"
    "s3k_cap_derive (kernel_ecall 0) 12 13 (PmpCap 7 False 0 app1_frame) s4 = Some (0, s5)"
    "s3k_pmp_load (kernel_ecall 0) 13 BUFFER_PMP s5 = Some (0, s6)"
    "find_free_cap (kernel_ecall 0) s6 = (14, s7)" "shows_view 0 (slice_frames_view V) s7" by blast
  note d = V [unfolded room_def] and w = slice_frames_view_def frame_view_def slice_view_def give_view_def
  obtain l where l: "v_cap (slice_frames_view V) 2 = MemCap 3 l 2 0 0 2" using d by (auto simp: w)
  have c: "controls (slice_frames_view V) 8 1" using d by (simp add: controls_def w)
  define W where "W = give_view 2 (MemCap 3 True 2 0 0 2) 14 42 1 3 uart_frame (slice_frames_view V)"
  have "\<exists>t1 t2 t3. s3k_cap_derive (kernel_ecall 0) UART_MEM 14 (PmpCap 3 False 0 uart_frame) s7 = Some (0, t1)
    \<and> s3k_mon_cap_move (kernel_ecall 0) MONITOR APP0_PID 14 APP1_PID 10 t1 = Some (0, t2)
    \<and> s3k_mon_pmp_load (kernel_ecall 0) MONITOR APP1_PID 10 1 t2 = Some (0, t3) \<and> shows_view 0 W t3"
    unfolding W_def
    by (rule give_frame [OF b(8) _ _ _ _ _ l _ _ c frames(3)])
      (use d in \<open>simp_all add: frames config_at app_consts w\<close>)
  then obtain t1 t2 t3 where t: "s3k_cap_derive (kernel_ecall 0) UART_MEM 14 (PmpCap 3 False 0 uart_frame) s7 = Some (0, t1)"
    "s3k_mon_cap_move (kernel_ecall 0) MONITOR APP0_PID 14 APP1_PID 10 t1 = Some (0, t2)"
    "s3k_mon_pmp_load (kernel_ecall 0) MONITOR APP1_PID 10 1 t2 = Some (0, t3)" "shows_view 0 W t3" by blast
  have cW: "controls W 8 (unat APP1_PID)" using c by (simp add: controls_def W_def give_view_def app_consts)
  have "op_ok 0 W (\<lambda>u. cap_monitor_reg_write u 8 APP1_PID S3K_REG_PC APP_1_BASE_ADDR)
      (W\<lparr>v_regs := (v_regs W)(unat APP1_PID := (v_regs W (unat APP1_PID))(REG_PC := APP_1_BASE_ADDR))\<rparr>)"
    by (rule mon_reg_write_op [OF cW]) (simp_all add: app_consts config_at reg_of_def REG_CNT_def all_regs_def)
  also have "W\<lparr>v_regs := (v_regs W)(unat APP1_PID := (v_regs W (unat APP1_PID))(REG_PC := APP_1_BASE_ADDR))\<rparr> = other_app_view V"
    by (simp add: other_app_view_def W_def app_consts Let_def)
  finally have "call_ok 0 W (s3k_mon_reg_write (kernel_ecall 0) MONITOR APP1_PID S3K_REG_PC APP_1_BASE_ADDR) (other_app_view V)"
    by (rule mon_reg_write_call) (simp_all add: config_at app_consts REG_CNT_def all_regs_def)
  from call_okD [OF this t(4)] obtain t4 where
    t4: "s3k_mon_reg_write (kernel_ecall 0) MONITOR APP1_PID S3K_REG_PC APP_1_BASE_ADDR t3 = Some (0, t4)"
      "shows_view 0 (other_app_view V) t4" by blast
  from sync_mem_call [OF t4(2)] obtain t5 where "s3k_sync_mem (kernel_ecall 0) t4 = ((), t5)" "shows_view 0 (other_app_view V) t5"
    by (auto simp: config_at)
  then show ?thesis using a(1-3) b(1-7) t(1-3) t4(1)
    by (simp add: setup_other_app_def exercise_frames frames) (simp add: app_consts)
qed

section \<open>From boot\<close>

lemma boot_room:
  assumes "kernel_init pad (zero_state hart time irq) = Some s0"
    and "s = upd_proc s0 0 (\<lambda>q. q\<lparr>pstate := PSF_BUSY, timeout := t, regs := rs\<rparr>)" "\<And>n. irq n AND 0x80 = 0"
  shows "room (virtio_view (view_of 0 s))"
proof -
  note b = boot_view [OF assms]
  from kernel_init_ok [of pad hart time irq] assms(1) have s0: "kinv s0"
    "\<And>c. 0 < c \<Longrightarrow> c < 26 \<Longrightarrow> cte_cap (ctable s0) c = init_list pad ! c"
    "\<And>c. 26 \<le> c \<Longrightarrow> c < length (ctable s0) \<Longrightarrow> cte_cap (ctable s0) c = NoCap 0"
    by (auto simp: config_at)
  have "v_cap (view_of 0 s) c = NoCap 0" if "12 \<le> c" "c < 21" for c
  proof -
    have "c \<in> {12, 13, 14, 15, 16, 17, 18, 19, 20}" using that by auto
    then have "init_list pad ! c = NoCap 0" by (auto simp: init_list_def nth_append)
    with that s0(2) [of c] show ?thesis by (simp add: view_of_def assms(2))
  qed
  with b(2,5) setup_view_controls [OF b(2)] show ?thesis
    by (auto simp: room_def virtio_view_def frame_view_def setup_view_def controls_def)
qed

lemma other_app_view_fields:
  assumes "v_cfg V 1 = replicate 8 0" "length (v_addr V 1) = 8" "v_cfg V 0 = 0x1f # replicate 7 0" "length (v_addr V 0) = 8"
  defines "W \<equiv> other_app_view (virtio_view V)"
  shows "v_cfg W 1 = [0x1f, 0x1b, 0, 0, 0, 0, 0, 0]" "v_cfg W 0 = [0x1f, 0x1b, 0x1f, 0, 0, 0, 0, 0]"
    "v_addr W 1 ! 0 = ucast app1_frame" "v_addr W 1 ! 1 = ucast uart_frame"
    "v_addr W 0 ! 1 = ucast virtio_frame" "v_addr W 0 ! 2 = ucast app1_frame" "v_addr W 0 ! 0 = v_addr V 0 ! 0"
    "v_regs W 1 REG_PC = 0x80020000" "v_state W = v_state V" "v_slots W = v_slots V"
    "v_cap W 12 = MemCap 7 True 16 0x20 0x20 0x30" "v_cap W 1 = MemCap 7 False 16 0x20 0x30 0x8000"
  using assms(1-4) unfolding W_def
  by (simp_all add: other_app_view_def Let_def slice_frames_view_def virtio_view_def frame_view_def slice_view_def
      give_view_def frame_cfg eight_slots)



end
