(* ===== verification/Virtio.thy ===== *)
theory Virtio
  imports Console
begin

text \<open>
  The disk of the file system tutorial: the driver \<open>virtio_disk.c\<close> with \<open>virtio.h\<close> and \<open>buf.h\<close>, and the
  disk functions \<open>diskio.c\<close> that the file system calls. The directories \<open>projects/tutorial.09.fs/app0\<close>
  and \<open>projects/exercise/app0\<close> hold identical copies of these files.

  The device is not part of the program: it is an argument \<open>dev\<close> of the driver, with its register
  reads, its register writes, and \<open>dev_run\<close>, what it does to the memory it shares with the driver
  before each look of the driver at the used ring. \<open>block_device\<close> states what the virtio
  specification promises of it. The result \<open>None\<close> means that the C function does not return or
  that it accesses memory outside the arrays and buffers of the model.
\<close>

section \<open>Data\<close>

definition VNUM :: nat where "VNUM = 8"
definition BSIZE :: nat where "BSIZE = 512"
definition PGSIZE :: u32 where "PGSIZE = 4096"
definition PGSHIFT :: nat where "PGSHIFT = 12"

definition VRING_DESC_F_NEXT :: u16 where "VRING_DESC_F_NEXT = 1"
definition VRING_DESC_F_WRITE :: u16 where "VRING_DESC_F_WRITE = 2"
definition VIRTIO_BLK_T_IN :: u32 where "VIRTIO_BLK_T_IN = 0"
definition VIRTIO_BLK_T_OUT :: u32 where "VIRTIO_BLK_T_OUT = 1"

definition VIRTIO_MMIO_MAGIC_VALUE :: u64 where "VIRTIO_MMIO_MAGIC_VALUE = 0x000"
definition VIRTIO_MMIO_VERSION :: u64 where "VIRTIO_MMIO_VERSION = 0x004"
definition VIRTIO_MMIO_DEVICE_ID :: u64 where "VIRTIO_MMIO_DEVICE_ID = 0x008"
definition VIRTIO_MMIO_VENDOR_ID :: u64 where "VIRTIO_MMIO_VENDOR_ID = 0x00c"
definition VIRTIO_MMIO_DEVICE_FEATURES :: u64 where "VIRTIO_MMIO_DEVICE_FEATURES = 0x010"
definition VIRTIO_MMIO_DRIVER_FEATURES :: u64 where "VIRTIO_MMIO_DRIVER_FEATURES = 0x020"
definition VIRTIO_MMIO_GUEST_PAGE_SIZE :: u64 where "VIRTIO_MMIO_GUEST_PAGE_SIZE = 0x028"
definition VIRTIO_MMIO_QUEUE_SEL :: u64 where "VIRTIO_MMIO_QUEUE_SEL = 0x030"
definition VIRTIO_MMIO_QUEUE_NUM_MAX :: u64 where "VIRTIO_MMIO_QUEUE_NUM_MAX = 0x034"
definition VIRTIO_MMIO_QUEUE_NUM :: u64 where "VIRTIO_MMIO_QUEUE_NUM = 0x038"
definition VIRTIO_MMIO_QUEUE_PFN :: u64 where "VIRTIO_MMIO_QUEUE_PFN = 0x040"
definition VIRTIO_MMIO_QUEUE_NOTIFY :: u64 where "VIRTIO_MMIO_QUEUE_NOTIFY = 0x050"
definition VIRTIO_MMIO_INTERRUPT_STATUS :: u64 where "VIRTIO_MMIO_INTERRUPT_STATUS = 0x060"
definition VIRTIO_MMIO_INTERRUPT_ACK :: u64 where "VIRTIO_MMIO_INTERRUPT_ACK = 0x064"
definition VIRTIO_MMIO_STATUS :: u64 where "VIRTIO_MMIO_STATUS = 0x070"

definition VIRTIO_CONFIG_S_ACKNOWLEDGE :: u32 where "VIRTIO_CONFIG_S_ACKNOWLEDGE = 1"
definition VIRTIO_CONFIG_S_DRIVER :: u32 where "VIRTIO_CONFIG_S_DRIVER = 2"
definition VIRTIO_CONFIG_S_DRIVER_OK :: u32 where "VIRTIO_CONFIG_S_DRIVER_OK = 4"
definition VIRTIO_CONFIG_S_FEATURES_OK :: u32 where "VIRTIO_CONFIG_S_FEATURES_OK = 8"

definition VIRTIO_BLK_F_RO :: nat where "VIRTIO_BLK_F_RO = 5"
definition VIRTIO_BLK_F_SCSI :: nat where "VIRTIO_BLK_F_SCSI = 7"
definition VIRTIO_BLK_F_CONFIG_WCE :: nat where "VIRTIO_BLK_F_CONFIG_WCE = 11"
definition VIRTIO_BLK_F_MQ :: nat where "VIRTIO_BLK_F_MQ = 12"
definition VIRTIO_F_ANY_LAYOUT :: nat where "VIRTIO_F_ANY_LAYOUT = 27"
definition VIRTIO_RING_F_INDIRECT_DESC :: nat where "VIRTIO_RING_F_INDIRECT_DESC = 28"
definition VIRTIO_RING_F_EVENT_IDX :: nat where "VIRTIO_RING_F_EVENT_IDX = 29"

record virtq_desc =
  d_addr :: u64
  d_len :: u32
  d_flags :: u16
  d_next :: u16

record virtq_avail =
  av_flags :: u16
  av_idx :: u16
  av_ring :: "u16 list"
  av_unused :: u16

record virtq_used_elem =
  ue_id :: u32
  ue_len :: u32

record virtq_used =
  us_flags :: u16
  us_idx :: u16
  us_ring :: "virtq_used_elem list"

record virtio_blk_req =
  rq_type :: u32
  rq_reserved :: u32
  rq_sector :: u64

text \<open>The pointers \<open>prev\<close> and \<open>next\<close> of a buffer are addresses; no code of the repository uses them.\<close>

record buf =
  b_valid :: u32
  b_disk :: u32
  b_dev :: u32
  b_blockno :: u32
  b_refcnt :: u32
  b_prev :: u64
  b_next :: u64
  b_data :: "u8 list"

record disk_info =
  in_b :: u64
  in_status :: u8

text \<open>
  \<open>struct disk\<close>: the three regions of \<open>pages\<close>, and in \<open>dk_mapped\<close> whether the three pointers into
  them are set (they are null before \<open>virtio_disk_init\<close>).
\<close>

record disk =
  dk_desc :: "virtq_desc list"
  dk_avail :: virtq_avail
  dk_used :: virtq_used
  dk_mapped :: bool
  dk_free :: "bool list"
  dk_used_idx :: u16
  dk_info :: "disk_info list"
  dk_ops :: "virtio_blk_req list"
  dk_initialised :: bool

text \<open>The driver's world: its static variable, the buffers by address, the serial port, the device.\<close>

record 'd vio =
  vdisk :: disk
  vbufs :: "u64 \<rightharpoonup> buf"
  vport :: port
  vdev :: 'd

record 'd device =
  dev_read :: "u64 \<Rightarrow> 'd \<Rightarrow> u32 \<times> 'd"
  dev_write :: "u64 \<Rightarrow> u32 \<Rightarrow> 'd \<Rightarrow> 'd"
  dev_run :: "'d vio \<Rightarrow> 'd vio"

text \<open>
  Addresses inside \<open>struct disk\<close> at \<open>base\<close> and inside \<open>struct buf\<close>, by the layout of the C types:
  two pages, three pointers, eight flags, the index and its padding precede \<open>info\<close>; \<open>ops\<close> follows it.
\<close>

definition info_status_addr :: "u64 \<Rightarrow> nat \<Rightarrow> u64" where
  "info_status_addr base i = base + 8232 + of_nat (16 * i) + 8"

definition ops_addr :: "u64 \<Rightarrow> nat \<Rightarrow> u64" where
  "ops_addr base i = base + 8360 + of_nat (16 * i)"

definition buf_data_addr :: "u64 \<Rightarrow> u64" where
  "buf_data_addr b = b + 40"

section \<open>The driver\<close>

definition read_reg :: "'d device \<Rightarrow> u64 \<Rightarrow> 'd vio \<Rightarrow> u32 \<times> 'd vio" where
  "read_reg dev r s = (let (v, d) = dev_read dev r (vdev s) in (v, s\<lparr>vdev := d\<rparr>))"

definition write_reg :: "'d device \<Rightarrow> u64 \<Rightarrow> u32 \<Rightarrow> 'd vio \<Rightarrow> 'd vio" where
  "write_reg dev r v s = s\<lparr>vdev := dev_write dev r v (vdev s)\<rparr>"

definition vputs :: "putc \<Rightarrow> string \<Rightarrow> 'd vio \<Rightarrow> 'd vio option" where
  "vputs uart_putc str s = map_option (\<lambda>(n, u). s\<lparr>vport := u\<rparr>) (alt_puts uart_putc (vport s) str)"

definition virtio_disk_status :: "'d vio \<Rightarrow> bool" where
  "virtio_disk_status s = dk_initialised (vdisk s)"

subsection \<open>Initialisation\<close>

text \<open>The test of the four identification registers, which stops at the first that differs.\<close>

definition not_a_disk :: "'d device \<Rightarrow> 'd vio \<Rightarrow> bool \<times> 'd vio" where
  "not_a_disk dev s =
    (let (v, s) = read_reg dev VIRTIO_MMIO_MAGIC_VALUE s in if v \<noteq> 0x74726976 then (True, s) else
     let (v, s) = read_reg dev VIRTIO_MMIO_VERSION s in if v \<noteq> 1 then (True, s) else
     let (v, s) = read_reg dev VIRTIO_MMIO_DEVICE_ID s in if v \<noteq> 2 then (True, s) else
     let (v, s) = read_reg dev VIRTIO_MMIO_VENDOR_ID s in (v \<noteq> 0x554d4551, s))"

definition feature_mask :: "nat \<Rightarrow> u64" where
  "feature_mask n = NOT (push_bit n 1)"

definition driver_features :: "u64 \<Rightarrow> u64" where
  "driver_features features =
    (((((((features AND feature_mask VIRTIO_BLK_F_RO) AND feature_mask VIRTIO_BLK_F_SCSI)
      AND feature_mask VIRTIO_BLK_F_CONFIG_WCE) AND feature_mask VIRTIO_BLK_F_MQ)
      AND feature_mask VIRTIO_F_ANY_LAYOUT) AND feature_mask VIRTIO_RING_F_EVENT_IDX)
      AND feature_mask VIRTIO_RING_F_INDIRECT_DESC)"

text \<open>The status and feature handshake, up to the selection of queue 0.\<close>

definition virtio_handshake :: "'d device \<Rightarrow> 'd vio \<Rightarrow> 'd vio" where
  "virtio_handshake dev s =
    (let status = VIRTIO_CONFIG_S_ACKNOWLEDGE;
         s = write_reg dev VIRTIO_MMIO_STATUS status s;
         status = status OR VIRTIO_CONFIG_S_DRIVER;
         s = write_reg dev VIRTIO_MMIO_STATUS status s;
         (features, s) = read_reg dev VIRTIO_MMIO_DEVICE_FEATURES s;
         s = write_reg dev VIRTIO_MMIO_DRIVER_FEATURES (ucast (driver_features (ucast features))) s;
         status = status OR VIRTIO_CONFIG_S_FEATURES_OK;
         s = write_reg dev VIRTIO_MMIO_STATUS status s;
         status = status OR VIRTIO_CONFIG_S_DRIVER_OK;
         s = write_reg dev VIRTIO_MMIO_STATUS status s;
         s = write_reg dev VIRTIO_MMIO_GUEST_PAGE_SIZE PGSIZE s
     in write_reg dev VIRTIO_MMIO_QUEUE_SEL 0 s)"

definition zero_desc :: virtq_desc where
  "zero_desc = \<lparr>d_addr = 0, d_len = 0, d_flags = 0, d_next = 0\<rparr>"

text \<open>\<open>memset(disk.pages, 0, \<dots>)\<close> clears the three regions.\<close>

definition clear_pages :: "disk \<Rightarrow> disk" where
  "clear_pages dk = dk\<lparr>dk_desc := replicate VNUM zero_desc,
     dk_avail := \<lparr>av_flags = 0, av_idx = 0, av_ring = replicate VNUM 0, av_unused = 0\<rparr>,
     dk_used := \<lparr>us_flags = 0, us_idx = 0, us_ring = replicate VNUM \<lparr>ue_id = 0, ue_len = 0\<rparr>\<rparr>\<rparr>"

definition virtio_disk_init :: "'d device \<Rightarrow> u64 \<Rightarrow> putc \<Rightarrow> 'd vio \<Rightarrow> 'd vio option" where
  "virtio_disk_init dev base uart_putc s = do {
     let (bad, s) = not_a_disk dev s;
     s \<leftarrow> (if bad then vputs uart_putc ''could not find virtio disk'' s else Some s);
     let s = virtio_handshake dev s;
     let (max', s) = read_reg dev VIRTIO_MMIO_QUEUE_NUM_MAX s;
     if max' = 0 then vputs uart_putc ''virtio disk has no queue 0'' s
     else if max' < of_nat VNUM then vputs uart_putc ''virtio disk max queue too short'' s
     else do {
       let s = write_reg dev VIRTIO_MMIO_QUEUE_NUM (of_nat VNUM) s;
       let s = s\<lparr>vdisk := clear_pages (vdisk s)\<rparr>;
       let s = write_reg dev VIRTIO_MMIO_QUEUE_PFN (ucast (drop_bit PGSHIFT base)) s;
       let s = s\<lparr>vdisk := (vdisk s)\<lparr>dk_mapped := True,
         dk_free := array_loop (\<lambda>i f. True) 0 VNUM (dk_free (vdisk s)), dk_initialised := True\<rparr>\<rparr>;
       vputs uart_putc (''Disk Initialization completed'' @ [CHR 0x0A]) s } }"

subsection \<open>Descriptors\<close>

text \<open>\<open>alloc_desc\<close>, over the indices the loop runs through.\<close>

fun alloc_loop :: "nat list \<Rightarrow> bool list \<Rightarrow> int \<times> bool list" where
  "alloc_loop [] fr = (- 1, fr)"
| "alloc_loop (i # is) fr = (if fr ! i then (int i, fr[i := False]) else alloc_loop is fr)"

definition alloc_desc :: "'d vio \<Rightarrow> int \<times> 'd vio" where
  "alloc_desc s = (let (i, fr) = alloc_loop [0..<VNUM] (dk_free (vdisk s))
     in (i, s\<lparr>vdisk := (vdisk s)\<lparr>dk_free := fr\<rparr>\<rparr>))"

definition free_desc :: "putc \<Rightarrow> int \<Rightarrow> 'd vio \<Rightarrow> 'd vio option" where
  "free_desc uart_putc i s =
    (if i \<ge> int VNUM then vputs uart_putc ''free_desc 1'' s
     else if i < 0 then None
     else if dk_free (vdisk s) ! nat i then vputs uart_putc ''free_desc 2'' s
     else if \<not> dk_mapped (vdisk s) then None
     else Some (s\<lparr>vdisk := (vdisk s)\<lparr>dk_desc := (dk_desc (vdisk s))[nat i := zero_desc],
       dk_free := (dk_free (vdisk s))[nat i := True]\<rparr>\<rparr>))"

partial_function (option) free_chain :: "putc \<Rightarrow> int \<Rightarrow> 'd vio \<Rightarrow> 'd vio option" where
  "free_chain uart_putc i s =
    (if i < 0 \<or> i \<ge> int VNUM \<or> \<not> dk_mapped (vdisk s) then None else do {
       let flag = d_flags (dk_desc (vdisk s) ! nat i);
       let nxt = d_next (dk_desc (vdisk s) ! nat i);
       s \<leftarrow> free_desc uart_putc i s;
       if flag AND VRING_DESC_F_NEXT \<noteq> 0 then free_chain uart_putc (uint nxt) s else Some s })"

fun free_descs :: "putc \<Rightarrow> int list \<Rightarrow> 'd vio \<Rightarrow> 'd vio option" where
  "free_descs uart_putc [] s = Some s"
| "free_descs uart_putc (i # is) s = do { s \<leftarrow> free_desc uart_putc i s; free_descs uart_putc is s }"

text \<open>The loop of \<open>alloc3_desc\<close>, with the rounds to go and the indices stored so far.\<close>

fun alloc3_loop :: "putc \<Rightarrow> nat \<Rightarrow> int list \<Rightarrow> 'd vio \<Rightarrow> ((int \<times> int list) \<times> 'd vio) option" where
  "alloc3_loop uart_putc 0 idx s = Some ((0, idx), s)"
| "alloc3_loop uart_putc (Suc n) idx s = (let (i, s) = alloc_desc s in
     if i < 0 then do { s \<leftarrow> free_descs uart_putc idx s; Some ((- 1, idx @ [i]), s) }
     else alloc3_loop uart_putc n (idx @ [i]) s)"

definition alloc3_desc :: "putc \<Rightarrow> 'd vio \<Rightarrow> ((int \<times> int list) \<times> 'd vio) option" where
  "alloc3_desc uart_putc s = alloc3_loop uart_putc 3 [] s"

subsection \<open>Requests\<close>

partial_function (option) alloc3_wait :: "putc \<Rightarrow> 'd vio \<Rightarrow> (int list \<times> 'd vio) option" where
  "alloc3_wait uart_putc s = do {
     ((r, idx), s) \<leftarrow> alloc3_desc uart_putc s;
     if r = 0 then Some (idx, s) else alloc3_wait uart_putc s }"

definition set_desc :: "nat \<Rightarrow> virtq_desc \<Rightarrow> disk \<Rightarrow> disk" where
  "set_desc i d dk = dk\<lparr>dk_desc := (dk_desc dk)[i := d]\<rparr>"

definition set_op :: "nat \<Rightarrow> virtio_blk_req \<Rightarrow> disk \<Rightarrow> disk" where
  "set_op i r dk = dk\<lparr>dk_ops := (dk_ops dk)[i := r]\<rparr>"

definition set_info_status :: "nat \<Rightarrow> u8 \<Rightarrow> disk \<Rightarrow> disk" where
  "set_info_status i st dk = dk\<lparr>dk_info := (dk_info dk)[i := (dk_info dk ! i)\<lparr>in_status := st\<rparr>]\<rparr>"

definition set_info_b :: "nat \<Rightarrow> u64 \<Rightarrow> disk \<Rightarrow> disk" where
  "set_info_b i b dk = dk\<lparr>dk_info := (dk_info dk)[i := (dk_info dk ! i)\<lparr>in_b := b\<rparr>]\<rparr>"

text \<open>The request header and the three descriptors, and the buffer recorded for the completion.\<close>

definition format_request :: "u64 \<Rightarrow> u64 \<Rightarrow> bool \<Rightarrow> u64 \<Rightarrow> nat \<Rightarrow> nat \<Rightarrow> nat \<Rightarrow> disk \<Rightarrow> disk" where
  "format_request base b write sector i0 i1 i2 dk =
    (let dk = set_op i0 \<lparr>rq_type = (if write then VIRTIO_BLK_T_OUT else VIRTIO_BLK_T_IN),
           rq_reserved = 0, rq_sector = sector\<rparr> dk;
         dk = set_desc i0 \<lparr>d_addr = ops_addr base i0, d_len = 16, d_flags = VRING_DESC_F_NEXT,
           d_next = of_nat i1\<rparr> dk;
         dk = set_desc i1 \<lparr>d_addr = buf_data_addr b, d_len = of_nat BSIZE,
           d_flags = (if write then 0 else VRING_DESC_F_WRITE) OR VRING_DESC_F_NEXT, d_next = of_nat i2\<rparr> dk;
         dk = set_info_status i0 0xff dk;
         dk = set_desc i2 \<lparr>d_addr = info_status_addr base i0, d_len = 1, d_flags = VRING_DESC_F_WRITE,
           d_next = 0\<rparr> dk
     in set_info_b i0 b dk)"

definition submit_request :: "nat \<Rightarrow> disk \<Rightarrow> disk" where
  "submit_request i0 dk =
    (let av = dk_avail dk;
         av = av\<lparr>av_ring := (av_ring av)[unat (av_idx av mod of_nat VNUM) := of_nat i0]\<rparr>
     in dk\<lparr>dk_avail := av\<lparr>av_idx := av_idx av + 1\<rparr>\<rparr>)"

text \<open>The loop of \<open>virtio_disk_intr\<close>; the device runs before each look at \<open>used->idx\<close>.\<close>

partial_function (option) intr_loop :: "'d device \<Rightarrow> putc \<Rightarrow> 'd vio \<Rightarrow> 'd vio option" where
  "intr_loop dev uart_putc s = do {
     let s = dev_run dev s;
     let dk = vdisk s;
     if \<not> dk_mapped dk then None
     else if dk_used_idx dk = us_idx (dk_used dk) then Some s
     else do {
       let id = unat (ue_id (us_ring (dk_used dk) ! unat (dk_used_idx dk mod of_nat VNUM)));
       if id \<ge> VNUM then None
       else if in_status (dk_info dk ! id) \<noteq> 0 then vputs uart_putc ''virtio_disk_intr status'' s
       else do {
         let b = in_b (dk_info dk ! id);
         bf \<leftarrow> vbufs s b;
         let s = s\<lparr>vbufs := (vbufs s)(b \<mapsto> bf\<lparr>b_disk := 0\<rparr>)\<rparr>;
         let s = s\<lparr>vdisk := dk\<lparr>dk_used_idx := dk_used_idx dk + 1\<rparr>\<rparr>;
         intr_loop dev uart_putc s } } }"

definition virtio_disk_intr :: "'d device \<Rightarrow> putc \<Rightarrow> 'd vio \<Rightarrow> 'd vio option" where
  "virtio_disk_intr dev uart_putc s = do {
     let (v, s) = read_reg dev VIRTIO_MMIO_INTERRUPT_STATUS s;
     let s = write_reg dev VIRTIO_MMIO_INTERRUPT_ACK (v AND 0x3) s;
     intr_loop dev uart_putc s }"

partial_function (option) wait_done :: "'d device \<Rightarrow> putc \<Rightarrow> u64 \<Rightarrow> 'd vio \<Rightarrow> 'd vio option" where
  "wait_done dev uart_putc b s = do {
     bf \<leftarrow> vbufs s b;
     if b_disk bf = 1 then do { s \<leftarrow> virtio_disk_intr dev uart_putc s; wait_done dev uart_putc b s }
     else Some s }"

definition virtio_disk_rw :: "'d device \<Rightarrow> u64 \<Rightarrow> putc \<Rightarrow> u64 \<Rightarrow> bool \<Rightarrow> 'd vio \<Rightarrow> 'd vio option" where
  "virtio_disk_rw dev base uart_putc b write s = do {
     bf \<leftarrow> vbufs s b;
     let sector = ucast (b_blockno bf * of_nat (BSIZE div 512));
     (idx, s) \<leftarrow> alloc3_wait uart_putc s;
     let i0 = nat (idx ! 0);
     let i1 = nat (idx ! 1);
     let i2 = nat (idx ! 2);
     if \<not> dk_mapped (vdisk s) then None
     else do {
       let s = s\<lparr>vdisk := format_request base b write sector i0 i1 i2 (vdisk s)\<rparr>;
       let s = s\<lparr>vbufs := (vbufs s)(b \<mapsto> bf\<lparr>b_disk := 1\<rparr>)\<rparr>;
       let s = s\<lparr>vdisk := submit_request i0 (vdisk s)\<rparr>;
       let s = write_reg dev VIRTIO_MMIO_QUEUE_NOTIFY 0 s;
       s \<leftarrow> wait_done dev uart_putc b s;
       let s = s\<lparr>vdisk := set_info_b i0 0 (vdisk s)\<rparr>;
       free_chain uart_putc (int i0) s } }"

section \<open>The disk functions of the file system\<close>

datatype DRESULT = RES_OK | RES_ERROR | RES_WRPRT | RES_NOTRDY | RES_PARERR

definition STA_NOINIT :: u8 where "STA_NOINIT = 0x01"
definition DEV_VIRTIO :: u8 where "DEV_VIRTIO = 0"
definition CTRL_SYNC :: u8 where "CTRL_SYNC = 0"
definition GET_SECTOR_COUNT :: u8 where "GET_SECTOR_COUNT = 1"
definition GET_SECTOR_SIZE :: u8 where "GET_SECTOR_SIZE = 2"
definition GET_BLOCK_SIZE :: u8 where "GET_BLOCK_SIZE = 3"

definition disk_status :: "u8 \<Rightarrow> 'd vio \<Rightarrow> u8" where
  "disk_status pdrv s = (if pdrv = DEV_VIRTIO \<and> virtio_disk_status s then 0 else STA_NOINIT)"

definition disk_initialize :: "'d device \<Rightarrow> u64 \<Rightarrow> putc \<Rightarrow> u8 \<Rightarrow> 'd vio \<Rightarrow> (u8 \<times> 'd vio) option" where
  "disk_initialize dev base uart_putc pdrv s =
    (if pdrv = DEV_VIRTIO then do {
       s \<leftarrow> virtio_disk_init dev base uart_putc s;
       Some (disk_status pdrv s, s) }
     else Some (STA_NOINIT, s))"

text \<open>
  The caller's memory at \<open>buff\<close> is a list of bytes and \<open>off\<close> the distance of the moving pointer from
  its start. The local variable \<open>buffer\<close> is at the address \<open>bp\<close>; of its fields the code sets only the
  block number and the data.
\<close>

definition start_block :: "u64 \<Rightarrow> u32 \<Rightarrow> u8 list \<Rightarrow> 'd vio \<Rightarrow> 'd vio option" where
  "start_block bp sector bytes s = do {
     bf \<leftarrow> vbufs s bp;
     Some (s\<lparr>vbufs := (vbufs s)(bp \<mapsto> bf\<lparr>b_blockno := sector, b_data := bytes\<rparr>)\<rparr>) }"

partial_function (option) read_loop :: "'d device \<Rightarrow> u64 \<Rightarrow> putc \<Rightarrow> u64 \<Rightarrow> u32 \<Rightarrow> nat \<Rightarrow> u32
    \<Rightarrow> u8 list \<Rightarrow> 'd vio \<Rightarrow> (u8 list \<times> 'd vio) option" where
  "read_loop dev base uart_putc bp sector off count buff s = do {
     s \<leftarrow> start_block bp sector (replicate BSIZE 0) s;
     s \<leftarrow> virtio_disk_rw dev base uart_putc bp False s;
     bf \<leftarrow> vbufs s bp;
     if off + 512 > length buff then None
     else do {
       let buff = take off buff @ b_data bf @ drop (off + 512) buff;
       let count = count - 1;
       if count \<noteq> 0 then read_loop dev base uart_putc bp sector (off + 512) count buff s
       else Some (buff, s) } }"

definition disk_read :: "'d device \<Rightarrow> u64 \<Rightarrow> putc \<Rightarrow> u64 \<Rightarrow> u8 \<Rightarrow> u8 list \<Rightarrow> u32 \<Rightarrow> u32
    \<Rightarrow> 'd vio \<Rightarrow> ((DRESULT \<times> u8 list) \<times> 'd vio) option" where
  "disk_read dev base uart_putc bp pdrv buff sector count s =
    (if pdrv = DEV_VIRTIO then
       (if disk_status pdrv s AND STA_NOINIT \<noteq> 0 then Some ((RES_NOTRDY, buff), s)
        else do {
          (buff, s) \<leftarrow> read_loop dev base uart_putc bp sector 0 count buff s;
          Some ((RES_OK, buff), s) })
     else Some ((RES_PARERR, buff), s))"

partial_function (option) write_loop :: "'d device \<Rightarrow> u64 \<Rightarrow> putc \<Rightarrow> u64 \<Rightarrow> u8 list \<Rightarrow> u32 \<Rightarrow> nat \<Rightarrow> u32
    \<Rightarrow> 'd vio \<Rightarrow> 'd vio option" where
  "write_loop dev base uart_putc bp buff sector off count s =
    (if off + 512 > length buff then None
     else do {
       s \<leftarrow> start_block bp sector (take 512 (drop off buff)) s;
       s \<leftarrow> virtio_disk_rw dev base uart_putc bp True s;
       let count = count - 1;
       if count \<noteq> 0 then write_loop dev base uart_putc bp buff sector (off + 512) count s
       else Some s })"

definition disk_write :: "'d device \<Rightarrow> u64 \<Rightarrow> putc \<Rightarrow> u64 \<Rightarrow> u8 \<Rightarrow> u8 list \<Rightarrow> u32 \<Rightarrow> u32
    \<Rightarrow> 'd vio \<Rightarrow> (DRESULT \<times> 'd vio) option" where
  "disk_write dev base uart_putc bp pdrv buff sector count s =
    (if pdrv = DEV_VIRTIO then
       (if disk_status pdrv s AND STA_NOINIT \<noteq> 0 then Some (RES_NOTRDY, s)
        else do {
          s \<leftarrow> write_loop dev base uart_putc bp buff sector 0 count s;
          Some (RES_OK, s) })
     else Some (RES_PARERR, s))"

text \<open>The result and the 32-bit value that is stored at \<open>buff\<close>, if one is.\<close>

definition disk_ioctl :: "u8 \<Rightarrow> u8 \<Rightarrow> 'd vio \<Rightarrow> DRESULT \<times> u32 option" where
  "disk_ioctl drv ctrl s =
    (if disk_status drv s AND STA_NOINIT \<noteq> 0 then (RES_NOTRDY, None)
     else if ctrl = CTRL_SYNC then (RES_OK, None)
     else if ctrl = GET_SECTOR_SIZE then (RES_OK, Some 512)
     else if ctrl = GET_SECTOR_COUNT then (RES_OK, Some (10 * 1024 * 1024 div 512))
     else if ctrl = GET_BLOCK_SIZE then (RES_OK, Some 1)
     else (RES_PARERR, None))"

definition get_fattime :: u32 where
  "get_fattime = 0"

end
