(* ===== verification/DiskService.thy ===== *)
theory DiskService
  imports Virtio
begin

text \<open>
  What the disk driver achieves. Section 1 is the allocation of descriptors. Section 2 states the part
  of the virtio specification the driver relies on, as a predicate on the device, and section 3 shows
  that with such a device a request returns, transfers one sector and leaves the driver as it was.
  Section 4 lifts this to the functions the file system calls.
\<close>

lemmas virtio_sizes = VNUM_def BSIZE_def
lemmas virtio_flags = VRING_DESC_F_NEXT_def VRING_DESC_F_WRITE_def

section \<open>Descriptors\<close>

text \<open>The free descriptors, in the order in which \<open>alloc_desc\<close> finds them.\<close>

definition free_list :: "disk \<Rightarrow> nat list" where
  "free_list dk = filter (\<lambda>i. dk_free dk ! i) [0..<VNUM]"

lemma alloc_loop_filter:
  "alloc_loop is fr = (case filter (\<lambda>i. fr ! i) is of [] \<Rightarrow> (- 1, fr) | i # _ \<Rightarrow> (int i, fr[i := False]))"
  by (induction "is") simp_all

lemma filter_head_update:
  assumes "distinct is" "\<forall>i\<in>set is. i < length fr" "filter (\<lambda>i. fr ! i) is = j # js"
  shows "filter (\<lambda>i. fr[j := False] ! i) is = js"
  using assms
proof (induction "is")
  case (Cons a as)
  show ?case
  proof (cases "fr ! a")
    case True
    with Cons.prems have "j = a" "js = filter (\<lambda>i. fr ! i) as" by simp_all
    moreover have "filter (\<lambda>i. fr[a := False] ! i) as = filter (\<lambda>i. fr ! i) as"
      using Cons.prems(1) by (intro filter_cong) (simp_all, metis nth_list_update_neq)
    ultimately show ?thesis using Cons.prems(2) by simp
  next
    case False
    then have "filter (\<lambda>i. fr ! i) as = j # js" using Cons.prems(3) by simp
    moreover have "\<not> fr[j := False] ! a" using False Cons.prems(2) by (cases "j = a") simp_all
    ultimately show ?thesis using Cons by simp
  qed
qed simp

lemma free_list_update:
  assumes "length (dk_free dk) = VNUM" "free_list dk = j # js"
  shows "free_list (dk\<lparr>dk_free := (dk_free dk)[j := False]\<rparr>) = js"
  using assms by (auto simp: free_list_def intro: filter_head_update)

lemma alloc_desc_free_list:
  "alloc_desc s = (case free_list (vdisk s) of [] \<Rightarrow> (- 1, s)
     | i # _ \<Rightarrow> (int i, s\<lparr>vdisk := (vdisk s)\<lparr>dk_free := (dk_free (vdisk s))[i := False]\<rparr>\<rparr>))"
  by (simp add: alloc_desc_def alloc_loop_filter free_list_def split: list.split)

lemma free_listD:
  assumes "free_list dk = js" "i \<in> set js"
  shows "i < VNUM" "dk_free dk ! i"
  using assms by (auto simp: free_list_def)

lemma distinct_free_list: "distinct (free_list dk)"
  by (simp add: free_list_def)

text \<open>Marking a list of descriptors as taken.\<close>

definition take_descs :: "nat list \<Rightarrow> 'd vio \<Rightarrow> 'd vio" where
  "take_descs js s = s\<lparr>vdisk := (vdisk s)\<lparr>dk_free := fold (\<lambda>i fr. fr[i := False]) js (dk_free (vdisk s))\<rparr>\<rparr>"

lemma alloc3_loop_ok:
  assumes "length (dk_free (vdisk s)) = VNUM" "n \<le> length (free_list (vdisk s))"
  shows "alloc3_loop p n idx s
    = Some ((0, idx @ map int (take n (free_list (vdisk s)))), take_descs (take n (free_list (vdisk s))) s)"
  using assms
proof (induction n arbitrary: idx s)
  case (Suc n)
  then obtain j js where l: "free_list (vdisk s) = j # js" by (cases "free_list (vdisk s)") auto
  let ?s = "s\<lparr>vdisk := (vdisk s)\<lparr>dk_free := (dk_free (vdisk s))[j := False]\<rparr>\<rparr>"
  have "free_list (vdisk ?s) = js" using Suc.prems(1) l by (simp add: free_list_update)
  moreover have "length (dk_free (vdisk ?s)) = VNUM" using Suc.prems(1) by simp
  ultimately have "alloc3_loop p n (idx @ [int j]) ?s
      = Some ((0, idx @ [int j] @ map int (take n js)), take_descs (take n js) ?s)"
    using Suc.IH [of ?s "idx @ [int j]"] Suc.prems(2) l by simp
  then show ?case using l by (simp add: alloc_desc_free_list take_descs_def)
qed (simp add: take_descs_def)

lemma alloc3_desc_ok:
  assumes "length (dk_free (vdisk s)) = VNUM" "free_list (vdisk s) = i0 # i1 # i2 # js"
  shows "alloc3_desc p s = Some ((0, [int i0, int i1, int i2]), take_descs [i0, i1, i2] s)"
  using assms alloc3_loop_ok [of s 3 p "[]"] by (simp add: alloc3_desc_def)

text \<open>Freeing descriptors that were taken resets their entries and their flags.\<close>

definition release_descs :: "nat list \<Rightarrow> 'd vio \<Rightarrow> 'd vio" where
  "release_descs js s = s\<lparr>vdisk := (vdisk s)\<lparr>
     dk_desc := fold (\<lambda>i ds. ds[i := zero_desc]) js (dk_desc (vdisk s)),
     dk_free := fold (\<lambda>i fr. fr[i := True]) js (dk_free (vdisk s))\<rparr>\<rparr>"

lemma free_desc_taken:
  assumes "i < VNUM" "\<not> dk_free (vdisk s) ! i" "dk_mapped (vdisk s)"
  shows "free_desc p (int i) s = Some (release_descs [i] s)"
  using assms by (simp add: free_desc_def release_descs_def)

lemma alloc3_desc_fails:
  assumes "length (dk_free (vdisk s)) = VNUM" "dk_mapped (vdisk s)" "length (free_list (vdisk s)) < 3"
  shows "\<exists>idx. alloc3_desc p s = Some ((- 1, idx), release_descs (free_list (vdisk s)) s)"
proof -
  note S = alloc3_desc_def numeral_3_eq_3 alloc_desc_free_list
  consider "free_list (vdisk s) = []" | i where "free_list (vdisk s) = [i]"
    | i j where "free_list (vdisk s) = [i, j]"
    using assms(3) by (auto simp: less_Suc_eq numeral_3_eq_3 length_Suc_conv)
  then show ?thesis
  proof cases
    case 1
    then show ?thesis by (simp add: S release_descs_def)
  next
    case (2 i)
    then have "i < VNUM" "dk_free (vdisk s) ! i" using free_listD [OF 2, of i] by simp_all
    with 2 free_list_update [OF assms(1) 2] assms show ?thesis
      by (simp add: S free_desc_def release_descs_def)
  next
    case (3 i j)
    have b: "i \<noteq> j" "i < VNUM" "j < VNUM" "dk_free (vdisk s) ! i" "dk_free (vdisk s) ! j"
      using distinct_free_list [of "vdisk s"] free_listD [OF 3, of i] free_listD [OF 3, of j] 3 by simp_all
    let ?d = "(vdisk s)\<lparr>dk_free := (dk_free (vdisk s))[i := False]\<rparr>"
    have l: "free_list ?d = [j]" using free_list_update [OF assms(1) 3] .
    have l': "free_list (?d\<lparr>dk_free := (dk_free ?d)[j := False]\<rparr>) = []"
      by (rule free_list_update [OF _ l]) (simp add: assms(1))
    show ?thesis using b 3 l l' assms(1,2)
      by (simp add: S free_desc_def release_descs_def list_update_swap)
  qed
qed

section \<open>The device\<close>

text \<open>
  The descriptor \<open>h\<close> heads a chain of three for a block request: the header \<open>ops[i]\<close>, the data of the
  buffer \<open>b\<close> (written by the device unless the request is a write) and the status byte of \<open>info[j]\<close>.
\<close>

definition describes :: "u64 \<Rightarrow> disk \<Rightarrow> nat \<Rightarrow> nat \<Rightarrow> u64 \<Rightarrow> nat \<Rightarrow> bool" where
  "describes base dk h i b j =
    (let d0 = dk_desc dk ! h; d1 = dk_desc dk ! unat (d_next d0); d2 = dk_desc dk ! unat (d_next d1);
         write = (rq_type (dk_ops dk ! i) = VIRTIO_BLK_T_OUT)
     in h < VNUM \<and> i < VNUM \<and> j < VNUM \<and> unat (d_next d0) < VNUM \<and> unat (d_next d1) < VNUM
      \<and> rq_type (dk_ops dk ! i) \<in> {VIRTIO_BLK_T_IN, VIRTIO_BLK_T_OUT}
      \<and> d_addr d0 = ops_addr base i \<and> d_len d0 = 16 \<and> d_flags d0 = VRING_DESC_F_NEXT
      \<and> d_addr d1 = buf_data_addr b \<and> d_len d1 = of_nat BSIZE
      \<and> d_flags d1 = (if write then 0 else VRING_DESC_F_WRITE) OR VRING_DESC_F_NEXT
      \<and> d_addr d2 = info_status_addr base j \<and> d_len d2 = 1 \<and> d_flags d2 = VRING_DESC_F_WRITE)"

text \<open>The next entry of the avail ring that the device has not seen.\<close>

definition avail_head :: "u16 \<Rightarrow> disk \<Rightarrow> nat" where
  "avail_head seen dk = unat (av_ring (dk_avail dk) ! unat (seen mod of_nat VNUM))"

text \<open>
  What the device writes into the memory when it has served the request at \<open>h\<close>: the data (of a read),
  the status 0, the next entry of the used ring and its index.
\<close>

definition completed :: "nat \<Rightarrow> u64 \<Rightarrow> nat \<Rightarrow> buf \<Rightarrow> u8 list \<Rightarrow> u32 \<Rightarrow> 'd vio \<Rightarrow> 'd vio" where
  "completed h b j bf bytes len s =
    (let dk = set_info_status j 0 (vdisk s); us = dk_used dk
     in s\<lparr>vdisk := dk\<lparr>dk_used := us\<lparr>us_idx := us_idx us + 1,
            us_ring := (us_ring us)[unat (us_idx us mod of_nat VNUM) := \<lparr>ue_id = of_nat h, ue_len = len\<rparr>]\<rparr>\<rparr>,
          vbufs := (vbufs s)(b \<mapsto> bf\<lparr>b_data := bytes\<rparr>)\<rparr>)"

definition after_sector :: "virtio_blk_req \<Rightarrow> u8 list \<Rightarrow> (u64 \<Rightarrow> u8 list) \<Rightarrow> u64 \<Rightarrow> u8 list" where
  "after_sector r bytes sectors =
    (if rq_type r = VIRTIO_BLK_T_OUT then sectors(rq_sector r := bytes) else sectors)"

definition sector_data :: "virtio_blk_req \<Rightarrow> u8 list \<Rightarrow> (u64 \<Rightarrow> u8 list) \<Rightarrow> u8 list" where
  "sector_data r bytes sectors = (if rq_type r = VIRTIO_BLK_T_OUT then bytes else sectors (rq_sector r))"

definition serves :: "('d \<Rightarrow> u64 \<Rightarrow> u8 list) \<Rightarrow> ('d \<Rightarrow> u16) \<Rightarrow> nat \<Rightarrow> nat \<Rightarrow> u64 \<Rightarrow> nat \<Rightarrow> buf
    \<Rightarrow> 'd vio \<Rightarrow> 'd vio \<Rightarrow> bool" where
  "serves sect seen h i b j bf s s' =
    (\<exists>d len. s' = (completed h b j bf (sector_data (dk_ops (vdisk s) ! i) (b_data bf) (sect (vdev s))) len s)
         \<lparr>vdev := d\<rparr>
       \<and> sect d = after_sector (dk_ops (vdisk s) ! i) (b_data bf) (sect (vdev s))
       \<and> seen d = seen (vdev s) + 1)"

text \<open>
  The contract of a block device with \<open>capacity\<close> sectors. Of its state, \<open>sect\<close> gives the contents
  of the medium, \<open>seen\<close> how far it has read the avail ring, and \<open>delay\<close> bounds how often the driver can
  still find a request unfinished.
  The registers that the driver uses with a request keep the medium; a device that has seen all
  requests leaves the memory alone; one with a request to serve that lies on the medium lets time
  pass or serves it.
\<close>

definition keeps_medium :: "('d \<Rightarrow> u64 \<Rightarrow> u8 list) \<Rightarrow> ('d \<Rightarrow> u16) \<Rightarrow> ('d \<Rightarrow> nat) \<Rightarrow> 'd \<Rightarrow> 'd \<Rightarrow> bool" where
  "keeps_medium sect seen delay d d' \<longleftrightarrow> sect d' = sect d \<and> seen d' = seen d \<and> delay d' \<le> delay d"

definition block_device :: "u64 \<Rightarrow> u64 \<Rightarrow> 'd device \<Rightarrow> ('d \<Rightarrow> u64 \<Rightarrow> u8 list) \<Rightarrow> ('d \<Rightarrow> u16) \<Rightarrow> ('d \<Rightarrow> nat) \<Rightarrow> bool" where
  "block_device base capacity dev sect seen delay \<longleftrightarrow>
    (\<forall>d n. length (sect d n) = BSIZE)
    \<and> (\<forall>d. keeps_medium sect seen delay d (snd (dev_read dev VIRTIO_MMIO_INTERRUPT_STATUS d)))
    \<and> (\<forall>d v. keeps_medium sect seen delay d (dev_write dev VIRTIO_MMIO_INTERRUPT_ACK v d))
    \<and> (\<forall>d. sect (dev_write dev VIRTIO_MMIO_QUEUE_NOTIFY 0 d) = sect d
         \<and> seen (dev_write dev VIRTIO_MMIO_QUEUE_NOTIFY 0 d) = seen d)
    \<and> (\<forall>s. seen (vdev s) = av_idx (dk_avail (vdisk s)) \<longrightarrow>
         (\<exists>d. dev_run dev s = s\<lparr>vdev := d\<rparr> \<and> sect d = sect (vdev s) \<and> seen d = seen (vdev s)))
    \<and> (\<forall>s i b j bf. seen (vdev s) \<noteq> av_idx (dk_avail (vdisk s))
         \<and> describes base (vdisk s) (avail_head (seen (vdev s)) (vdisk s)) i b j
         \<and> rq_sector (dk_ops (vdisk s) ! i) < capacity \<and> vbufs s b = Some bf \<and> length (b_data bf) = BSIZE \<longrightarrow>
         (\<exists>d. dev_run dev s = s\<lparr>vdev := d\<rparr> \<and> sect d = sect (vdev s) \<and> seen d = seen (vdev s)
            \<and> delay d < delay (vdev s))
         \<or> serves sect seen (avail_head (seen (vdev s)) (vdisk s)) i b j bf s (dev_run dev s))"

section \<open>A request\<close>

definition disk_wf :: "disk \<Rightarrow> bool" where
  "disk_wf dk \<longleftrightarrow> length (dk_desc dk) = VNUM \<and> length (dk_free dk) = VNUM \<and> length (dk_info dk) = VNUM
    \<and> length (dk_ops dk) = VNUM \<and> length (av_ring (dk_avail dk)) = VNUM \<and> length (us_ring (dk_used dk)) = VNUM
    \<and> dk_mapped dk"

text \<open>No request is under way: the device has seen all of them and the driver all answers.\<close>

definition ready :: "('d \<Rightarrow> u16) \<Rightarrow> 'd vio \<Rightarrow> bool" where
  "ready seen s \<longleftrightarrow> disk_wf (vdisk s) \<and> dk_used_idx (vdisk s) = us_idx (dk_used (vdisk s))
    \<and> seen (vdev s) = av_idx (dk_avail (vdisk s)) \<and> 3 \<le> length (free_list (vdisk s))"

definition in_flight :: "u64 \<Rightarrow> ('d \<Rightarrow> u16) \<Rightarrow> nat \<Rightarrow> u64 \<Rightarrow> buf \<Rightarrow> 'd vio \<Rightarrow> bool" where
  "in_flight base seen h b bf s \<longleftrightarrow> disk_wf (vdisk s) \<and> dk_used_idx (vdisk s) = us_idx (dk_used (vdisk s))
    \<and> av_idx (dk_avail (vdisk s)) = seen (vdev s) + 1 \<and> avail_head (seen (vdev s)) (vdisk s) = h
    \<and> describes base (vdisk s) h h b h \<and> in_b (dk_info (vdisk s) ! h) = b
    \<and> vbufs s b = Some bf \<and> length (b_data bf) = BSIZE \<and> b_disk bf = 1"

lemma ring_index: "unat (x mod of_nat VNUM) < VNUM" for x :: u16
  by (simp add: VNUM_def unat_mod)

lemma unat_index: "i < VNUM \<Longrightarrow> unat (of_nat i :: u16) = i" "i < VNUM \<Longrightarrow> unat (of_nat i :: u32) = i"
  by (simp_all add: VNUM_def unat_of_nat take_bit_nat_eq_self)

lemma block_deviceD:
  assumes "block_device base capacity dev sect seen delay"
  shows "length (sect d n) = BSIZE"
    "keeps_medium sect seen delay d (snd (dev_read dev VIRTIO_MMIO_INTERRUPT_STATUS d))"
    "keeps_medium sect seen delay d (dev_write dev VIRTIO_MMIO_INTERRUPT_ACK v d)"
    "sect (dev_write dev VIRTIO_MMIO_QUEUE_NOTIFY 0 d) = sect d"
    "seen (dev_write dev VIRTIO_MMIO_QUEUE_NOTIFY 0 d) = seen d"
    "seen (vdev s) = av_idx (dk_avail (vdisk s)) \<Longrightarrow>
      \<exists>d. dev_run dev s = s\<lparr>vdev := d\<rparr> \<and> sect d = sect (vdev s) \<and> seen d = seen (vdev s)"
  using assms by (simp_all add: block_device_def)

lemma block_device_serves:
  assumes "block_device base capacity dev sect seen delay"
    and "in_flight base seen h b bf s" "rq_sector (dk_ops (vdisk s) ! h) < capacity"
  shows "(\<exists>d. dev_run dev s = s\<lparr>vdev := d\<rparr> \<and> sect d = sect (vdev s) \<and> seen d = seen (vdev s)
         \<and> delay d < delay (vdev s))
      \<or> serves sect seen h h b h bf s (dev_run dev s)"
proof -
  have "seen (vdev s) \<noteq> av_idx (dk_avail (vdisk s))
         \<and> describes base (vdisk s) (avail_head (seen (vdev s)) (vdisk s)) h b h
         \<and> rq_sector (dk_ops (vdisk s) ! h) < capacity \<and> vbufs s b = Some bf \<and> length (b_data bf) = BSIZE"
    and h: "avail_head (seen (vdev s)) (vdisk s) = h"
    using assms(2,3) by (simp_all add: in_flight_def)
  with assms(1) [unfolded block_device_def] h show ?thesis by blast
qed

text \<open>The state after the device has served the request and the driver has seen the answer.\<close>

definition answered :: "nat \<Rightarrow> u64 \<Rightarrow> buf \<Rightarrow> u8 list \<Rightarrow> u32 \<Rightarrow> 'd \<Rightarrow> 'd vio \<Rightarrow> 'd vio" where
  "answered h b bf bytes len d s = (let s' = (completed h b h bf bytes len s)\<lparr>vdev := d\<rparr>
     in s'\<lparr>vbufs := (vbufs s')(b \<mapsto> bf\<lparr>b_data := bytes, b_disk := 0\<rparr>),
       vdisk := (vdisk s')\<lparr>dk_used_idx := dk_used_idx (vdisk s') + 1\<rparr>\<rparr>)"

lemma answered_vdev: "(answered h b bf bytes len d s)\<lparr>vdev := d'\<rparr> = answered h b bf bytes len d' s"
  by (rule vio.equality) (simp_all add: answered_def Let_def)

lemmas completion_defs = completed_def set_info_status_def set_info_b_def Let_def

lemma intr_loop_idle:
  assumes "dev_run dev s = s'" "dk_mapped (vdisk s')" "dk_used_idx (vdisk s') = us_idx (dk_used (vdisk s'))"
  shows "intr_loop dev p s = Some s'"
  using assms by (subst intr_loop.simps) simp

text \<open>One round of the loop when the device has just served the request, and one when it has not.\<close>

lemma intr_loop_served:
  assumes dev: "block_device base capacity dev sect seen delay" and "in_flight base seen h b bf s"
    and run: "dev_run dev s = (completed h b h bf bytes len s)\<lparr>vdev := d\<rparr>" and "seen d = seen (vdev s) + 1"
  shows "\<exists>d'. intr_loop dev p s = Some (answered h b bf bytes len d' s) \<and> sect d' = sect d \<and> seen d' = seen d"
proof -
  let ?s = "answered h b bf bytes len d s"
  have wf: "disk_wf (vdisk s)" and u: "dk_used_idx (vdisk s) = us_idx (dk_used (vdisk s))"
    and b: "in_b (dk_info (vdisk s) ! h) = b" and h: "h < VNUM"
    and av: "av_idx (dk_avail (vdisk s)) = seen (vdev s) + 1"
    using assms(2) by (simp_all add: in_flight_def describes_def Let_def)
  have "seen (vdev ?s) = av_idx (dk_avail (vdisk ?s))"
    using assms(4) av by (simp add: answered_def completion_defs)
  from block_deviceD(6) [OF dev this] obtain d' where
    d': "dev_run dev ?s = ?s\<lparr>vdev := d'\<rparr>" "sect d' = sect d" "seen d' = seen d"
    by (auto simp: answered_def Let_def)
  have last: "intr_loop dev p ?s = Some (?s\<lparr>vdev := d'\<rparr>)"
    by (rule intr_loop_idle [OF d'(1)]) (use wf u in \<open>simp_all add: answered_def completion_defs disk_wf_def\<close>)
  have "intr_loop dev p s = intr_loop dev p ?s"
    using wf u b h ring_index [of "us_idx (dk_used (vdisk s))"]
    by (subst intr_loop.simps) (simp add: run answered_def completion_defs disk_wf_def unat_index)
  with last d'(2,3) show ?thesis by (auto simp: answered_vdev)
qed

lemma intr_loop_waits:
  assumes "in_flight base seen h b bf s" "dev_run dev s = s\<lparr>vdev := d\<rparr>"
  shows "intr_loop dev p s = Some (s\<lparr>vdev := d\<rparr>)"
  by (rule intr_loop_idle [OF assms(2)]) (use assms(1) in \<open>simp_all add: in_flight_def disk_wf_def\<close>)

lemma in_flight_vdev:
  assumes "in_flight base seen h b bf s" "seen d = seen (vdev s)"
  shows "in_flight base seen h b bf (s\<lparr>vdev := d\<rparr>)"
  using assms by (simp add: in_flight_def)

lemma answered_from_vdev: "answered h b bf bytes len d (s\<lparr>vdev := d'\<rparr>) = answered h b bf bytes len d s"
  by (rule vio.equality) (simp_all add: answered_def completion_defs)

text \<open>A call of \<open>virtio_disk_intr\<close> while the request is under way.\<close>

lemma virtio_disk_intr_in_flight:
  assumes dev: "block_device base capacity dev sect seen delay" and fl: "in_flight base seen h b bf s"
    and cap: "rq_sector (dk_ops (vdisk s) ! h) < capacity"
  shows "(\<exists>d. virtio_disk_intr dev p s = Some (s\<lparr>vdev := d\<rparr>) \<and> sect d = sect (vdev s)
      \<and> seen d = seen (vdev s) \<and> delay d < delay (vdev s))
    \<or> (\<exists>d len. virtio_disk_intr dev p s
          = Some (answered h b bf (sector_data (dk_ops (vdisk s) ! h) (b_data bf) (sect (vdev s))) len d s)
        \<and> sect d = after_sector (dk_ops (vdisk s) ! h) (b_data bf) (sect (vdev s)) \<and> seen d = seen (vdev s) + 1)"
proof -
  obtain v d1 where r: "dev_read dev VIRTIO_MMIO_INTERRUPT_STATUS (vdev s) = (v, d1)" by fastforce
  define d2 where "d2 = dev_write dev VIRTIO_MMIO_INTERRUPT_ACK (v AND 0x3) d1"
  have k: "sect d2 = sect (vdev s)" "seen d2 = seen (vdev s)" "delay d2 \<le> delay (vdev s)"
    using block_deviceD(2) [OF dev, of "vdev s"] block_deviceD(3) [OF dev, of d1 "v AND 0x3"] r
    by (auto simp: keeps_medium_def d2_def)
  have i: "virtio_disk_intr dev p s = intr_loop dev p (s\<lparr>vdev := d2\<rparr>)"
    by (simp add: virtio_disk_intr_def read_reg_def write_reg_def r d2_def)
  have fl2: "in_flight base seen h b bf (s\<lparr>vdev := d2\<rparr>)" using in_flight_vdev [OF fl k(2)] .
  have "rq_sector (dk_ops (vdisk (s\<lparr>vdev := d2\<rparr>)) ! h) < capacity" using cap by simp
  from block_device_serves [OF dev fl2 this] show ?thesis
  proof (elim disjE exE conjE)
    fix d assume d: "dev_run dev (s\<lparr>vdev := d2\<rparr>) = s\<lparr>vdev := d2, vdev := d\<rparr>" "sect d = sect (vdev (s\<lparr>vdev := d2\<rparr>))"
      "seen d = seen (vdev (s\<lparr>vdev := d2\<rparr>))" "delay d < delay (vdev (s\<lparr>vdev := d2\<rparr>))"
    from intr_loop_waits [OF fl2 d(1), of p] d(2-4) k i show ?thesis by auto
  next
    assume "serves sect seen h h b h bf (s\<lparr>vdev := d2\<rparr>) (dev_run dev (s\<lparr>vdev := d2\<rparr>))"
    then obtain d len where d: "dev_run dev (s\<lparr>vdev := d2\<rparr>) = (completed h b h bf (sector_data (dk_ops (vdisk s) ! h)
        (b_data bf) (sect (vdev s))) len (s\<lparr>vdev := d2\<rparr>))\<lparr>vdev := d\<rparr>"
      "sect d = after_sector (dk_ops (vdisk s) ! h) (b_data bf) (sect (vdev s))" "seen d = seen (vdev s) + 1"
      by (auto simp: serves_def k)
    from intr_loop_served [OF dev fl2 d(1), of p] d(2,3) k i show ?thesis
      by (auto simp: answered_from_vdev)
  qed
qed

lemma wait_done_in_flight:
  assumes dev: "block_device base capacity dev sect seen delay" and "in_flight base seen h b bf s"
    and "rq_sector (dk_ops (vdisk s) ! h) < capacity"
  shows "\<exists>d len. wait_done dev p b s
        = Some (answered h b bf (sector_data (dk_ops (vdisk s) ! h) (b_data bf) (sect (vdev s))) len d s)
      \<and> sect d = after_sector (dk_ops (vdisk s) ! h) (b_data bf) (sect (vdev s)) \<and> seen d = seen (vdev s) + 1"
  using assms(2,3)
proof (induction "delay (vdev s)" arbitrary: s rule: less_induct)
  case less
  have bf: "vbufs s b = Some bf" "b_disk bf = 1" using less.prems by (simp_all add: in_flight_def)
  have fin: "wait_done dev p b (answered h b bf bytes len d s) = Some (answered h b bf bytes len d s)" for bytes len d
    by (subst wait_done.simps) (simp add: answered_def Let_def)
  from virtio_disk_intr_in_flight [OF dev less.prems, of p] show ?case
  proof (elim disjE exE conjE)
    fix d assume d: "virtio_disk_intr dev p s = Some (s\<lparr>vdev := d\<rparr>)" "sect d = sect (vdev s)"
      "seen d = seen (vdev s)" "delay d < delay (vdev s)"
    have "in_flight base seen h b bf (s\<lparr>vdev := d\<rparr>)" using in_flight_vdev [OF less.prems(1) d(3)] .
    with less.hyps [of "s\<lparr>vdev := d\<rparr>"] d less.prems(2) show ?thesis
      by (subst wait_done.simps) (simp add: bf answered_from_vdev)
  next
    fix d len
    assume "virtio_disk_intr dev p s
        = Some (answered h b bf (sector_data (dk_ops (vdisk s) ! h) (b_data bf) (sect (vdev s))) len d s)"
      "sect d = after_sector (dk_ops (vdisk s) ! h) (b_data bf) (sect (vdev s))" "seen d = seen (vdev s) + 1"
    then show ?thesis by (subst wait_done.simps) (auto simp: bf fin)
  qed
qed

text \<open>The chain of a request is freed from its head.\<close>

lemma free_chain_end:
  assumes "i < VNUM" "dk_mapped (vdisk s)" "\<not> dk_free (vdisk s) ! i"
    and "d_flags (dk_desc (vdisk s) ! i) AND VRING_DESC_F_NEXT = 0"
  shows "free_chain p (int i) s = Some (release_descs [i] s)"
  using assms by (subst free_chain.simps) (simp add: free_desc_taken)

lemma free_chain_next:
  assumes "i < VNUM" "dk_mapped (vdisk s)" "\<not> dk_free (vdisk s) ! i"
    and "d_flags (dk_desc (vdisk s) ! i) AND VRING_DESC_F_NEXT \<noteq> 0" "d_next (dk_desc (vdisk s) ! i) = of_nat j" "j < VNUM"
  shows "free_chain p (int i) s = free_chain p (int j) (release_descs [i] s)"
proof -
  have "uint (of_nat j :: u16) = int j" using unat_index(1) [OF assms(6)] by (metis uint_nat)
  then show ?thesis using assms by (subst free_chain.simps) (simp add: free_desc_taken)
qed

text \<open>The state in which the driver starts to wait.\<close>

definition submitted :: "'d device \<Rightarrow> u64 \<Rightarrow> u64 \<Rightarrow> bool \<Rightarrow> buf \<Rightarrow> nat \<Rightarrow> nat \<Rightarrow> nat \<Rightarrow> 'd vio \<Rightarrow> 'd vio" where
  "submitted dev base b write bf i0 i1 i2 s =
    s\<lparr>vbufs := (vbufs s)(b \<mapsto> bf\<lparr>b_disk := 1\<rparr>),
      vdisk := submit_request i0 (format_request base b write (ucast (b_blockno bf)) i0 i1 i2
        ((vdisk s)\<lparr>dk_free := (dk_free (vdisk s))[i0 := False, i1 := False, i2 := False]\<rparr>)),
      vdev := dev_write dev VIRTIO_MMIO_QUEUE_NOTIFY 0 (vdev s)\<rparr>"

lemmas request_defs = format_request_def submit_request_def set_op_def set_desc_def set_info_status_def
  set_info_b_def Let_def

lemma submitted_in_flight:
  assumes dev: "block_device base capacity dev sect seen delay" and r: "ready seen s"
    and "length (b_data bf) = BSIZE" and "distinct [i0, i1, i2]" "i0 < VNUM" "i1 < VNUM" "i2 < VNUM"
  shows "in_flight base seen i0 b (bf\<lparr>b_disk := 1\<rparr>) (submitted dev base b write bf i0 i1 i2 s)"
proof -
  let ?dk = "vdisk (submitted dev base b write bf i0 i1 i2 s)"
  have sn: "seen (vdev (submitted dev base b write bf i0 i1 i2 s)) = seen (vdev s)"
    by (simp add: submitted_def block_deviceD(5) [OF dev])
  have wf: "disk_wf (vdisk s)" using r by (simp add: ready_def)
  have "describes base ?dk i0 i0 b i0"
    using assms(4-7) wf by (simp add: describes_def submitted_def request_defs disk_wf_def unat_index
        VIRTIO_BLK_T_IN_def VIRTIO_BLK_T_OUT_def)
  moreover have "avail_head (seen (vdev s)) ?dk = i0"
    using r wf ring_index [of "av_idx (dk_avail (vdisk s))"] assms(5)
    by (simp add: avail_head_def submitted_def request_defs disk_wf_def unat_index ready_def)
  moreover have "disk_wf ?dk" "dk_used_idx ?dk = us_idx (dk_used ?dk)" "av_idx (dk_avail ?dk) = seen (vdev s) + 1"
    "in_b (dk_info ?dk ! i0) = b"
    using r wf assms(5) by (simp_all add: submitted_def request_defs disk_wf_def ready_def)
  ultimately show ?thesis using sn assms(3) by (simp add: in_flight_def) (simp add: submitted_def)
qed

definition chained :: "nat \<Rightarrow> nat \<Rightarrow> nat \<Rightarrow> disk \<Rightarrow> bool" where
  "chained i0 i1 i2 dk \<longleftrightarrow> distinct [i0, i1, i2] \<and> i0 < VNUM \<and> i1 < VNUM \<and> i2 < VNUM \<and> disk_wf dk
    \<and> \<not> dk_free dk ! i0 \<and> \<not> dk_free dk ! i1 \<and> \<not> dk_free dk ! i2
    \<and> d_flags (dk_desc dk ! i0) AND VRING_DESC_F_NEXT \<noteq> 0 \<and> d_next (dk_desc dk ! i0) = of_nat i1
    \<and> d_flags (dk_desc dk ! i1) AND VRING_DESC_F_NEXT \<noteq> 0 \<and> d_next (dk_desc dk ! i1) = of_nat i2
    \<and> d_flags (dk_desc dk ! i2) AND VRING_DESC_F_NEXT = 0"

lemma free_chain_request:
  assumes "chained i0 i1 i2 (vdisk t)"
  shows "free_chain p (int i0) t = Some (release_descs [i0, i1, i2] t)"
proof -
  note c = assms [unfolded chained_def]
  have "free_chain p (int i0) t = free_chain p (int i1) (release_descs [i0] t)"
    by (rule free_chain_next) (use c in \<open>simp_all add: disk_wf_def\<close>)
  also have "\<dots> = free_chain p (int i2) (release_descs [i1] (release_descs [i0] t))"
    by (rule free_chain_next) (use c in \<open>simp_all add: disk_wf_def release_descs_def\<close>)
  also have "\<dots> = Some (release_descs [i2] (release_descs [i1] (release_descs [i0] t)))"
    by (rule free_chain_end) (use c in \<open>simp_all add: disk_wf_def release_descs_def\<close>)
  finally show ?thesis by (simp add: release_descs_def)
qed

lemma submitted_chained:
  assumes "disk_wf (vdisk s)" "distinct [i0, i1, i2]" "i0 < VNUM" "i1 < VNUM" "i2 < VNUM"
  shows "chained i0 i1 i2 (set_info_b i0 0 (vdisk (answered i0 b bf' bytes len d (submitted dev base b write bf i0 i1 i2 s))))"
  using assms by (simp add: chained_def answered_def completed_def submitted_def request_defs disk_wf_def virtio_flags)

lemma update_false_true:
  assumes "fr ! i0" "fr ! i1" "fr ! i2"
  shows "fr[i0 := False, i1 := False, i2 := False, i0 := True, i1 := True, i2 := True] = fr"
proof (rule nth_equalityI)
  fix k assume "k < length (fr[i0 := False, i1 := False, i2 := False, i0 := True, i1 := True, i2 := True])"
  then show "fr[i0 := False, i1 := False, i2 := False, i0 := True, i1 := True, i2 := True] ! k = fr ! k"
    using assms by (cases "k = i0"; cases "k = i1"; cases "k = i2") simp_all
qed simp

text \<open>What a request leaves: the driver as it was, the buffer and the medium after the transfer.\<close>

definition transferred :: "('d \<Rightarrow> u64 \<Rightarrow> u8 list) \<Rightarrow> u64 \<Rightarrow> bool \<Rightarrow> buf \<Rightarrow> 'd vio \<Rightarrow> 'd vio \<Rightarrow> bool" where
  "transferred sect b write bf s s' \<longleftrightarrow>
    vbufs s' = (vbufs s)(b \<mapsto> bf\<lparr>
      b_data := (if write then b_data bf else sect (vdev s) (ucast (b_blockno bf))), b_disk := 0\<rparr>)
    \<and> sect (vdev s') = (if write then (sect (vdev s))(ucast (b_blockno bf) := b_data bf) else sect (vdev s))
    \<and> dk_free (vdisk s') = dk_free (vdisk s) \<and> dk_initialised (vdisk s') = dk_initialised (vdisk s)
    \<and> av_idx (dk_avail (vdisk s')) = av_idx (dk_avail (vdisk s)) + 1 \<and> vport s' = vport s"

lemma alloc3_wait_ok:
  assumes "length (dk_free (vdisk s)) = VNUM" "free_list (vdisk s) = i0 # i1 # i2 # js"
  shows "alloc3_wait p s = Some ([int i0, int i1, int i2], take_descs [i0, i1, i2] s)"
  by (subst alloc3_wait.simps) (simp add: alloc3_desc_ok [OF assms])

text \<open>The bytes in the buffer after a request, and the state in which it returns.\<close>

definition moved_bytes :: "('d \<Rightarrow> u64 \<Rightarrow> u8 list) \<Rightarrow> bool \<Rightarrow> buf \<Rightarrow> 'd vio \<Rightarrow> u8 list" where
  "moved_bytes sect write bf s = (if write then b_data bf else sect (vdev s) (ucast (b_blockno bf)))"

definition finished :: "'d device \<Rightarrow> u64 \<Rightarrow> u64 \<Rightarrow> bool \<Rightarrow> buf \<Rightarrow> nat \<Rightarrow> nat \<Rightarrow> nat \<Rightarrow> u8 list \<Rightarrow> u32 \<Rightarrow> 'd \<Rightarrow> 'd vio \<Rightarrow> 'd vio" where
  "finished dev base b write bf i0 i1 i2 bytes len d s =
    (let a = answered i0 b (bf\<lparr>b_disk := 1\<rparr>) bytes len d (submitted dev base b write bf i0 i1 i2 s)
     in release_descs [i0, i1, i2] (a\<lparr>vdisk := set_info_b i0 0 (vdisk a)\<rparr>))"

lemmas finished_defs = finished_def release_descs_def answered_def completed_def submitted_def request_defs

text \<open>The device serves the request that the driver has submitted.\<close>

lemma submitted_served:
  assumes dev: "block_device base capacity dev sect seen delay" and r: "ready seen s"
    and "length (b_data bf) = BSIZE" "ucast (b_blockno bf) < capacity" and i: "distinct [i0, i1, i2]" "i0 < VNUM" "i1 < VNUM" "i2 < VNUM"
  shows "\<exists>e len. wait_done dev p b (submitted dev base b write bf i0 i1 i2 s)
      = Some (answered i0 b (bf\<lparr>b_disk := 1\<rparr>) (moved_bytes sect write bf s) len e (submitted dev base b write bf i0 i1 i2 s))
    \<and> sect e = (if write then (sect (vdev s))(ucast (b_blockno bf) := b_data bf) else sect (vdev s))
    \<and> seen e = seen (vdev s) + 1"
proof -
  let ?s = "submitted dev base b write bf i0 i1 i2 s"
  have q: "dk_ops (vdisk ?s) ! i0 = \<lparr>rq_type = (if write then VIRTIO_BLK_T_OUT else VIRTIO_BLK_T_IN),
      rq_reserved = 0, rq_sector = ucast (b_blockno bf)\<rparr>"
    using r i(2) by (simp add: submitted_def request_defs disk_wf_def ready_def)
  have "sect (vdev ?s) = sect (vdev s)" "seen (vdev ?s) = seen (vdev s)"
    by (simp_all add: submitted_def block_deviceD(4,5) [OF dev])
  moreover have "in_flight base seen i0 b (bf\<lparr>b_disk := 1\<rparr>) ?s" by (rule submitted_in_flight [OF dev r assms(3) i])
  ultimately show ?thesis using wait_done_in_flight [OF dev, of i0 b "bf\<lparr>b_disk := 1\<rparr>" ?s p] assms(4) q
    by (cases "write") (simp_all add: sector_data_def after_sector_def moved_bytes_def VIRTIO_BLK_T_IN_def VIRTIO_BLK_T_OUT_def)
qed

lemma virtio_disk_rw_finished:
  assumes "disk_wf (vdisk s)" "vbufs s b = Some bf" and l: "free_list (vdisk s) = i0 # i1 # i2 # js"
    and i: "distinct [i0, i1, i2]" "i0 < VNUM" "i1 < VNUM" "i2 < VNUM"
    and w: "wait_done dev p b (submitted dev base b write bf i0 i1 i2 s)
      = Some (answered i0 b (bf\<lparr>b_disk := 1\<rparr>) bytes len e (submitted dev base b write bf i0 i1 i2 s))"
  shows "virtio_disk_rw dev base p b write s = Some (finished dev base b write bf i0 i1 i2 bytes len e s)"
proof -
  define a where "a = answered i0 b (bf\<lparr>b_disk := 1\<rparr>) bytes len e (submitted dev base b write bf i0 i1 i2 s)"
  note ch = submitted_chained [OF assms(1) i]
  have "free_chain p (int i0) (a\<lparr>vdisk := set_info_b i0 0 (vdisk a)\<rparr>)
      = Some (release_descs [i0, i1, i2] (a\<lparr>vdisk := set_info_b i0 0 (vdisk a)\<rparr>))"
    unfolding a_def by (rule free_chain_request) (simp add: ch)
  with w [folded a_def, unfolded submitted_def] assms(1) alloc3_wait_ok [OF _ l, of p] show ?thesis
    by (simp add: virtio_disk_rw_def assms(2) disk_wf_def take_descs_def BSIZE_def write_reg_def finished_def a_def Let_def)
qed

lemma request_done:
  assumes dev: "block_device base capacity dev sect seen delay" and r: "ready seen s"
    and bf: "vbufs s b = Some bf" "length (b_data bf) = BSIZE" and cap: "ucast (b_blockno bf) < capacity"
  shows "\<exists>s'. virtio_disk_rw dev base p b write s = Some s' \<and> ready seen s' \<and> transferred sect b write bf s s'"
proof -
  have wf: "disk_wf (vdisk s)" using r by (simp add: ready_def)
  obtain i0 i1 i2 js where l: "free_list (vdisk s) = i0 # i1 # i2 # js"
    using r by (auto simp: ready_def numeral_3_eq_3 Suc_le_length_iff)
  have i: "distinct [i0, i1, i2]" "i0 < VNUM" "i1 < VNUM" "i2 < VNUM"
    and f: "dk_free (vdisk s) ! i0" "dk_free (vdisk s) ! i1" "dk_free (vdisk s) ! i2"
    using distinct_free_list [of "vdisk s"] l free_listD [OF l, of i0] free_listD [OF l, of i1] free_listD [OF l, of i2]
    by simp_all
  obtain e len where w: "wait_done dev p b (submitted dev base b write bf i0 i1 i2 s)
      = Some (answered i0 b (bf\<lparr>b_disk := 1\<rparr>) (moved_bytes sect write bf s) len e (submitted dev base b write bf i0 i1 i2 s))"
    "sect e = (if write then (sect (vdev s))(ucast (b_blockno bf) := b_data bf) else sect (vdev s))"
    "seen e = seen (vdev s) + 1"
    using submitted_served [OF dev r bf(2) cap i] by blast
  let ?t = "finished dev base b write bf i0 i1 i2 (moved_bytes sect write bf s) len e s"
  have fr: "dk_free (vdisk ?t) = dk_free (vdisk s)" using update_false_true [OF f] by (simp add: finished_defs)
  then have "free_list (vdisk ?t) = free_list (vdisk s)" by (simp add: free_list_def)
  then have "ready seen ?t" using r w(3) by (simp add: ready_def finished_defs disk_wf_def)
  moreover have "transferred sect b write bf s ?t"
    using fr w(2) unfolding transferred_def by (simp add: finished_defs moved_bytes_def)
  ultimately show ?thesis using virtio_disk_rw_finished [OF wf bf(1) l i w(1)] by blast
qed

section \<open>The disk functions\<close>

text \<open>What one round of the loops of \<open>disk_read\<close> and \<open>disk_write\<close> relies on and keeps.\<close>

definition usable :: "('d \<Rightarrow> u16) \<Rightarrow> u64 set \<Rightarrow> 'd vio \<Rightarrow> bool" where
  "usable seen B s \<longleftrightarrow> ready seen s \<and> dk_initialised (vdisk s) \<and> B \<subseteq> dom (vbufs s)"

lemma block_transfer:
  assumes "block_device base capacity dev sect seen delay" "usable seen B s" and bp: "bp \<in> B"
    and "length bytes = BSIZE" "ucast sector < capacity"
  shows "\<exists>s1 s2 bf. start_block bp sector bytes s = Some s1 \<and> virtio_disk_rw dev base p bp write s1 = Some s2
    \<and> usable seen B s2 \<and> vbufs s2 bp = Some bf \<and> b_data bf = (if write then bytes else sect (vdev s) (ucast sector))
    \<and> sect (vdev s2) = (if write then (sect (vdev s))(ucast sector := bytes) else sect (vdev s))"
proof -
  obtain bf0 where bf0: "vbufs s bp = Some bf0" using assms(2,3) by (auto simp: usable_def)
  let ?bf = "bf0\<lparr>b_blockno := sector, b_data := bytes\<rparr>"
  let ?s = "s\<lparr>vbufs := (vbufs s)(bp \<mapsto> ?bf)\<rparr>"
  have "ready seen ?s" using assms(2) by (simp add: usable_def ready_def)
  from request_done [OF assms(1) this, of bp ?bf p "write"] assms(4,5) obtain s2 where
    s2: "virtio_disk_rw dev base p bp write ?s = Some s2" "ready seen s2" "transferred sect bp write ?bf ?s s2"
    by auto
  have "start_block bp sector bytes s = Some ?s" by (simp add: start_block_def bf0)
  moreover have "usable seen B s2" using s2(2,3) assms(2) by (auto simp: usable_def transferred_def)
  ultimately show ?thesis using s2(1,3) by (auto simp: transferred_def)
qed

lemma read_loop_ok:
  assumes dev: "block_device base capacity dev sect seen delay" and cap: "ucast sector < capacity"
    and bp: "bp \<in> B" and "usable seen B s" "unat count = Suc n" "off + 512 * Suc n \<le> length buff"
  shows "\<exists>s'. read_loop dev base p bp sector off count buff s
      = Some (take off buff @ concat (replicate (Suc n) (sect (vdev s) (ucast sector))) @ drop (off + 512 * Suc n) buff, s')
    \<and> usable seen B s' \<and> sect (vdev s') = sect (vdev s)"
  using assms(4-6)
proof (induction n arbitrary: s count off buff)
  case (0 s count off buff)
  have "count = 1" using 0(2) by (metis unat_1 unsigned_word_eqI One_nat_def)
  moreover obtain s1 s2 bf where "start_block bp sector (replicate BSIZE 0) s = Some s1"
    "virtio_disk_rw dev base p bp False s1 = Some s2" "usable seen B s2" "vbufs s2 bp = Some bf"
    "b_data bf = sect (vdev s) (ucast sector)" "sect (vdev s2) = sect (vdev s)"
    using block_transfer [OF dev 0(1) bp length_replicate cap, of 0 p False] by auto
  ultimately show ?case using 0(3) by (subst read_loop.simps) simp
next
  case (Suc n s count off buff)
  have c: "count - 1 \<noteq> 0" "unat (count - 1) = Suc n"
    using Suc.prems(2) by (auto simp: unat_minus_one unat_eq_0 [symmetric])
  obtain s1 s2 bf where t: "start_block bp sector (replicate BSIZE 0) s = Some s1"
    "virtio_disk_rw dev base p bp False s1 = Some s2" "usable seen B s2" "vbufs s2 bp = Some bf"
    "b_data bf = sect (vdev s) (ucast sector)" "sect (vdev s2) = sect (vdev s)"
    using block_transfer [OF dev Suc.prems(1) bp length_replicate cap, of 0 p False] by auto
  let ?buff = "take off buff @ sect (vdev s) (ucast sector) @ drop (off + 512) buff"
  have l: "length (sect (vdev s) (ucast sector)) = 512" using block_deviceD(1) [OF dev] by (simp add: BSIZE_def)
  have "off + 512 + 512 * Suc n \<le> length ?buff" using Suc.prems(3) l by simp
  from Suc.IH [OF t(3) c(2) this] c(1) t Suc.prems(3) show ?case
    by (subst read_loop.simps) (simp add: l ac_simps)
qed

lemma write_loop_ok:
  assumes dev: "block_device base capacity dev sect seen delay" and cap: "ucast sector < capacity"
    and bp: "bp \<in> B" and "usable seen B s" "unat count = Suc n" "off + 512 * Suc n \<le> length buff"
  shows "\<exists>s'. write_loop dev base p bp buff sector off count s = Some s' \<and> usable seen B s'
    \<and> sect (vdev s') = (sect (vdev s))(ucast sector := take 512 (drop (off + 512 * n) buff))"
  using assms(4-6)
proof (induction n arbitrary: s count off)
  case (0 s count off)
  have "count = 1" using 0(2) by (metis unat_1 unsigned_word_eqI One_nat_def)
  moreover have "length (take 512 (drop off buff)) = BSIZE" using 0(3) by (simp add: BSIZE_def)
  from block_transfer [OF dev 0(1) bp this cap, of p True] obtain s1 s2 where
    "start_block bp sector (take 512 (drop off buff)) s = Some s1" "virtio_disk_rw dev base p bp True s1 = Some s2"
    "usable seen B s2" "sect (vdev s2) = (sect (vdev s))(ucast sector := take 512 (drop off buff))" by auto
  ultimately show ?case using 0(3) by (subst write_loop.simps) simp
next
  case (Suc n s count off)
  have c: "count - 1 \<noteq> 0" "unat (count - 1) = Suc n"
    using Suc.prems(2) by (auto simp: unat_minus_one unat_eq_0 [symmetric])
  have "length (take 512 (drop off buff)) = BSIZE" using Suc.prems(3) by (simp add: BSIZE_def)
  from block_transfer [OF dev Suc.prems(1) bp this cap, of p True] obtain s1 s2 where
    t: "start_block bp sector (take 512 (drop off buff)) s = Some s1" "virtio_disk_rw dev base p bp True s1 = Some s2"
    "usable seen B s2" "sect (vdev s2) = (sect (vdev s))(ucast sector := take 512 (drop off buff))" by auto
  have "off + 512 + 512 * Suc n \<le> length buff" using Suc.prems(3) by simp
  from Suc.IH [OF t(3) c(2) this] obtain s' where
    s': "write_loop dev base p bp buff sector (off + 512) (count - 1) s2 = Some s'" "usable seen B s'"
      "sect (vdev s') = (sect (vdev s2))(ucast sector := take 512 (drop (off + 512 + 512 * n) buff))" by blast
  have "write_loop dev base p bp buff sector off count s = Some s'"
    using s'(1) c(1) t(1,2) Suc.prems(3) by (subst write_loop.simps) simp
  moreover have "sect (vdev s') = (sect (vdev s))(ucast sector := take 512 (drop (off + 512 * Suc n) buff))"
    using s'(3) unfolding t(4) by (simp add: add.assoc fun_upd_upd)
  ultimately show ?case using s'(2) by blast
qed

lemma disk_status_ready: "usable seen B s \<Longrightarrow> disk_status DEV_VIRTIO s = 0"
  by (simp add: disk_status_def virtio_disk_status_def usable_def)

lemma disk_read_ok:
  assumes dev: "block_device base capacity dev sect seen delay" and cap: "ucast sector < capacity"
    and bp: "bp \<in> B" and u: "usable seen B s" and "0 < count" "512 * unat count \<le> length buff"
  shows "\<exists>s'. disk_read dev base p bp DEV_VIRTIO buff sector count s
      = Some ((RES_OK, concat (replicate (unat count) (sect (vdev s) (ucast sector))) @ drop (512 * unat count) buff), s')
    \<and> usable seen B s' \<and> sect (vdev s') = sect (vdev s)"
proof -
  obtain n where n: "unat count = Suc n" using assms(5) by (metis not0_implies_Suc unat_gt_0 word_gt_0 less_numeral_extra(3))
  with read_loop_ok [OF dev cap bp u n, of 0 buff p] assms(6) show ?thesis
    by (auto simp: disk_read_def disk_status_ready [OF u])
qed

lemma disk_write_ok:
  assumes dev: "block_device base capacity dev sect seen delay" and cap: "ucast sector < capacity"
    and bp: "bp \<in> B" and u: "usable seen B s" and "0 < count" "512 * unat count \<le> length buff"
  shows "\<exists>s'. disk_write dev base p bp DEV_VIRTIO buff sector count s = Some (RES_OK, s') \<and> usable seen B s'
    \<and> sect (vdev s') = (sect (vdev s))(ucast sector := take 512 (drop (512 * (unat count - 1)) buff))"
proof -
  obtain n where n: "unat count = Suc n" using assms(5) by (metis not0_implies_Suc unat_gt_0 word_gt_0 less_numeral_extra(3))
  with write_loop_ok [OF dev cap bp u n, of 0 buff p] assms(6) show ?thesis
    by (auto simp: disk_write_def disk_status_ready [OF u])
qed

section \<open>Initialisation\<close>

lemma vputs_returns:
  assumes "\<And>u c. uart_putc u c \<noteq> None"
  shows "\<exists>u. vputs uart_putc str s = Some (s\<lparr>vport := u\<rparr>)"
proof -
  have "\<exists>n u'. putstr_loop uart_putc u str i = Some (n, u')" for u i
  proof (induction str arbitrary: u i)
    case (Cons c str)
    with assms [of u c] show ?case by (auto simp: alt_putchar_def)
  qed simp
  then obtain n u where u: "putstr_loop uart_putc (vport s) str 0 = Some (n, u)" by blast
  obtain r u1 where "uart_putc u (CHR 0x0D) = Some (r, u1)" using assms [of u "CHR 0x0D"] by auto
  moreover obtain r' u2 where "uart_putc u1 (CHR 0x0A) = Some (r', u2)" using assms [of u1 "CHR 0x0A"] by auto
  ultimately show ?thesis using u by (auto simp: vputs_def alt_puts_def alt_putstr_def alt_putchar_def)
qed

lemma vputs_frame:
  assumes "\<And>u c. uart_putc u c \<noteq> None"
  shows "(\<exists>s'. vputs uart_putc str s = Some s' \<and> vbufs s' = B \<and> vdisk s' = D) \<longleftrightarrow> vbufs s = B \<and> vdisk s = D"
proof -
  obtain u where "vputs uart_putc str s = Some (s\<lparr>vport := u\<rparr>)" using vputs_returns [of uart_putc str s, OF assms] by blast
  then show ?thesis by simp
qed

lemma not_a_disk_vdev: "\<exists>v d. not_a_disk dev s = (v, s\<lparr>vdev := d\<rparr>)"
  by (auto simp: not_a_disk_def read_reg_def split: prod.split)

lemma virtio_handshake_vdev: "\<exists>d. \<forall>u. virtio_handshake dev (s\<lparr>vport := u\<rparr>) = s\<lparr>vport := u, vdev := d\<rparr>"
  by (simp add: virtio_handshake_def read_reg_def write_reg_def Let_def case_prod_beta) (intro exI allI, rule refl)

text \<open>What the driver finds in the register \<open>QUEUE_NUM_MAX\<close>.\<close>

definition queue_max :: "'d device \<Rightarrow> 'd vio \<Rightarrow> u32" where
  "queue_max dev s = fst (read_reg dev VIRTIO_MMIO_QUEUE_NUM_MAX (virtio_handshake dev (snd (not_a_disk dev s))))"

text \<open>The driver's variable after a successful initialisation; \<open>used_idx\<close>, \<open>info\<close> and \<open>ops\<close> keep their values.\<close>

definition initialised_disk :: "disk \<Rightarrow> disk" where
  "initialised_disk dk = (clear_pages dk)\<lparr>dk_mapped := True,
     dk_free := array_loop (\<lambda>i f. True) 0 VNUM (dk_free dk), dk_initialised := True\<rparr>"

lemma virtio_disk_init_result:
  assumes putc: "\<And>u c. p u c \<noteq> None"
  shows "\<exists>s'. virtio_disk_init dev base p s = Some s' \<and> vbufs s' = vbufs s
    \<and> vdisk s' = (if of_nat VNUM \<le> queue_max dev s then initialised_disk (vdisk s) else vdisk s)"
proof -
  obtain bad d1 where nd: "not_a_disk dev s = (bad, s\<lparr>vdev := d1\<rparr>)" using not_a_disk_vdev [of dev s] by blast
  let ?s = "s\<lparr>vdev := d1\<rparr>"
  obtain u where u: "(if bad then vputs p ''could not find virtio disk'' ?s else Some ?s) = Some (?s\<lparr>vport := u\<rparr>)"
  proof (cases bad)
    case False
    with that [of "vport s"] show ?thesis by simp
  qed (use vputs_returns [of p "''could not find virtio disk''" ?s, OF putc] in auto)
  obtain d2 where h: "\<And>u. virtio_handshake dev (?s\<lparr>vport := u\<rparr>) = ?s\<lparr>vport := u, vdev := d2\<rparr>"
    using virtio_handshake_vdev [of dev ?s] by blast
  obtain m d3 where m: "dev_read dev VIRTIO_MMIO_QUEUE_NUM_MAX d2 = (m, d3)" by fastforce
  have "virtio_handshake dev ?s = ?s\<lparr>vdev := d2\<rparr>" using h [of "vport s"] by simp
  then have q: "queue_max dev s = m" by (simp add: queue_max_def nd read_reg_def m)
  let ?t = "?s\<lparr>vport := u, vdev := d3\<rparr>"
  have i: "virtio_disk_init dev base p s = (if m = 0 then vputs p ''virtio disk has no queue 0'' ?t
      else if m < of_nat VNUM then vputs p ''virtio disk max queue too short'' ?t
      else do { let s = write_reg dev VIRTIO_MMIO_QUEUE_NUM (of_nat VNUM) ?t;
       let s = s\<lparr>vdisk := clear_pages (vdisk s)\<rparr>;
       let s = write_reg dev VIRTIO_MMIO_QUEUE_PFN (ucast (drop_bit PGSHIFT base)) s;
       let s = s\<lparr>vdisk := (vdisk s)\<lparr>dk_mapped := True,
         dk_free := array_loop (\<lambda>i f. True) 0 VNUM (dk_free (vdisk s)), dk_initialised := True\<rparr>\<rparr>;
       vputs p (''Disk Initialization completed'' @ [CHR 0x0A]) s })"
    using h by (simp add: virtio_disk_init_def nd u read_reg_def m)
  have "m = 0 \<Longrightarrow> \<not> of_nat VNUM \<le> m" by (simp add: VNUM_def)
  then show ?thesis
    by (auto simp: i q vputs_frame [of p, OF putc] write_reg_def initialised_disk_def clear_pages_def)
qed

text \<open>
  The first initialisation makes the driver ready when the device starts at the first entry of
  the ring. A later one does not: it clears the ring and keeps \<open>used_idx\<close>.
\<close>

definition arrays_ok :: "disk \<Rightarrow> bool" where
  "arrays_ok dk \<longleftrightarrow> length (dk_free dk) = VNUM \<and> length (dk_info dk) = VNUM \<and> length (dk_ops dk) = VNUM"

lemma initialised_disk_ready:
  assumes "arrays_ok dk" "vdisk s = initialised_disk dk" "seen (vdev s) = 0"
  shows "ready seen s \<longleftrightarrow> dk_used_idx dk = 0"
proof -
  have "array_loop (\<lambda>i f. True) 0 VNUM (dk_free dk) ! i" if "i < VNUM" for i
    using that assms(1) by (simp add: nth_array_loop arrays_ok_def)
  then have "free_list (initialised_disk dk) = [0..<VNUM]" by (simp add: free_list_def initialised_disk_def)
  then have "length (free_list (initialised_disk dk)) = VNUM" by simp
  then show ?thesis using assms
    by (auto simp: ready_def disk_wf_def arrays_ok_def) (simp_all add: initialised_disk_def clear_pages_def VNUM_def)
qed

definition keeps_memory :: "'d device \<Rightarrow> bool" where
  "keeps_memory dev \<longleftrightarrow> (\<forall>s. \<exists>d. dev_run dev s = s\<lparr>vdev := d\<rparr>)"

lemma virtio_disk_intr_quiet:
  assumes "keeps_memory dev"
  shows "\<exists>d d'. virtio_disk_intr dev p s = intr_loop dev p (s\<lparr>vdev := d\<rparr>)
    \<and> dev_run dev (s\<lparr>vdev := d\<rparr>) = s\<lparr>vdev := d'\<rparr>"
proof -
  have "\<exists>d. virtio_disk_intr dev p s = intr_loop dev p (s\<lparr>vdev := d\<rparr>)"
    by (simp add: virtio_disk_intr_def read_reg_def write_reg_def case_prod_beta) blast
  moreover have "\<exists>d'. dev_run dev (s\<lparr>vdev := d\<rparr>) = s\<lparr>vdev := d'\<rparr>" for d
    using assms [unfolded keeps_memory_def, rule_format, of "s\<lparr>vdev := d\<rparr>"] by simp
  ultimately show ?thesis by blast
qed

lemma reinitialised_intr_fails:
  assumes "keeps_memory dev" "vdisk s = initialised_disk dk" "dk_used_idx dk \<noteq> 0"
    and "in_status (dk_info dk ! 0) = 0" "vbufs s (in_b (dk_info dk ! 0)) = None"
  shows "virtio_disk_intr dev p s = None"
proof -
  obtain d d' where "virtio_disk_intr dev p s = intr_loop dev p (s\<lparr>vdev := d\<rparr>)"
    "dev_run dev (s\<lparr>vdev := d\<rparr>) = s\<lparr>vdev := d'\<rparr>"
    using virtio_disk_intr_quiet [OF assms(1), of p s] by blast
  then show ?thesis
    using assms(2-5) ring_index [of "dk_used_idx dk"] intr_loop.simps [of dev p "s\<lparr>vdev := d\<rparr>"]
    by (simp add: initialised_disk_def clear_pages_def virtio_sizes)
qed

text \<open>
  A request the device answers with an error: the entry of the used ring stays unread, because
  \<open>virtio_disk_intr\<close> returns before it advances \<open>used_idx\<close>, and the request never returns.
\<close>

definition refused :: "u64 \<Rightarrow> 'd vio \<Rightarrow> bool" where
  "refused b s \<longleftrightarrow> (let dk = vdisk s; id = unat (ue_id (us_ring (dk_used dk) ! unat (dk_used_idx dk mod of_nat VNUM)))
     in dk_used_idx dk \<noteq> us_idx (dk_used dk) \<and> in_status (dk_info dk ! id) \<noteq> 0)
    \<and> (\<forall>bf. vbufs s b = Some bf \<longrightarrow> b_disk bf = 1)"

lemma refused_intr:
  assumes "keeps_memory dev" "refused b s" "virtio_disk_intr dev p s = Some s'"
  shows "refused b s'"
proof -
  obtain d d' where "virtio_disk_intr dev p s = intr_loop dev p (s\<lparr>vdev := d\<rparr>)"
    "dev_run dev (s\<lparr>vdev := d\<rparr>) = s\<lparr>vdev := d'\<rparr>"
    using virtio_disk_intr_quiet [OF assms(1), of p s] by blast
  then have "vputs p ''virtio_disk_intr status'' (s\<lparr>vdev := d'\<rparr>) = Some s'"
    using assms(2,3) intr_loop.simps [of dev p "s\<lparr>vdev := d\<rparr>"]
    by (auto simp: refused_def Let_def split: if_splits)
  then show ?thesis using assms(2) by (auto simp: vputs_def refused_def Let_def)
qed

lemma wait_done_refused:
  assumes "wait_done dev p b s = Some s'" "keeps_memory dev"
  shows "\<not> refused b s"
proof (rule wait_done.raw_induct [OF _ assms(1), of "\<lambda>dev p b s s'. keeps_memory dev \<longrightarrow> \<not> refused b s", THEN mp, OF _ assms(2)])
  fix wait dev p b s s'
  assume IH: "\<And>dev p b s s'. wait dev p b s = Some s' \<Longrightarrow> keeps_memory dev \<longrightarrow> \<not> refused b s"
    and eq: "Option.bind (vbufs s b) (\<lambda>bf. if b_disk bf = 1 then
       Option.bind (virtio_disk_intr dev p s) (\<lambda>s. wait dev p b s) else Some s) = Some s'"
  show "keeps_memory dev \<longrightarrow> \<not> refused b s"
  proof (intro impI notI)
    assume dev: "keeps_memory dev" and r: "refused b s"
    obtain bf where bf: "vbufs s b = Some bf" "b_disk bf = 1"
      using eq r by (auto simp: refused_def bind_eq_Some_conv)
    with eq obtain s1 where "virtio_disk_intr dev p s = Some s1" "wait dev p b s1 = Some s'"
      by (auto simp: bind_eq_Some_conv)
    with refused_intr [OF dev r] IH dev show False by blast
  qed
qed

section \<open>A device that meets the contract\<close>

text \<open>A disk in memory that serves each request at once; it finds the parts of a request by their addresses.\<close>

record ramdisk =
  rd_sectors :: "u64 \<Rightarrow> u8 list"
  rd_seen :: u16

definition rd_sect :: "ramdisk \<Rightarrow> u64 \<Rightarrow> u8 list" where
  "rd_sect d n = take BSIZE (rd_sectors d n @ replicate BSIZE 0)"

definition ramdisk_run :: "u64 \<Rightarrow> ramdisk vio \<Rightarrow> ramdisk vio" where
  "ramdisk_run base s =
    (let d = vdev s; dk = vdisk s; h = avail_head (rd_seen d) dk;
         d0 = dk_desc dk ! h; d1 = dk_desc dk ! unat (d_next d0); d2 = dk_desc dk ! unat (d_next d1);
         r = dk_ops dk ! unat ((d_addr d0 - ops_addr base 0) div 16); b = d_addr d1 - buf_data_addr 0;
         j = unat ((d_addr d2 - info_status_addr base 0) div 16)
     in if rd_seen d = av_idx (dk_avail dk) then s
        else case vbufs s b of None \<Rightarrow> s
        | Some bf \<Rightarrow> (completed h b j bf (sector_data r (b_data bf) (rd_sect d)) 513 s)
            \<lparr>vdev := \<lparr>rd_sectors = after_sector r (b_data bf) (rd_sectors d), rd_seen = rd_seen d + 1\<rparr>\<rparr>)"

definition ramdisk_device :: "u64 \<Rightarrow> ramdisk device" where
  "ramdisk_device base = \<lparr>dev_read = (\<lambda>r d. (if r = VIRTIO_MMIO_QUEUE_NUM_MAX then 1024 else 0, d)),
     dev_write = (\<lambda>r v d. d), dev_run = ramdisk_run base\<rparr>"

lemma index_of_address:
  assumes "i < VNUM"
  shows "unat ((ops_addr base i - ops_addr base 0) div 16) = i"
    and "unat ((info_status_addr base i - info_status_addr base 0) div 16) = i"
proof -
  have "unat ((of_nat (16 * i) :: u64) div 16) = i"
    using assms by (simp add: VNUM_def unat_div unat_of_nat take_bit_nat_eq_self del: of_nat_mult)
  then show "unat ((ops_addr base i - ops_addr base 0) div 16) = i"
    and "unat ((info_status_addr base i - info_status_addr base 0) div 16) = i"
    by (simp_all add: ops_addr_def info_status_addr_def)
qed

lemma rd_sect_after:
  assumes "length bytes = BSIZE"
  shows "rd_sect \<lparr>rd_sectors = after_sector r bytes (rd_sectors d), rd_seen = n\<rparr> = after_sector r bytes (rd_sect d)"
  using assms by (auto simp: rd_sect_def after_sector_def)

lemma ramdisk_serves:
  assumes "rd_seen (vdev s) \<noteq> av_idx (dk_avail (vdisk s))"
    and "describes base (vdisk s) (avail_head (rd_seen (vdev s)) (vdisk s)) i b j"
    and "vbufs s b = Some bf" "length (b_data bf) = BSIZE"
  shows "serves rd_sect rd_seen (avail_head (rd_seen (vdev s)) (vdisk s)) i b j bf s (ramdisk_run base s)"
proof -
  have "i < VNUM" "j < VNUM" using assms(2) by (simp_all add: describes_def Let_def)
  note ix = index_of_address(1) [OF this(1), of base] index_of_address(2) [OF this(2), of base]
  have "ramdisk_run base s = (completed (avail_head (rd_seen (vdev s)) (vdisk s)) b j bf
      (sector_data (dk_ops (vdisk s) ! i) (b_data bf) (rd_sect (vdev s))) 513 s)
        \<lparr>vdev := \<lparr>rd_sectors = after_sector (dk_ops (vdisk s) ! i) (b_data bf) (rd_sectors (vdev s)),
          rd_seen = rd_seen (vdev s) + 1\<rparr>\<rparr>"
    using assms(1-3) ix by (simp add: ramdisk_run_def describes_def Let_def buf_data_addr_def)
  then show ?thesis unfolding serves_def using rd_sect_after [OF assms(4)] by auto
qed

lemma ramdisk_block_device: "block_device base capacity (ramdisk_device base) rd_sect rd_seen (\<lambda>d. 0)"
  unfolding block_device_def
proof (intro conjI allI impI, goal_cases)
  case (6 s)
  then show ?case by (intro exI [of _ "vdev s"]) (simp add: ramdisk_device_def ramdisk_run_def Let_def)
next
  case (7 s i b j bf)
  then show ?case using ramdisk_serves [of s base i b j bf] by (simp add: ramdisk_device_def)
qed (simp_all add: ramdisk_device_def keeps_medium_def rd_sect_def)

text \<open>The driver's variable at start-up, with all bytes zero.\<close>

definition disk_start :: disk where
  "disk_start = (clear_pages \<lparr>dk_desc = [], dk_avail = \<lparr>av_flags = 0, av_idx = 0, av_ring = [], av_unused = 0\<rparr>,
     dk_used = \<lparr>us_flags = 0, us_idx = 0, us_ring = []\<rparr>, dk_mapped = False, dk_free = replicate VNUM False,
     dk_used_idx = 0, dk_info = replicate VNUM \<lparr>in_b = 0, in_status = 0\<rparr>,
     dk_ops = replicate VNUM \<lparr>rq_type = 0, rq_reserved = 0, rq_sector = 0\<rparr>, dk_initialised = False\<rparr>)"

definition ramdisk_start :: "ramdisk vio" where
  "ramdisk_start = \<lparr>vdisk = disk_start,
     vbufs = [0x80018000 \<mapsto> \<lparr>b_valid = 7, b_disk = 7, b_dev = 7, b_blockno = 7, b_refcnt = 7, b_prev = 7, b_next = 7,
       b_data = []\<rparr>],
     vport = \<lparr>port_status = (\<lambda>n. 0), port_data = (\<lambda>n. 0), port_reads = 0, port_sent = [], port_lcr = 0, port_fcr = 0,
       port_txctrl = 0, port_rxctrl = 0\<rparr>,
     vdev = \<lparr>rd_sectors = (\<lambda>n. []), rd_seen = 0\<rparr>\<rparr>"

lemma arrays_ok_disk_start: "arrays_ok disk_start" "dk_used_idx disk_start = 0"
  by (simp_all add: arrays_ok_def disk_start_def clear_pages_def)

lemma ramdisk_init_vdev:
  assumes "virtio_disk_init (ramdisk_device base) base p s = Some s'"
  shows "vdev s' = vdev s"
  using assms by (auto simp: virtio_disk_init_def not_a_disk_def read_reg_def write_reg_def virtio_handshake_def
      ramdisk_device_def vputs_def Let_def bind_eq_Some_conv split: if_splits)

lemma ramdisk_queue_max: "queue_max (ramdisk_device base) s = 1024"
  by (simp add: queue_max_def read_reg_def ramdisk_device_def)

definition ramdisk_ready :: "ramdisk vio" where
  "ramdisk_ready = ramdisk_start\<lparr>vdisk := initialised_disk disk_start\<rparr>"

lemma ramdisk_ready_usable: "usable rd_seen {0x80018000} ramdisk_ready"
  using initialised_disk_ready [where seen = rd_seen, OF arrays_ok_disk_start(1), of ramdisk_ready] arrays_ok_disk_start(2)
  by (simp add: usable_def ramdisk_ready_def ramdisk_start_def) (simp add: initialised_disk_def)

section \<open>Properties\<close>



text \<open>C40. A transfer of several sectors goes to the first sector only, because the loops of \<open>disk_read\<close> and
  \<open>disk_write\<close> never advance the sector: reading gives as many copies of one sector, writing leaves the last
  block in it and the sectors behind it as they were.\<close>

theorem disk_transfers_one_sector:
  assumes "block_device base capacity dev sect seen delay" "usable seen B s" "bp \<in> B" "ucast sector < capacity"
    and "0 < count" "512 * unat count \<le> length buff"
  shows "(\<exists>s'. disk_read dev base p bp DEV_VIRTIO buff sector count s
      = Some ((RES_OK, concat (replicate (unat count) (sect (vdev s) (ucast sector))) @ drop (512 * unat count) buff), s')
      \<and> usable seen B s')
    \<and> (\<exists>s'. disk_write dev base p bp DEV_VIRTIO buff sector count s = Some (RES_OK, s') \<and> usable seen B s'
      \<and> sect (vdev s') (ucast sector) = take 512 (drop (512 * (unat count - 1)) buff)
      \<and> (\<forall>n. n \<noteq> ucast sector \<longrightarrow> sect (vdev s') n = sect (vdev s) n))"
  using disk_read_ok [OF assms(1,4,3,2,5,6), of p] disk_write_ok [OF assms(1,4,3,2,5,6), of p] by auto

theorem disk_transfers_one_sector_witness:
  "(\<exists>s'. disk_read (ramdisk_device 0x80013000) 0x80013000 (\<lambda>u c. Some (0, u)) 0x80018000 DEV_VIRTIO (replicate 1024 1) 3 2
        ramdisk_ready = Some ((RES_OK, replicate 1024 0), s'))
    \<and> (\<exists>s'. disk_write (ramdisk_device 0x80013000) 0x80013000 (\<lambda>u c. Some (0, u)) 0x80018000 DEV_VIRTIO
        (replicate 512 1 @ replicate 512 2) 3 2 ramdisk_ready = Some (RES_OK, s')
      \<and> rd_sect (vdev s') 3 = replicate 512 2 \<and> rd_sect (vdev s') 4 = replicate 512 0)"
proof -
  have z: "rd_sect (vdev ramdisk_ready) n = replicate 512 0" for n
    by (simp add: rd_sect_def ramdisk_ready_def ramdisk_start_def BSIZE_def)
  have "concat (replicate 2 (replicate 512 (0 :: u8))) = replicate 1024 0"
    by (simp add: numeral_2_eq_2 replicate_add [symmetric])
  then show ?thesis
    using disk_transfers_one_sector [OF ramdisk_block_device [of "0x80013000" 20480] ramdisk_ready_usable,
        of "0x80018000" 3 2 "replicate 1024 1" "\<lambda>u c. Some (0, u)"]
      disk_transfers_one_sector [OF ramdisk_block_device [of "0x80013000" 20480] ramdisk_ready_usable,
        of "0x80018000" 3 2 "replicate 512 1 @ replicate 512 2" "\<lambda>u c. Some (0, u)"]
    by (auto simp: z)
qed

end
