(* ===== verification/Integrity.thy ===== *)
theory Integrity
  imports Authority Trap
begin

text \<open>
  Integrity of the other processes: the system calls that work on the caller's own capabilities
  leave the control blocks and the capabilities of all other processes alone.
\<close>

section \<open>What stays as it is\<close>

definition others_kept :: "kstate \<Rightarrow> proc_ptr \<Rightarrow> kstate \<Rightarrow> bool" where
  "others_kept s p s' \<longleftrightarrow> length (ctable s') = length (ctable s)
     \<and> (\<forall>q. q \<noteq> p \<longrightarrow> procs s' ! q = procs s ! q)
     \<and> (\<forall>c < length (ctable s). cte_pid c \<noteq> p \<longrightarrow> cte_cap (ctable s') c = cte_cap (ctable s) c)"

lemma others_kept_refl [simp]: "others_kept s p s"
  by (simp add: others_kept_def)

lemma others_kept_reg [simp]:
  "others_kept s p (set_reg t p r v) = others_kept s p t" "others_kept s p (inc_pc t p) = others_kept s p t"
  "others_kept s p (upd_proc t p f) = others_kept s p t"
  "others_kept s p (t\<lparr>reads := n\<rparr>) = others_kept s p t" "others_kept s p (t\<lparr>cap_lock := l\<rparr>) = others_kept s p t"
  "others_kept s p (t\<lparr>slots := ss\<rparr>) = others_kept s p t" "others_kept s p (t\<lparr>channels := cs\<rparr>) = others_kept s p t"
  "others_kept s p (t\<lparr>csr_pmpaddr := a, csr_pmpcfg := b\<rparr>) = others_kept s p t"
  by (simp_all add: others_kept_def set_reg_def inc_pc_def upd_proc_def)

text \<open>The table and the processes after the operations that the handlers use.\<close>

lemma table_procs:
  "sched_update t q e hart from to = Some s' \<Longrightarrow> ctable s' = ctable t \<and> procs s' = procs t"
  "sched_delete t hart from to = Some s' \<Longrightarrow> ctable s' = ctable t \<and> procs s' = procs t"
  "cap_sock_clear t cp q = Some s' \<Longrightarrow> ctable s' = ctable t \<and> procs s' = procs t"
  "proc_pmp_unload t q k = Some s' \<Longrightarrow> ctable s' = ctable t \<and> (\<forall>r. r \<noteq> q \<longrightarrow> procs s' ! r = procs t ! r)"
  "proc_pmp_load t q k rwx a = Some s' \<Longrightarrow> ctable s' = ctable t \<and> (\<forall>r. r \<noteq> q \<longrightarrow> procs s' ! r = procs t ! r)"
  "proc_get t q = Some r \<Longrightarrow> r = q"
  by (auto simp: sched_update_def sched_delete_def cap_sock_clear_def upd_chan_def proc_pmp_unload_def
      proc_pmp_load_def proc_get_def KASSERT_def upd_proc_def bind_eq_Some_conv split: if_splits)

lemma others_kept_trans: "others_kept s p t \<Longrightarrow> others_kept t p u \<Longrightarrow> others_kept s p u"
  by (simp add: others_kept_def)

lemma others_keptI:
  assumes "length (ctable s') = length (ctable s)" "\<And>q. q \<noteq> p \<Longrightarrow> procs s' ! q = procs s ! q"
    and "\<And>c. c < length (ctable s) \<Longrightarrow> cte_pid c \<noteq> p \<Longrightarrow> cte_cap (ctable s') c = cte_cap (ctable s) c"
  shows "others_kept s p s'"
  using assms by (simp add: others_kept_def)

lemma cte_move_same: "cte_move ct c c = ct"
  by (simp add: cte_move_def)

lemma cap_move_others:
  assumes "cap_move s src dst = Some (e, s')" "cte_pid src = p" "cte_pid dst = p"
    "src < length (ctable s)" "dst < length (ctable s)"
  shows "others_kept s p s'"
proof (cases "src = dst")
  case False
  with assms show ?thesis by (auto simp: cap_move_def cte_cap_ops split: if_splits intro!: others_keptI)
qed (use assms in \<open>auto simp: cap_move_def cte_move_same split: if_splits intro!: others_keptI\<close>)

lemma cap_delete_others:
  assumes "cap_delete s c = Some (e, s')" "cte_pid c = p" "c < length (ctable s)"
  shows "others_kept s p s'"
  using assms
  by (cases "cte_cap (ctable s) c")
    (auto simp: cap_delete_def bind_eq_Some_conv cap_delete_time_def cap_delete_memory_def cap_delete_pmp_def
      cap_delete_monitor_def cap_delete_channel_def cap_delete_socket_def cte_cap_ops
      split: if_splits intro!: others_keptI dest!: table_procs)

lemma cap_derive_others:
  assumes d: "cap_derive s src dst cp = Some (e, s')" and c: "cte_pid src = p" "cte_pid dst = p"
    "src < length (ctable s)" "dst < length (ctable s)"
  shows "others_kept s p s'"
proof (cases "cte_is_empty (ctable s) src \<or> \<not> cte_is_empty (ctable s) dst")
  case False
  note defs = cap_derive_def cap_derive_time_def cap_derive_memory_def cap_derive_pmp_def
    cap_derive_monitor_def cap_derive_channel_def cap_derive_socket_def bind_eq_Some_conv Let_def
    cte_cap_ops cte_get_set case_prod_beta
  from False d c show ?thesis
    by (cases "cte_cap (ctable s) src"; cases cp)
      (auto simp: defs split: if_splits intro!: others_keptI dest!: table_procs)
qed (use d in \<open>auto simp: cap_derive_def split: if_splits\<close>)

lemma cap_pmp_others:
  assumes "c < length (ctable s)" "cte_pid c = p"
  shows "cap_pmp_load s c k = Some (e, s') \<Longrightarrow> others_kept s p s'"
    "cap_pmp_unload s c = Some (e, s') \<Longrightarrow> others_kept s p s'"
  using assms
  by (cases "cte_cap (ctable s) c"; auto simp: cap_pmp_load_def cap_pmp_unload_def bind_eq_Some_conv cte_get_set
      split: if_splits intro!: others_keptI dest!: table_procs)+

lemma own_cte_others:
  assumes "kinv s" "p < S3K_PROC_CNT" "own_cte t p i = Some c" "pid (procs t ! p) = pid (procs s ! p)"
    "ctable t = ctable s"
  shows "cte_pid c = p" "c < length (ctable t)"
  using assms kinv_proc_ok [OF assms(1,2)] cte_pid_ctable_get [of p "unat i" c] kinv_lengths(1) [OF assms(1)]
  by (auto simp: own_cte_def proc_ok_def)

definition local_calls :: "syscall_t set" where
  "local_calls = {SYS_GET_INFO, SYS_REG_READ, SYS_REG_WRITE, SYS_SYNC, SYS_SLEEP, SYS_CAP_READ, SYS_CAP_MOVE,
     SYS_CAP_DELETE, SYS_CAP_DERIVE, SYS_PMP_LOAD, SYS_PMP_UNLOAD}"

lemma handlers_others:
  assumes inv: "kinv s" and p: "p < S3K_PROC_CNT" and c: "c \<in> local_calls"
    and h: "handlers c s p args = Some (n, s')"
  shows "others_kept s p s'"
proof -
  have own: "own_cte s p i = Some d \<Longrightarrow> cte_pid d = p \<and> d < length (ctable s)" for i d
    using own_cte_others [OF inv p _ refl refl] by blast
  note defs = handler_defs handle_get_info_def handle_sync_def handle_sleep_def bind_eq_Some_conv
    proc_pmp_sync_def time_get_def Let_def case_prod_beta
  have ops: "cap_move s y z = Some (e, t) \<Longrightarrow> others_kept s p t" "cap_derive s y z cp = Some (e, t) \<Longrightarrow> others_kept s p t"
    "cap_delete s y = Some (e, t) \<Longrightarrow> others_kept s p t" "cap_pmp_load s y k = Some (e, t) \<Longrightarrow> others_kept s p t"
    "cap_pmp_unload s y = Some (e, t) \<Longrightarrow> others_kept s p t"
    if "own_cte s p i = Some y" "own_cte s p j = Some z" for i j y z e t cp k
    using own [OF that(1)] own [OF that(2)] cap_move_others [of s y z e t p] cap_derive_others [of s y z cp e t p]
      cap_delete_others [of s y e t p] cap_pmp_others(1) [of y s p k e t] cap_pmp_others(2) [of y s p e t]
    by simp_all
  show ?thesis
    using c h unfolding local_calls_def
    by (elim insertE emptyE; clarsimp simp: defs split: if_splits) (rule ops; assumption)+
qed

lemma syscall_others:
  assumes inv: "kinv s" and p: "p < S3K_PROC_CNT" and lock: "cap_lock s = 0"
    and c: "syscall_of (get_reg s p REG_T0) = Some c" "c \<in> local_calls"
    and h: "syscall_handler s p = Some (n, s')"
  shows "others_kept s p s'"
proof -
  let ?t = "inc_pc (s\<lparr>reads := Suc (reads s)\<rparr>) p" and ?l = "inc_pc (s\<lparr>reads := Suc (reads s), cap_lock := 1\<rparr>) p"
  have "kinv ?t" "kinv ?l" using inv by (simp_all add: inc_pc_def kinv_set_reg)
  moreover have "others_kept s p u" if "others_kept ?t p u \<or> others_kept ?l p u" for u
    using that by (auto simp: others_kept_def inc_pc_def set_reg_def upd_proc_def)
  ultimately have go: "handlers c ?t p a = Some (m, u) \<Longrightarrow> others_kept s p u"
    "handlers c ?l p a = Some (m, u) \<Longrightarrow> others_kept s p u" for a m u
    using handlers_others [OF _ p c(2)] by blast+
  show ?thesis
    using h c(1) lock
    by (auto simp: syscall_handler_def Let_def kernel_preempt_def cap_lock_acquire_free cap_lock_release_def
        bind_eq_Some_conv split: if_splits intro: go)
qed

end
