(* ===== verification/Dispatch.thy ===== *)
theory Dispatch
  imports Boot
begin

text \<open>
  Which hart runs a process: a closed form of \<open>sched_fetch\<close> of \<open>kernel/src/sched.c\<close> in terms of the
  owners of the slots, and the conditions under which \<open>sched\<close> returns.
\<close>

section \<open>Which hart runs a process\<close>

text \<open>The slot that is scheduled next at time \<open>t\<close>, and its index in the schedule.\<close>

definition slot_at :: "u64 \<Rightarrow> u64" where
  "slot_at t = (t + S3K_SCHED_TIME) div S3K_SLOT_LEN"

definition owner_at :: "kstate \<Rightarrow> nat \<Rightarrow> u64 \<Rightarrow> (nat \<times> nat) option" where
  "owner_at s hart slot = slot_owner (slots s) hart (unat (slot mod of_nat S3K_SLOT_CNT))"

lemma slot_info_at:
  assumes "hart_ok hart"
  obtains si where "slot_info_get s hart slot = Some si"
    "owner_at s hart slot = (if si_length si = 0 then None else Some (unat (si_pid si), unat (si_length si)))"
  using slot_info_owner [OF assms, of s slot] by (auto simp: owner_at_def)

lemma yields_iff:
  assumes "\<forall>h \<in> set hs. hart_ok h" "\<not> cmp (si_length si) 0"
  shows "sched_yields_to s si slot cmp hs = Some (\<exists>h \<in> set hs. \<exists>l. owner_at s h slot = Some (unat (si_pid si), unat l)
    \<and> cmp (si_length si) l)"
  using assms(1)
proof (induction hs)
  case (Cons h hs)
  from Cons.prems have "hart_ok h" by simp
  from slot_info_at [OF this, of s slot] obtain si' where si': "slot_info_get s h slot = Some si'"
    "owner_at s h slot = (if si_length si' = 0 then None else Some (unat (si_pid si'), unat (si_length si')))" by blast
  have "si_pid si = si_pid si' \<and> cmp (si_length si) (si_length si')
    \<longleftrightarrow> (\<exists>l. owner_at s h slot = Some (unat (si_pid si), unat l) \<and> cmp (si_length si) l)"
    using assms(2) si'(2) by (auto simp flip: word_unat_eq_iff)
  with Cons si'(1) show ?case by auto
qed simp

text \<open>
  Hart \<open>hart\<close> leaves process \<open>p\<close>, of which it owns a slice of length \<open>l\<close>, to another hart: to a
  lower one with a slice at least as long, or to a higher one, except the last, with a longer slice.
\<close>

definition gives_way :: "kstate \<Rightarrow> nat \<Rightarrow> u64 \<Rightarrow> nat \<Rightarrow> nat \<Rightarrow> bool" where
  "gives_way s hart slot p l \<longleftrightarrow> (\<exists>h l'. S3K_MIN_HART \<le> h \<and> h < hart \<and> owner_at s h slot = Some (p, l') \<and> l \<le> l')
     \<or> (\<exists>h l'. hart < h \<and> h < S3K_MAX_HART \<and> owner_at s h slot = Some (p, l') \<and> l < l')"

lemma owner_length: "owner_at s h slot = Some (p, l) \<Longrightarrow> \<exists>w :: u8. l = unat w"
  by (auto simp: owner_at_def slot_owner_def Let_def split: if_splits)

lemma ex_length:
  "(\<exists>w :: u8. owner_at s h slot = Some (p, unat w) \<and> P (unat w)) \<longleftrightarrow> (\<exists>l. owner_at s h slot = Some (p, l) \<and> P l)"
proof
  assume "\<exists>l. owner_at s h slot = Some (p, l) \<and> P l"
  then obtain l where l: "owner_at s h slot = Some (p, l)" "P l" by blast
  from owner_length [OF l(1)] obtain w :: u8 where "l = unat w" ..
  with l show "\<exists>w :: u8. owner_at s h slot = Some (p, unat w) \<and> P (unat w)" by blast
qed blast

lemma sched_fetch_eq:
  assumes inv: "kinv s" and h: "hart_ok hart"
  shows "sched_fetch s hart slot = (case owner_at s hart slot of
      None \<Rightarrow> Some (None, s)
    | Some (p, l) \<Rightarrow> if gives_way s hart slot p l then Some (None, s)
        else (let (b, t) = proc_acquire s p in Some (if b then (Some p, upd_proc t p (\<lambda>q. q\<lparr>timeout :=
          (slot + of_nat l) * S3K_SLOT_LEN - S3K_SCHED_TIME\<rparr>)) else (None, t))))"
proof -
  from slot_info_at [OF h, of s slot] obtain si where si: "slot_info_get s hart slot = Some si"
    "owner_at s hart slot = (if si_length si = 0 then None else Some (unat (si_pid si), unat (si_length si)))" by blast
  show ?thesis
  proof (cases "si_length si = 0")
    case True
    with si show ?thesis by (simp add: sched_fetch_def)
  next
    case False
    let ?p = "unat (si_pid si)" and ?l = "unat (si_length si)"
    have own: "owner_at s hart slot = Some (?p, ?l)" using si False by simp
    have p: "?p < S3K_PROC_CNT" using slot_info_pid [OF inv h si(1) False] .
    have cmp: "\<not> si_length si \<le> 0" "\<not> si_length si < 0" using False by simp_all
    have low: "sched_yields_to s si slot (\<le>) [S3K_MIN_HART..<hart]
        = Some (\<exists>h l'. S3K_MIN_HART \<le> h \<and> h < hart \<and> owner_at s h slot = Some (?p, l') \<and> ?l \<le> l')"
      unfolding yields_iff [OF hart_range_ok(1) [OF h], of "(\<le>)", OF cmp(1)]
      by (simp add: word_le_nat_alt ex_length Bex_def)
    have high: "sched_yields_to s si slot (<) [hart + 1..<S3K_MAX_HART]
        = Some (\<exists>h l'. hart < h \<and> h < S3K_MAX_HART \<and> owner_at s h slot = Some (?p, l') \<and> ?l < l')"
      unfolding yields_iff [OF hart_range_ok(2) [OF h], of "(<)", OF cmp(2)]
      by (simp add: word_less_nat_alt Suc_le_eq ex_length Bex_def)
    have smp: "SMP" by (simp add: config_defs)
    define A where "A \<longleftrightarrow> (\<exists>h l'. S3K_MIN_HART \<le> h \<and> h < hart \<and> owner_at s h slot = Some (?p, l') \<and> ?l \<le> l')"
    define B where "B \<longleftrightarrow> (\<exists>h l'. hart < h \<and> h < S3K_MAX_HART \<and> owner_at s h slot = Some (?p, l') \<and> ?l < l')"
    show ?thesis
      unfolding own option.case prod.case gives_way_def
      using low high unfolding A_def [symmetric] B_def [symmetric]
      by (cases A; cases B) (simp_all add: sched_fetch_def si(1) False smp kinv_proc_get [OF inv p] case_prod_beta)
  qed
qed

section \<open>The scheduler comes back\<close>

lemma sched_wait_returns:
  assumes "reads s \<le> m" "slot * S3K_SLOT_LEN \<le> mtime s m"
  shows "\<exists>n. sched_wait s slot = Some (s\<lparr>reads := n\<rparr>)"
  using assms
proof (induction "m - reads s" arbitrary: s)
  case 0
  then have "m = reads s" by simp
  with 0 show ?case by (subst sched_wait.simps) auto
next
  case (Suc k)
  let ?s = "s\<lparr>reads := Suc (reads s)\<rparr>"
  have "\<exists>n. sched_wait ?s slot = Some (?s\<lparr>reads := n\<rparr>)"
    using Suc.hyps(2) Suc.prems by (intro Suc.hyps(1)) simp_all
  then show ?case by (subst sched_wait.simps) auto
qed

lemma sched_fetch_free:
  assumes "kinv s" "hart_ok hart" "owner_at s hart slot = Some (p, l)" "\<not> gives_way s hart slot p l"
    and "pstate (procs s ! p) AND (PSF_BUSY OR PSF_SUSPENDED) = 0" "timeout (procs s ! p) \<le> mtime s (reads s)"
  shows "\<exists>s'. sched_fetch s hart slot = Some (Some p, s')"
  using assms by (simp add: sched_fetch_eq proc_acquire_def not_less)

lemma sched_returns_lemma:
  assumes "kinv s" "hart_ok (mhartid s)" "slot = slot_at (mtime s (reads s))"
    and "owner_at s (mhartid s) slot = Some (p, l)" "\<not> gives_way s (mhartid s) slot p l"
    and "pstate (procs s ! p) AND (PSF_BUSY OR PSF_SUSPENDED) = 0" "\<And>k. timeout (procs s ! p) \<le> mtime s k"
    and "reads s < m" "slot * S3K_SLOT_LEN \<le> mtime s m"
  shows "\<exists>s'. sched s = Some (p, s')"
proof -
  let ?s = "timeout_set s (mhartid s) (- 1)"
  let ?s1 = "?s\<lparr>reads := Suc (reads ?s)\<rparr>"
  have "\<exists>n. sched_wait ?s1 slot = Some (?s1\<lparr>reads := n\<rparr>)"
    using assms(8,9) by (intro sched_wait_returns [of _ m]) (simp_all add: timeout_set_def)
  then obtain n where w: "sched_wait ?s1 slot = Some (?s1\<lparr>reads := n\<rparr>)" by blast
  have "\<exists>s'. sched_fetch (?s1\<lparr>reads := n\<rparr>) (mhartid s) slot = Some (Some p, s')"
    using assms(1,2,4-7) by (intro sched_fetch_free) (simp_all add: timeout_set_def owner_at_def gives_way_def kinv_def)
  then obtain s' where f: "sched_fetch (?s1\<lparr>reads := n\<rparr>) (mhartid s) slot = Some (Some p, s')" by blast
  have "sched_loop ?s = Some (p, s')"
    using w f assms(3) by (subst sched_loop.simps) (simp add: timeout_set_def slot_at_def Let_def)
  then show ?thesis by (simp add: sched_def)
qed

lemma sched_takes:
  assumes "kinv s" "hart_ok hart" "sched_fetch s hart slot = Some (Some p, t)"
  shows "\<exists>l. owner_at s hart slot = Some (p, l) \<and> \<not> gives_way s hart slot p l"
  using assms by (auto simp: sched_fetch_eq case_prod_beta split: option.splits if_splits)

section \<open>The first state\<close>

lemma idle0_owner: "hart_ok h \<Longrightarrow> owner_at idle0 h 0 = Some (0, 32)"
  using boot0_facts(6) [of h 0] by (simp add: owner_at_def idle0_facts config_defs)

lemma idle0_stays: "\<not> gives_way idle0 0 0 0 32"
proof -
  have "owner_at idle0 h 0 \<noteq> Some (0, l)" if "h < S3K_MAX_HART" "32 < l" for h l
    using idle0_owner [of h] that by (simp add: hart_ok_def config_defs)
  then show ?thesis unfolding gives_way_def by auto
qed

lemma idle0_fetch: "\<exists>t. sched_fetch idle0 0 0 = Some (Some 0, t)"
  by (rule sched_fetch_free [OF idle0_facts(1) _ idle0_owner idle0_stays])
    (simp_all add: idle0_facts hart_ok_def config_defs)

lemma idle0_sched: "\<exists>s'. sched idle0 = Some (0, s')"
  by (rule sched_returns_lemma [OF idle0_facts(1) _ refl, of _ 32 "Suc (reads idle0)"])
    (use idle0_owner [of 0] idle0_stays in \<open>simp_all add: idle0_facts hart_ok_def config_defs slot_at_def\<close>)

end
