(* ===== verification/Locks.thy ===== *)
theory Locks
  imports KState
begin

text \<open>
  The two locks of the multi-hart kernel, \<open>kernel/src/smp/taslock.c\<close> and
  \<open>kernel/src/smp/semaphore.c\<close>, as state machines: every hart has a program counter inside the
  lock's functions, and every atomic instruction is one step. The test-and-set lock protects
  the capability table (\<open>kernel/src/cap_lock.c\<close>), the ticket semaphore protects the slots of the
  schedule (\<open>kernel/src/sched.c\<close>): an update takes all tickets, the scheduler takes one.
\<close>

section \<open>The test-and-set lock\<close>

text \<open>The atomic operations on the lock word.\<close>

definition tas_init :: u32 where "tas_init = 0"

definition tas_fetch_or :: "u32 \<Rightarrow> bool \<times> u32" where
  "tas_fetch_or l = (l = 0, l OR 1)"

definition tas_store :: u32 where "tas_store = 0"

datatype tas_pc = Outside | Spinning | Trying | Inside

inductive tas_step :: "u32 \<times> (nat \<Rightarrow> tas_pc) \<Rightarrow> u32 \<times> (nat \<Rightarrow> tas_pc) \<Rightarrow> bool" where
  call: "pc h = Outside \<Longrightarrow> tas_step (l, pc) (l, pc(h := Spinning))"
| spin: "pc h = Spinning \<Longrightarrow> l \<noteq> 0 \<Longrightarrow> tas_step (l, pc) (l, pc)"
| preempt: "pc h = Spinning \<Longrightarrow> l \<noteq> 0 \<Longrightarrow> tas_step (l, pc) (l, pc(h := Outside))"
| free: "pc h = Spinning \<Longrightarrow> l = 0 \<Longrightarrow> tas_step (l, pc) (l, pc(h := Trying))"
| test: "pc h = Trying \<Longrightarrow> tas_fetch_or l = (got, l')
    \<Longrightarrow> tas_step (l, pc) (l', pc(h := if got then Inside else Spinning))"
| release: "pc h = Inside \<Longrightarrow> tas_step (l, pc) (tas_store, pc(h := Outside))"

inductive_simps tas_step_simps: "tas_step (l, pc) st"

definition tas_inv :: "u32 \<times> (nat \<Rightarrow> tas_pc) \<Rightarrow> bool" where
  "tas_inv st \<longleftrightarrow> (fst st \<noteq> 0 \<longleftrightarrow> (\<exists>h. snd st h = Inside))
     \<and> (\<forall>h h'. snd st h = Inside \<longrightarrow> snd st h' = Inside \<longrightarrow> h = h')"

lemma word_or_1_nonzero: "(l :: u32) OR 1 \<noteq> 0"
  by (metis bit_0 bit_or_iff bit_0_eq bot_apply bot_bool_def odd_one)

lemma tas_inv_step: "tas_step st st' \<Longrightarrow> tas_inv st \<Longrightarrow> tas_inv st'"
proof (induction rule: tas_step.induct)
  case (test pc h l got l')
  then have "got = (l = 0)" "l' \<noteq> 0" using word_or_1_nonzero by (auto simp: tas_fetch_or_def)
  with test show ?case unfolding tas_inv_def by (auto split: if_splits; metis tas_pc.distinct)
next
  case (release pc h l)
  then show ?case unfolding tas_inv_def tas_store_def by auto
qed (unfold tas_inv_def, auto; metis tas_pc.distinct)+

lemma tas_inv_run:
  assumes "tas_step\<^sup>*\<^sup>* (tas_init, \<lambda>_. Outside) st"
  shows "tas_inv st"
  using assms
proof (induction rule: rtranclp_induct)
  case base
  show ?case by (simp add: tas_inv_def tas_init_def)
next
  case (step st st')
  from tas_inv_step [OF step(2,3)] show ?case .
qed

section \<open>The ticket semaphore\<close>

record semaphore_t =
  released :: u64
  acquired :: u64

definition semaphore_init :: "u64 \<Rightarrow> semaphore_t" where
  "semaphore_init tickets = \<lparr>released = tickets, acquired = 0\<rparr>"

text \<open>The atomic addition of \<open>semaphore_acquire_n\<close>: the new value is the ticket.\<close>

definition semaphore_take :: "semaphore_t \<Rightarrow> u64 \<Rightarrow> u64 \<times> semaphore_t" where
  "semaphore_take sem n = (acquired sem + n, sem\<lparr>acquired := acquired sem + n\<rparr>)"

text \<open>The condition of its waiting loop.\<close>

definition semaphore_waits :: "semaphore_t \<Rightarrow> u64 \<Rightarrow> bool" where
  "semaphore_waits sem my_ticket \<longleftrightarrow> released sem < my_ticket"

definition semaphore_release_n :: "semaphore_t \<Rightarrow> u64 \<Rightarrow> semaphore_t" where
  "semaphore_release_n sem n = sem\<lparr>released := released sem + n\<rparr>"

definition semaphore_release :: "semaphore_t \<Rightarrow> semaphore_t" where
  "semaphore_release sem = semaphore_release_n sem 1"

text \<open>A hart is outside, waits with a ticket for \<open>n\<close> units, or has them.\<close>

datatype sem_pc = Out | Waiting u64 u64 | Has u64 u64

text \<open>
  \<open>T\<close> is the initial number of units. A ticket is taken for at least one and at most \<open>T\<close>
  units. The counters are not reset, so the lock works as long as they do not wrap around:
  the step that takes a ticket has that as a condition.
\<close>

inductive sem_step :: "u64 \<Rightarrow> semaphore_t \<times> (nat \<Rightarrow> sem_pc) \<Rightarrow> semaphore_t \<times> (nat \<Rightarrow> sem_pc) \<Rightarrow> bool"
  for T :: u64 where
  take: "\<lbrakk>pc h = Out; 0 < n; n \<le> T; unat (acquired sem) + unat n + unat T < 2 ^ 64;
      semaphore_take sem n = (t, sem')\<rbrakk> \<Longrightarrow> sem_step T (sem, pc) (sem', pc(h := Waiting t n))"
| wait: "\<lbrakk>pc h = Waiting t n; semaphore_waits sem t\<rbrakk> \<Longrightarrow> sem_step T (sem, pc) (sem, pc)"
| go: "\<lbrakk>pc h = Waiting t n; \<not> semaphore_waits sem t\<rbrakk> \<Longrightarrow> sem_step T (sem, pc) (sem, pc(h := Has t n))"
| release: "pc h = Has t n \<Longrightarrow> sem_step T (sem, pc) (semaphore_release_n sem n, pc(h := Out))"

text \<open>The units of a hart are the numbers from \<open>t - n + 1\<close> to its ticket \<open>t\<close>.\<close>

fun units :: "sem_pc \<Rightarrow> nat set" where
  "units Out = {}"
| "units (Waiting t n) = {unat t - unat n<..unat t}"
| "units (Has t n) = {unat t - unat n<..unat t}"

fun count :: "sem_pc \<Rightarrow> nat" where
  "count (Has t n) = unat n"
| "count _ = 0"

text \<open>
  The numbers up to \<open>acquired\<close> are the returned ones \<open>D\<close> and those of the harts, all
  different; the returned ones and those of the harts that have their units are at most
  \<open>released\<close>, which exceeds the number of returned ones by \<open>T\<close>.
\<close>

definition sem_split :: "u64 \<Rightarrow> semaphore_t \<Rightarrow> (nat \<Rightarrow> sem_pc) \<Rightarrow> nat set \<Rightarrow> bool" where
  "sem_split T sem pc D \<longleftrightarrow> finite D
     \<and> unat (released sem) = unat T + card D \<and> unat (acquired sem) + unat T < 2 ^ 64
     \<and> D \<subseteq> {..unat (released sem)}
     \<and> D \<union> (\<Union>h. units (pc h)) = {0<..unat (acquired sem)}
     \<and> (\<forall>h. D \<inter> units (pc h) = {})
     \<and> (\<forall>h h'. h \<noteq> h' \<longrightarrow> units (pc h) \<inter> units (pc h') = {})
     \<and> (\<forall>h t n. pc h = Has t n \<longrightarrow> t \<le> released sem)
     \<and> (\<forall>h t n. pc h = Waiting t n \<or> pc h = Has t n \<longrightarrow> 0 < n \<and> n \<le> T \<and> n \<le> t)"

definition sem_inv :: "u64 \<Rightarrow> semaphore_t \<times> (nat \<Rightarrow> sem_pc) \<Rightarrow> bool" where
  "sem_inv T st \<longleftrightarrow> (\<exists>D. sem_split T (fst st) (snd st) D)"

lemma sem_inv_init: "sem_inv T (semaphore_init T, \<lambda>_. Out)"
  unfolding sem_inv_def sem_split_def semaphore_init_def using unsigned_less [of T]
  by (auto intro!: exI [of _ "{}"])

lemma finite_units [simp]: "finite (units pc)"
  by (cases pc) simp_all

lemma sem_splitD:
  assumes "sem_split T sem pc D"
  shows "finite D" "unat (released sem) = unat T + card D" "unat (acquired sem) + unat T < 2 ^ 64"
    "D \<subseteq> {..unat (released sem)}" "D \<union> (\<Union>h. units (pc h)) = {0<..unat (acquired sem)}"
    "D \<inter> units (pc h) = {}" "h \<noteq> h' \<Longrightarrow> units (pc h) \<inter> units (pc h') = {}"
    "pc h = Has t n \<Longrightarrow> t \<le> released sem"
    "pc h = Waiting t n \<or> pc h = Has t n \<Longrightarrow> 0 < n \<and> n \<le> T \<and> n \<le> t"
  using assms unfolding sem_split_def by blast+

lemma sem_invI:
  assumes "finite D" "unat (released sem) = unat T + card D" "unat (acquired sem) + unat T < 2 ^ 64"
    "D \<subseteq> {..unat (released sem)}" "D \<union> (\<Union>h. units (pc h)) = {0<..unat (acquired sem)}"
    "\<And>h. D \<inter> units (pc h) = {}" "\<And>h h'. h \<noteq> h' \<Longrightarrow> units (pc h) \<inter> units (pc h') = {}"
    "\<And>h t n. pc h = Has t n \<Longrightarrow> t \<le> released sem"
    "\<And>h t n. pc h = Waiting t n \<or> pc h = Has t n \<Longrightarrow> 0 < n \<and> n \<le> T \<and> n \<le> t"
  shows "sem_inv T (sem, pc)"
  unfolding sem_inv_def sem_split_def fst_conv snd_conv using assms by (intro exI [of _ D]) blast

lemma units_fun_upd: "(\<Union>x. units ((pc(h := v)) x)) = units v \<union> (\<Union>x \<in> - {h}. units (pc x))"
  by (auto split: if_splits)

lemma sem_inv_take:
  assumes inv: "sem_inv T (sem, pc)" and h: "pc h = Out" and n: "0 < n" "n \<le> T"
    and bound: "unat (acquired sem) + unat n + unat T < 2 ^ 64" and tk: "semaphore_take sem n = (t, sem')"
  shows "sem_inv T (sem', pc(h := Waiting t n))"
proof -
  from inv obtain D where "sem_split T sem pc D" by (auto simp: sem_inv_def)
  note D = sem_splitD [OF this]
  let ?pc = "pc(h := Waiting t n)" and ?A = "unat (acquired sem)"
  have t: "unat t = ?A + unat n" "acquired sem' = t" "released sem' = released sem"
    using tk bound by (auto simp: semaphore_take_def unat_word_ariths)
  have new: "units (Waiting t n) = {?A<..unat t}" using t(1) by simp
  have old: "(\<Union>x \<in> - {h}. units (pc x)) = (\<Union>x. units (pc x))" 
  proof -
    have "x \<noteq> h" if "y \<in> units (pc x)" for x y using that h by auto
    then show ?thesis by blast
  qed
  have le: "x \<le> ?A" if "x \<in> D \<or> x \<in> units (pc k)" for x k
  proof -
    have "x \<in> {0<..?A}" unfolding D(5) [symmetric] using that by blast
    then show ?thesis by simp
  qed
  have u: "units (?pc k) = (if k = h then {?A<..unat t} else units (pc k))" for k using new by simp
  show ?thesis
  proof (rule sem_invI [of D])
    show "D \<union> (\<Union>k. units (?pc k)) = {0<..unat (acquired sem')}"
      unfolding units_fun_upd new old t(2) Un_left_commute [of D] D(5) using t(1) by auto
    show "D \<inter> units (?pc k) = {}" for k
      unfolding u using D(6) [of k] le [of _ h] by (cases "k = h") (fastforce, simp)
    show "units (?pc k) \<inter> units (?pc k') = {}" if "k \<noteq> k'" for k k'
      unfolding u using D(7) [OF that] le [of _ k] le [of _ k'] that
      by (cases "k = h"; cases "k' = h") (fastforce, fastforce, fastforce, simp)
    show "0 < m \<and> m \<le> T \<and> m \<le> t'" if "?pc k = Waiting t' m \<or> ?pc k = Has t' m" for k t' m
      using that D(9) [of k t' m] n t(1) by (auto simp: word_le_nat_alt split: if_splits)
  qed (use D t bound in \<open>auto split: if_splits\<close>)
qed

lemma sem_inv_go:
  assumes inv: "sem_inv T (sem, pc)" and h: "pc h = Waiting t n" and t: "\<not> semaphore_waits sem t"
  shows "sem_inv T (sem, pc(h := Has t n))"
proof -
  have u: "units ((pc(h := Has t n)) x) = units (pc x)" for x using h by simp
  from inv obtain D where "sem_split T sem pc D" by (auto simp: sem_inv_def)
  note D = sem_splitD [OF this]
  show ?thesis
  proof (rule sem_invI [of D], unfold u)
    show "0 < m \<and> m \<le> T \<and> m \<le> t'" if "(pc(h := Has t n)) k = Waiting t' m \<or> (pc(h := Has t n)) k = Has t' m" for k t' m
      using that D(9) [of k t' m] D(9) [of h t n] h by (auto split: if_splits)
    show "t' \<le> released sem" if "(pc(h := Has t n)) k = Has t' m" for k t' m
      using that D(8) [of k t' m] t by (auto simp: semaphore_waits_def split: if_splits)
  qed (use D in auto)
qed

lemma sem_inv_release:
  assumes inv: "sem_inv T (sem, pc)" and h: "pc h = Has t n"
  shows "sem_inv T (semaphore_release_n sem n, pc(h := Out))"
proof -
  from inv obtain D where "sem_split T sem pc D" by (auto simp: sem_inv_def)
  note D = sem_splitD [OF this]
  let ?D = "D \<union> units (pc h)" and ?pc = "pc(h := Out)" and ?sem = "semaphore_release_n sem n"
  have t: "unat n \<le> unat t" "unat t \<le> unat (released sem)"
    using D(8) [OF h] D(9) [of h t n] h by (simp_all add: word_le_nat_alt)
  have card: "card ?D = card D + unat n"
    using D(1) D(6) [of h] h t(1) by (subst card_Un_disjoint) simp_all
  have "?D \<subseteq> {0<..unat (acquired sem)}" using D(5) by blast
  from card_mono [OF _ this] have "card ?D \<le> unat (acquired sem)" by simp
  then have r: "unat (released ?sem) = unat (released sem) + unat n"
    using D(2,3) card by (simp add: semaphore_release_n_def unat_word_ariths)
  have a: "acquired ?sem = acquired sem" by (simp add: semaphore_release_n_def)
  have un: "(\<Union>x. units (pc x)) = units (pc h) \<union> (\<Union>x \<in> - {h}. units (pc x))" by auto
  show ?thesis
  proof (rule sem_invI [of ?D])
    show "?D \<union> (\<Union>k. units (?pc k)) = {0<..unat (acquired ?sem)}"
      unfolding units_fun_upd a using D(5) un by auto
    show "?D \<subseteq> {..unat (released ?sem)}" using D(4) t r h by auto
    show "?D \<inter> units (?pc k) = {}" for k using D(6) [of k] D(7) [of h k] by auto
    show "units (?pc k) \<inter> units (?pc k') = {}" if "k \<noteq> k'" for k k'
      using D(7) [OF that] by auto
    show "t' \<le> released ?sem" if "?pc k = Has t' m" for k t' m
      using that D(8) [of k t' m] r by (auto simp: word_le_nat_alt split: if_splits)
    show "0 < m \<and> m \<le> T \<and> m \<le> t'" if "?pc k = Waiting t' m \<or> ?pc k = Has t' m" for k t' m
      using that D(9) [of k t' m] by (auto split: if_splits)
  qed (use D r card a in auto)
qed

lemma sem_inv_step: "sem_step T st st' \<Longrightarrow> sem_inv T st \<Longrightarrow> sem_inv T st'"
  by (induction rule: sem_step.induct) (auto intro: sem_inv_take sem_inv_go sem_inv_release)

lemma sem_inv_run:
  assumes "(sem_step T)\<^sup>*\<^sup>* (semaphore_init T, \<lambda>_. Out) st"
  shows "sem_inv T st"
  using assms
proof (induction rule: rtranclp_induct)
  case base
  show ?case by (rule sem_inv_init)
next
  case (step st st')
  from sem_inv_step [OF step(2,3)] show ?case .
qed

section \<open>What the semaphore guarantees\<close>

lemma count_Has: "count pc \<noteq> 0 \<Longrightarrow> \<exists>t n. pc = Has t n"
  by (cases pc) simp_all

lemma card_units_Has: "n \<le> t \<Longrightarrow> card (units (Has t n)) = unat n"
  by (simp add: word_le_nat_alt)

text \<open>The harts never have more than \<open>T\<close> units together.\<close>

lemma sem_units_bound:
  assumes inv: "sem_inv T (sem, pc)" and fin: "finite H"
  shows "(\<Sum>h \<in> H. count (pc h)) \<le> unat T"
proof -
  from inv obtain D where "sem_split T sem pc D" by (auto simp: sem_inv_def)
  note D = sem_splitD [OF this]
  let ?G = "{h \<in> H. \<exists>t n. pc h = Has t n}"
  have fG: "finite ?G" using fin by simp
  have c: "count (pc h) = card (units (pc h))" if "h \<in> ?G" for h
    using that D(9) [of h] card_units_Has by fastforce
  have "(\<Sum>h \<in> H. count (pc h)) = (\<Sum>h \<in> ?G. count (pc h))"
    by (rule sum.mono_neutral_right [OF fin]) (use count_Has in auto)
  also have "\<dots> = (\<Sum>h \<in> ?G. card (units (pc h)))" by (rule sum.cong) (use c in auto)
  also have "\<dots> = card (\<Union>h \<in> ?G. units (pc h))"
    by (rule card_UN_disjoint [symmetric]) (use fG D(7) in auto)
  finally have sum: "(\<Sum>h \<in> H. count (pc h)) = card (\<Union>h \<in> ?G. units (pc h))" (is "_ = card ?U") .
  have finU: "finite ?U" using fG by simp
  have "x \<le> unat (released sem)" if x: "x \<in> units (pc h)" and h: "pc h = Has t n" for x h t n
    using x h D(8) [OF h] by (simp add: word_le_nat_alt)
  then have sub: "D \<union> ?U \<subseteq> {..unat (released sem)}" using D(4) by blast
  have zero: "0 \<notin> D \<union> ?U"
  proof
    assume "0 \<in> D \<union> ?U"
    then have "(0 :: nat) \<in> {0<..unat (acquired sem)}" unfolding D(5) [symmetric] by blast
    then show False by simp
  qed
  have gen: "X \<subseteq> {0<..m}" if "X \<subseteq> {..m}" "0 \<notin> X" for X and m :: nat
    using that by (auto intro: gr0I)
  from card_mono [OF _ gen [OF sub zero]] have "card (D \<union> ?U) \<le> unat (released sem)" by simp
  moreover have "D \<inter> ?U = {}" using D(6) by blast
  ultimately have "card D + card ?U \<le> unat T + card D"
    using D(1,2) finU by (simp add: card_Un_disjoint)
  with sum show ?thesis by simp
qed

text \<open>If nobody has units, the hart with the lowest ticket can go on: the semaphore never deadlocks.\<close>

lemma sem_progress:
  assumes inv: "sem_inv T (sem, pc)" and out: "\<And>h t n. pc h \<noteq> Has t n" and w: "pc h = Waiting t n"
    and low: "\<And>h' t' n'. pc h' = Waiting t' n' \<Longrightarrow> t \<le> t'"
  shows "\<not> semaphore_waits sem t"
proof -
  from inv obtain D where "sem_split T sem pc D" by (auto simp: sem_inv_def)
  note D = sem_splitD [OF this]
  have n: "unat n \<le> unat t" "unat n \<le> unat T" "0 < unat n"
    using D(9) [of h t n] w by (simp_all add: word_le_nat_alt word_less_nat_alt)
  have "x \<in> D" if x: "0 < x" "x \<le> unat t - unat n" for x
  proof (rule ccontr)
    assume "x \<notin> D"
    have ta: "unat t \<in> units (pc h)" using w n by simp
    then have "unat t \<in> {0<..unat (acquired sem)}" unfolding D(5) [symmetric] by blast
    with x have "x \<in> D \<union> (\<Union>h. units (pc h))" unfolding D(5) by auto
    with \<open>x \<notin> D\<close> obtain k where k: "x \<in> units (pc k)" by blast
    with out obtain t' n' where k': "pc k = Waiting t' n'" by (cases "pc k") auto
    have "k \<noteq> h" using k x w by auto
    have "unat t \<le> unat t'" using low [OF k'] by (simp add: word_le_nat_alt)
    then have "unat t \<in> units (pc k)" using k k' x by auto
    with ta D(7) [OF \<open>k \<noteq> h\<close>] show False by blast
  qed
  then have "{0<..unat t - unat n} \<subseteq> D" by auto
  from card_mono [OF D(1) this] have "unat t - unat n \<le> card D" by simp
  with D(2) n show ?thesis by (simp add: semaphore_waits_def word_less_nat_alt)
qed

section \<open>Properties of the locks\<close>

text \<open>C31. Mutual exclusion of the test-and-set lock: in every interleaving of the harts at most one
  of them is inside, and the lock word is non-zero exactly while one is.\<close>

theorem taslock_mutual_exclusion:
  assumes "tas_step\<^sup>*\<^sup>* (tas_init, \<lambda>_. Outside) (l, pc)"
  shows "(l \<noteq> 0 \<longleftrightarrow> (\<exists>h. pc h = Inside)) \<and> (\<forall>h h'. pc h = Inside \<longrightarrow> pc h' = Inside \<longrightarrow> h = h')"
  using tas_inv_run [OF assms] by (simp add: tas_inv_def)

lemma tas_enter: "tas_step\<^sup>*\<^sup>* (tas_init, \<lambda>_. Outside) (1, (\<lambda>_. Outside)(h := Inside))"
proof -
  define o0 :: "nat \<Rightarrow> tas_pc" where "o0 = (\<lambda>_. Outside)"
  have "tas_step (0, o0) (0, o0(h := Spinning))" by (rule tas_step.call) (simp add: o0_def)
  moreover have "tas_step (0, o0(h := Spinning)) (0, o0(h := Spinning, h := Trying))"
    by (rule tas_step.free) simp_all
  moreover have "tas_step (0, o0(h := Trying)) (1, o0(h := Trying, h := if True then Inside else Spinning))"
    by (rule tas_step.test) (simp_all add: tas_fetch_or_def)
  ultimately show ?thesis
    by (simp add: tas_init_def o0_def [symmetric] converse_rtranclp_into_rtranclp)
qed

theorem taslock_mutual_exclusion_witness: "\<exists>pc. tas_step\<^sup>*\<^sup>* (tas_init, \<lambda>_. Outside) (1, pc)
  \<and> (\<exists>h. pc h = Inside) \<and> (\<forall>h h'. pc h = Inside \<longrightarrow> pc h' = Inside \<longrightarrow> h = h')"
proof -
  obtain pc where pc: "tas_step\<^sup>*\<^sup>* (tas_init, \<lambda>_. Outside) (1, pc)" using tas_enter by blast
  from taslock_mutual_exclusion [OF pc] have "\<exists>h. pc h = Inside" by simp
  with pc taslock_mutual_exclusion [OF pc] show ?thesis by blast
qed

text \<open>C32. The semaphore never gives out more than its \<open>T\<close> units; in particular a hart that holds all
  of them, as an update of the schedule does, excludes every other holder.\<close>

theorem semaphore_exclusion:
  assumes "(sem_step T)\<^sup>*\<^sup>* (semaphore_init T, \<lambda>_. Out) (sem, pc)"
  shows "(finite H \<longrightarrow> (\<Sum>h \<in> H. count (pc h)) \<le> unat T)
    \<and> (\<forall>h h' t t' n. pc h = Has t T \<longrightarrow> pc h' = Has t' n \<longrightarrow> h = h')"
proof (intro conjI allI impI)
  have inv: "sem_inv T (sem, pc)" by (rule sem_inv_run [OF assms])
  show "(\<Sum>h \<in> H. count (pc h)) \<le> unat T" if "finite H" by (rule sem_units_bound [OF inv that])
  fix h h' t t' n
  assume h: "pc h = Has t T" and h': "pc h' = Has t' n"
  show "h = h'"
  proof (rule ccontr)
    assume "h \<noteq> h'"
    with sem_units_bound [OF inv, of "{h, h'}"] h h' have "unat n = 0" by simp
    moreover from inv obtain D where "sem_split T sem pc D" by (auto simp: sem_inv_def)
    from sem_splitD(9) [OF this, of h' t' n] h' have "0 < n" by simp
    ultimately show False by (simp add: word_less_nat_alt)
  qed
qed

lemma sem_get: "T \<noteq> 0 \<Longrightarrow> unat T < 2 ^ 63 \<Longrightarrow>
  (sem_step T)\<^sup>*\<^sup>* (semaphore_init T, \<lambda>_. Out) (\<lparr>released = T, acquired = T\<rparr>, (\<lambda>_. Out)(h := Has T T))"
proof -
  define o0 :: "nat \<Rightarrow> sem_pc" where "o0 = (\<lambda>_. Out)"
  let ?s = "\<lparr>released = T, acquired = T\<rparr>"
  assume T: "T \<noteq> 0" "unat T < 2 ^ 63"
  have "sem_step T (semaphore_init T, o0) (?s, o0(h := Waiting T T))"
    using T by (intro sem_step.take)
      (simp_all add: o0_def semaphore_init_def semaphore_take_def word_neq_0_conv)
  moreover have "sem_step T (?s, o0(h := Waiting T T)) (?s, o0(h := Waiting T T, h := Has T T))"
    by (rule sem_step.go) (simp_all add: semaphore_waits_def)
  ultimately show ?thesis by (simp add: o0_def [symmetric] converse_rtranclp_into_rtranclp)
qed

theorem semaphore_exclusion_witness:
  "(\<Sum>h \<in> {0, 1 :: nat}. count (((\<lambda>_. Out)(0 := Has 4 4)) h)) \<le> unat (4 :: u64)"
proof -
  have "(4 :: u64) \<noteq> 0" "unat (4 :: u64) < 2 ^ 63" by simp_all
  from semaphore_exclusion [OF sem_get [OF this, of 0], of "{0, 1}"] show ?thesis by blast
qed

text \<open>C33. The semaphore does not deadlock: when harts wait and no hart holds units, the hart with the
  lowest ticket leaves its waiting loop.\<close>

theorem semaphore_no_deadlock:
  assumes "(sem_step T)\<^sup>*\<^sup>* (semaphore_init T, \<lambda>_. Out) (sem, pc)"
    and "pc h = Waiting t n" "\<And>h t n. pc h \<noteq> Has t n"
  shows "\<exists>h t n. pc h = Waiting t n \<and> \<not> semaphore_waits sem t
    \<and> sem_step T (sem, pc) (sem, pc(h := Has t n))"
proof -
  have inv: "sem_inv T (sem, pc)" by (rule sem_inv_run [OF assms(1)])
  let ?W = "{t. \<exists>h n. pc h = Waiting t n}"
  from assms(2) have "t \<in> ?W" by blast
  then have "(LEAST t. t \<in> ?W) \<in> ?W" by (rule LeastI)
  then obtain h' n' where w: "pc h' = Waiting (LEAST t. t \<in> ?W) n'" by blast
  have "\<not> semaphore_waits sem (LEAST t. t \<in> ?W)"
    by (rule sem_progress [OF inv assms(3) w]) (auto intro: Least_le)
  with w show ?thesis by (blast intro: sem_step.go)
qed

theorem semaphore_no_deadlock_witness:
  "\<exists>h t n. ((\<lambda>_. Out)(2 :: nat := Waiting 1 1)) h = Waiting t n \<and> \<not> semaphore_waits \<lparr>released = 4, acquired = 1\<rparr> t"
proof -
  have "sem_step 4 (semaphore_init 4, \<lambda>_. Out) (\<lparr>released = 4, acquired = 1\<rparr>, (\<lambda>_. Out)(2 := Waiting 1 1))"
    by (rule sem_step.take) (simp_all add: semaphore_init_def semaphore_take_def)
  then have r: "(sem_step 4)\<^sup>*\<^sup>* (semaphore_init 4, \<lambda>_. Out) (\<lparr>released = 4, acquired = 1\<rparr>, (\<lambda>_. Out)(2 := Waiting 1 1))"
    by blast
  have "((\<lambda>_. Out)(2 := Waiting 1 1)) (h :: nat) \<noteq> Has t n" for h t n by simp
  from semaphore_no_deadlock [OF r _ this, of 2 1 1] show ?thesis by (simp only: fun_upd_same) blast
qed

end
