(* ===== verification/Spec2Isabelle.thy ===== *)
theory Spec2Isabelle
  imports Exercise DiskService Integrity Dispatch Locks
begin

text \<open>
  S3K, a capability-based separation kernel for RISC-V.

  The program. The kernel (\<open>kernel/src\<close>) runs on every hart. It keeps a table of capabilities, an array
  of process control blocks, a table of IPC channels and a schedule with one owner per hart and time
  slot. A trap of a user process enters \<open>trap_handler\<close>, which dispatches system calls, exceptions and
  interrupts; a system call is validated, run under the capability lock and may hand the hart to
  another process; the scheduler gives the hart to the owner of the next slot. Memory protection is
  the PMP configuration of the process that runs, which changes only when PMP capabilities are loaded,
  unloaded, deleted or revoked. The user library (\<open>common/src/s3k\<close>) wraps the system calls, and small
  serial drivers and formatting functions (\<open>common/src/drivers\<close>, \<open>common/src/altc\<close>) serve both sides. The programs
  under \<open>projects\<close> use the library; one of them has a driver for a virtio disk.

  How the code is represented. An operation is a function on the record \<open>kstate\<close> of all kernel data
  with a result in \<open>option\<close>: \<open>None\<close> is a failed \<open>KASSERT\<close>, undefined behaviour of C (array bounds, null
  pointers, shifts) or a loop that does not end. Pointers to table entries and processes are indices.
  Integers have the width of the C types, as words. The clock and the interrupt lines, which change
  while the kernel runs, are sequences of values that are read one after the other (\<open>mtime\<close>, \<open>mip\<close>, \<open>reads\<close>).
  A hart runs one operation at a time; the interleaving of harts inside an operation is the subject of
  \<open>Locks\<close>, the interleaving of whole traps on all harts the subject of \<open>Machine\<close>.

  The theories.
  \<^item> \<open>Prelude\<close>: words, failing computations and their rules, lists. \<open>Config\<close>: \<open>kernel/s3k_conf.h\<close>,
    \<open>common/inc/plat/qemu_virt4.h\<close>, \<open>kernel/inc/error.h\<close>.
  \<^item> \<open>Caps\<close>: the capability union, its bit layout, constructors and validity (\<open>kernel/inc/cap_types.h\<close>,
    \<open>cap_util.h\<close>, \<open>kernel/src/cap_util.c\<close>). \<open>KState\<close>: the data of the kernel, the clock, preemption.
  \<^item> \<open>CapTable\<close> (\<open>cap_table.c\<close>): the entries as a doubly linked ring. The interface \<open>derivation_list\<close> states the
    table as a list with insertion, removal and replacement; the C functions are its instance.
  \<^item> \<open>Proc\<close> (\<open>proc.c\<close>): process states and PMP slots, refined from the abstract life cycle \<open>life\<close>.
  \<^item> \<open>Sched\<close> (\<open>sched.c\<close>): the packed slot table as an instance of the interface \<open>schedule\<close>, fetching, waiting.
  \<^item> \<open>Channels\<close> and \<open>CapIpc\<close> (\<open>cap_ipc.c\<close>), \<open>CapOps\<close> and \<open>Revoke\<close> (\<open>cap_ops.c\<close>), \<open>CapPmp\<close> (\<open>cap_pmp.c\<close>),
    \<open>CapMonitor\<close> (\<open>cap_monitor.c\<close>). \<open>Revoke\<close> proves termination and effect of the revocation loop once
    from the interface \<open>revoke_handler\<close>, whose instances are the handlers of the five types that have children.
  \<^item> \<open>Invariant\<close>: the invariant \<open>kinv\<close> of the kernel state.
  \<^item> \<open>Syscall\<close> (\<open>syscall.c\<close>, \<open>cap_lock.c\<close>), \<open>Trap\<close> (\<open>trap.c\<close>, \<open>exception.c\<close>, \<open>interrupt.c\<close>), \<open>Kernel\<close> (initialisation).
  \<^item> \<open>Authority\<close>: the rights that capabilities grant, and that every system call changes the table by
    elementary steps that create no rights. \<open>Integrity\<close>: what a system call leaves alone. \<open>Dispatch\<close>: which
    hart takes a process, in closed form, and progress of the scheduler.
  \<^item> \<open>Machine\<close>: the reachable states of all harts, with arbitrary user code. \<open>Boot\<close>: concrete states.
  \<^item> \<open>S3kLib\<close> and \<open>UserSyscall\<close>: the user library; \<open>UserKernel\<close>: the library on top of the kernel.
  \<^item> \<open>Apps\<close>: the helpers of the tutorials (\<open>projects/tutorial-commons/utils.h\<close>) and the programs \<open>hello\<close>,
    \<open>ping-pong\<close> and \<open>trapped\<close>; \<open>Tutorials\<close>: the programs of the nine tutorials and of \<open>projects/exercise\<close>.
    \<open>AppsKernel\<close>: their library calls on the kernel, as steps between views of its state; \<open>Hello\<close>: the
    program \<open>hello\<close> from boot to the second process being ready; \<open>Exercise\<close>: the set-up of the exercise.
  \<^item> \<open>Virtio\<close>: the disk driver and the disk functions of the file system tutorial (\<open>virtio_disk.c\<close>, \<open>diskio.c\<close>),
    with the device as an argument; \<open>DiskService\<close>: the contract of the device, and that requests return,
    transfer one sector and give their descriptors back.
  \<^item> \<open>Locks\<close>: the test-and-set lock and the ticket semaphore under all interleavings of the harts.
  \<^item> \<open>Console\<close>: formatting, serial drivers (interface \<open>serial_port\<close>, two instances), kernel messages.

  What the theorems show. Of the whole machine: the invariant, exclusive execution, memory isolation and
  confinement of authority in every reachable state, start-up. Of system calls: no fault for arguments
  that fit and the exact condition for returning, integrity of other processes, harmless errors. Of the
  components: the refinement of lists by the ring and of the life cycle by the flag word, derivation
  and revocation, scheduling and progress, two set-up programs from boot on, monitors, PMP frames, messages,
  locks, round trips of encodings and of the disk, formatting. A few theorems state behaviour that the code hardly intends: truncated
  arguments, a memory revocation that goes too far, the last hart in the scheduler, the boot frame that
  covers the kernel, moving the only capability, suspending a process that is leaving for a channel, disk
  transfers of several sectors that all go to the first one.

  Bounds. There is no fuel: loops that end by themselves are recursive functions, the others are
  \<open>partial_function (option)\<close>, and that they return is proved: revocation because timer interrupts keep
  coming or the ring has an end, the scheduler under the conditions of \<open>sched_returns\<close>, polling of a port
  when it becomes ready, a disk request when the device serves it. The constants are those of the default build with four harts; the proofs
  use them through the bounds listed in \<open>Config\<close>.

  Not modelled. The assembly (\<open>head.S\<close>, \<open>trap.S\<close>, \<open>stack.S\<close>, \<open>start.S\<close>): saving and restoring registers is the identity,
  and the PMP reload of \<open>trap.S\<close> is \<open>trap_resume\<close>. Messages that kernel functions print. Memory contents and
  the check of addresses by the PMP hardware: the theorems are about its configuration. Preemption
  inside one kernel operation by another hart, which the lock and the semaphore exclude for the data they
  protect; the flag words of processes, which are outside both, are treated as atomic steps
  (\<open>suspend_while_leaving\<close> shows what can happen between two of them). The vendored FAT file system
  \<open>ff.c\<close>, whose operations are arguments of the programs that use it, and the file server in Rust.
\<close>

section \<open>The system as a whole\<close>



text \<open>C2. Type safety of the capability table: in every reachable state each entry holds a capability of one
  of the types of the kernel, never an unknown one, that its 64-bit representation determines, and
  its fields are in range: harts exist, begin, mark and end are ordered and within the resource,
  a loaded frame names a PMP slot and an unloaded one none, and a socket has a mode and a channel of the kernel.\<close>

theorem reachable_capabilities:
  assumes "reachable s cur" "c < length (ctable s)"
  shows "cap_of_raw (raw_of_cap (cte_cap (ctable s) c)) = cte_cap (ctable s) c
    \<and> (case cte_cap (ctable s) c of
        NoCap r \<Rightarrow> r = 0
      | TimeCap pad hart bgn mrk end' \<Rightarrow>
          hart_ok (unat hart) \<and> bgn \<le> mrk \<and> mrk \<le> end' \<and> bgn < end' \<and> unat end' \<le> S3K_SLOT_CNT
      | MemCap rwx lck tag bgn mrk end' \<Rightarrow> bgn \<le> mrk \<and> bgn < end' \<and> unat end' \<le> 2 ^ 15
      | PmpCap rwx used slot addr \<Rightarrow> if used then unat slot < S3K_PMP_CNT else slot = 0
      | MonCap pad bgn mrk end' \<Rightarrow> bgn \<le> mrk \<and> bgn < end' \<and> unat end' \<le> S3K_PROC_CNT
      | ChanCap pad bgn mrk end' \<Rightarrow> bgn \<le> mrk \<and> bgn < end' \<and> unat end' \<le> S3K_CHAN_CNT
      | SockCap mode perm chan tag \<Rightarrow> (mode = IPC_YIELD \<or> mode = IPC_NOYIELD) \<and> unat chan < S3K_CHAN_CNT
      | OtherCap t r \<Rightarrow> False)"
proof -
  have ok: "cap_ok (cte_cap (ctable s) c)"
    using kinv_cap_ok [OF machine_okD(1) [OF reachable_ok [OF assms(1)]] assms(2)] .
  then have "cap_canonical (cte_cap (ctable s) c)" by (cases "cte_cap (ctable s) c") simp_all
  note rt = cap_roundtrip_lemma [OF this]
  from ok show ?thesis by (intro conjI rt) (cases "cte_cap (ctable s) c", simp_all)
qed

theorem reachable_capabilities_witness:
  "cap_of_raw (raw_of_cap (cte_cap (ctable boot0) 1)) = cte_cap (ctable boot0) 1"
proof -
  have "1 < length (ctable boot0)"
    using kinv_lengths(1) [OF machine_okD(1) [OF reachable_ok [OF boot0_reachable]]] by (simp add: config_defs)
  from reachable_capabilities [OF boot0_reachable this] show ?thesis by blast
qed

text \<open>C3. Memory isolation: whenever a slot of the PMP configuration of a process is in use, in any
  reachable state, the process holds a PMP capability that is loaded in that slot, the
  configuration is the one of that capability (its permissions, NAPOT mode, its address), and
  every byte and permission it opens is one that the initial capabilities give.\<close>

theorem pmp_isolation:
  assumes "reachable s cur" "p < S3K_PROC_CNT" "k < S3K_PMP_CNT" "pmpcfg (procs s ! p) ! k \<noteq> 0"
  shows "\<exists>c rwx slot addr. c < length (ctable s) \<and> cte_pid c = p
    \<and> cte_cap (ctable s) c = PmpCap rwx True slot addr \<and> unat slot = k
    \<and> pmpcfg (procs s ! p) ! k = ucast rwx OR 0x18 \<and> pmpaddr (procs s ! p) ! k = ucast addr
    \<and> (\<forall>a j. grants (PmpCap rwx True slot addr) (RMem a j) \<longrightarrow> boot_right (RMem a j))"
proof -
  have inv: "kinv s" using machine_okD(1) [OF reachable_ok [OF assms(1)]] .
  note U = kinvD(5) [OF inv]
  have "p < length (procs s)" using assms(2) kinv_lengths(2) [OF inv] by simp
  from pmp_invD(3) [OF U this assms(3,4)] obtain c rwx a
    where c: "pmp_used (ctable s) c = Some (rwx, k, a)" "cte_pid c = p" by blast
  then obtain slot where cap: "c < length (ctable s)" "cte_cap (ctable s) c = PmpCap rwx True slot a" "unat slot = k"
    by (auto simp: pmp_used_def split: if_splits cap.splits)
  have "boot_right (RMem x j)" if "grants (PmpCap rwx True slot a) (RMem x j)" for x j
    using reachable_authority [OF assms(1), of "RMem x j"] that cap(1,2) unfolding held_def by metis
  with pmp_invD(1) [OF U c(1)] c(2) cap show ?thesis by blast
qed

theorem pmp_isolation_witness:
  "\<exists>c rwx slot addr. c < length (ctable boot0) \<and> cte_pid c = 0
    \<and> cte_cap (ctable boot0) c = PmpCap rwx True slot addr"
proof -
  have "pmp_used (ctable boot0) 0 = Some (7, 0, 0x2007ffff)"
    using boot0_facts(5) kinv_lengths(1) [OF boot0_facts(1)] config_bounds(1,3) by (simp add: pmp_used_cap)
  from pmp_invD(1) [OF kinvD(5) [OF boot0_facts(1)] this] have "pmpcfg (procs boot0 ! 0) ! 0 \<noteq> 0"
    using napot_cfg_nonzero by (simp add: cte_pid_def)
  from pmp_isolation [OF boot0_reachable config_values(1) _ this] show ?thesis
    by (auto simp: config_defs)
qed

text \<open>C4. Confinement: no sequence of system calls gives any process a right (on a slot of
  the schedule, a byte of memory, a process or a channel) that the initial capabilities of the
  boot process do not give.\<close>

theorem authority_confined:
  assumes "reachable s cur" "c < length (ctable s)" "grants (cte_cap (ctable s) c) r"
  shows "boot_right r"
  using reachable_authority [OF assms(1)] assms(2,3) by (auto simp: held_def)

theorem authority_confined_witness: "boot_right (RProc 1)"
proof -
  have "grants (cte_cap (ctable boot0) 8) (RProc 1)" using boot0_facts(3) [of 8] by (simp add: init_list_def)
  moreover have "8 < length (ctable boot0)" using kinv_lengths(1) [OF boot0_facts(1)] by (simp add: config_defs)
  ultimately show ?thesis using authority_confined [OF boot0_reachable] by blast
qed

text \<open>C24. The kernel starts: initialisation returns, for any contents of the padding bits, and
  establishes the invariant. The table holds exactly the initial capabilities, in a ring, all of
  process 0; process 0 owns every slot of every hart, is ready at the entry point with its PMP frame
  loaded, and every other process is suspended.\<close>

theorem kernel_starts:
  "\<exists>s. kernel_init pad (zero_state hart time irq) = Some s \<and> kinv s
    \<and> ring (ctable s) [0, 25, 9, 8, 7, 6, 5, 4, 3, 2, 1]
    \<and> (\<forall>c. 0 < c \<longrightarrow> c < length (ctable s) \<longrightarrow> cte_cap (ctable s) c = (if c < 26 then init_list pad ! c else NoCap 0))
    \<and> cte_cap (ctable s) 0 = PmpCap 7 True 0 0x2007ffff
    \<and> (\<forall>h i. hart_ok h \<longrightarrow> i < S3K_SLOT_CNT \<longrightarrow> slot_owner (slots s) h i = Some (0, S3K_SLOT_CNT - i))
    \<and> (\<forall>p < S3K_PROC_CNT. pstate (procs s ! p) = (if p = 0 then 0 else PSF_SUSPENDED))
    \<and> get_reg s 0 REG_PC = payload"
proof -
  from kernel_init_ok [of pad hart time irq] obtain s where s: "kernel_init pad (zero_state hart time irq) = Some s" "kinv s"
    "ring (ctable s) [0, 25, 9, 8, 7, 6, 5, 4, 3, 2, 1]"
    "\<forall>c. 0 < c \<longrightarrow> c < 26 \<longrightarrow> cte_cap (ctable s) c = init_list pad ! c"
    "\<forall>c. 26 \<le> c \<longrightarrow> c < length (ctable s) \<longrightarrow> cte_cap (ctable s) c = NoCap 0"
    "cte_cap (ctable s) 0 = PmpCap 7 True 0 0x2007ffff"
    "\<forall>h i. hart_ok h \<longrightarrow> i < S3K_SLOT_CNT \<longrightarrow> slot_owner (slots s) h i = Some (0, S3K_SLOT_CNT - i)"
    "\<forall>p < S3K_PROC_CNT. pstate (procs s ! p) = (if p = 0 then 0 else PSF_SUSPENDED)" "get_reg s 0 REG_PC = payload"
    by blast
  have "\<forall>c. 0 < c \<longrightarrow> c < length (ctable s) \<longrightarrow> cte_cap (ctable s) c = (if c < 26 then init_list pad ! c else NoCap 0)"
    using s(4,5) by (simp add: not_less)
  with s show ?thesis by blast
qed

theorem kernel_starts_witness: "\<exists>s. kernel_init pad0 (zero_state 0 (\<lambda>_. 0) irq0) = Some s \<and> kinv s"
  using kernel_starts [of pad0 0 "\<lambda>_. 0" irq0] by blast

text \<open>C39. The PMP frame that process 0 starts with gives it read, write and execute access to the memory
  of the kernel itself, which \<open>kernel/linker.ld\<close> places in the 64 KiB from \<open>0x80000000\<close>.\<close>

theorem boot_frame_covers_kernel:
  assumes "kernel_init pad (zero_state hart time irq) = Some s" "0x80000000 \<le> a" "a < 0x80010000" "k < 3"
  shows "pmpcfg (procs s ! 0) ! 0 = 0x1f \<and> pmpaddr (procs s ! 0) ! 0 = 0x2007ffff
    \<and> grants (cte_cap (ctable s) 0) (RMem a k)"
proof -
  have cap: "kinv s" "cte_cap (ctable s) 0 = PmpCap 7 True 0 0x2007ffff"
    using kernel_init_ok [of pad hart time irq] assms(1) by (auto simp only: option.inject)
  have len: "0 < length (ctable s)" using kinv_lengths(1) [OF cap(1)] by (simp add: config_defs)
  have "pmp_used (ctable s) 0 = Some (7, 0, 0x2007ffff)" using cap(2) len by (simp add: pmp_used_cap)
  from pmp_invD(1) [OF kinvD(5) [OF cap(1)] this]
  have "pmpcfg (procs s ! 0) ! 0 = ucast (7 :: rwx_t) OR 0x18" "pmpaddr (procs s ! 0) ! 0 = ucast (0x2007ffff :: 48 word)"
    by (simp_all add: cte_pid_def)
  moreover have "(ucast (7 :: rwx_t) :: u8) OR 0x18 = 0x1f" "(ucast (0x2007ffff :: 48 word) :: u64) = 0x2007ffff" by code_simp+
  moreover have "pmp_napot_decode 0x2007ffff = (0x80000000, 0x400000)" by code_simp
  moreover have "bit (7 :: rwx_t) k"
  proof -
    have "k = 0 \<or> k = 1 \<or> k = 2" using assms(4) by auto
    then show ?thesis by (auto simp: bit_numeral_rec numeral_2_eq_2)
  qed
  ultimately show ?thesis using cap(2) assms(2,3) by simp
qed

theorem boot_frame_covers_kernel_witness: "grants (cte_cap (ctable boot0) 0) (RMem 0x80000000 1)"
  using boot_frame_covers_kernel [OF boot0_init, of "0x80000000" 1] by simp

section \<open>System calls\<close>

text \<open>C5. A system call whose register arguments fit in the types that the validators check never
  fails an assertion, never leaves an array and always returns; the invariant holds
  afterwards, the caller is still busy, the processes on other harts go on running, and the
  process that runs next is a running process that no other hart executes.\<close>

theorem syscall_no_fault:
  assumes "kinv s" "p < S3K_PROC_CNT" "running s p" "timer_fires s" "cap_lock s = 0"
    and "\<And>c. syscall_of (get_reg s p REG_T0) = Some c \<Longrightarrow> args_fit c (sys_args s p)"
  shows "\<exists>n s'. syscall_handler s p = Some (n, s') \<and> kinv s' \<and> busy s' p
    \<and> (\<forall>q < S3K_PROC_CNT. q \<noteq> p \<longrightarrow> running s q \<longrightarrow> running s' q \<and> n \<noteq> Some q)
    \<and> (\<forall>q. n = Some q \<longrightarrow> q < S3K_PROC_CNT \<and> running s' q)"
  using okD [OF syscall_handler_ok [OF assms]] by (auto simp: handler_post_def)

theorem syscall_no_fault_witness:
  "\<exists>n s'. syscall_handler (call0 SYS_CAP_REVOKE 8 0 0) 0 = Some (n, s') \<and> kinv s'"
proof -
  have "args_fit c (sys_args (call0 SYS_CAP_REVOKE 8 0 0) 0)"
    if "syscall_of (get_reg (call0 SYS_CAP_REVOKE 8 0 0) 0 REG_T0) = Some c" for c
    using that by (auto simp: call0_syscall call0_args)
  from syscall_no_fault [OF call0_facts(1) config_values(1) call0_facts(2-4) this] show ?thesis by blast
qed

text \<open>C6. A validated system call that is not preempted returns exactly when its arguments fit:
  the validators look at the arguments truncated to 16 or 32 bits, the handlers use all 64
  bits, so an index such as \<open>0x10000\<close> passes validation and makes the kernel fail.\<close>

theorem syscall_returns_iff:
  assumes "kinv s" "p < S3K_PROC_CNT" "running s p" "timer_fires s" "cap_lock s = 0"
    and "syscall_of (get_reg s p REG_T0) = Some c" "validators c (sys_args s p) = SUCCESS"
    and "mip s (reads s) AND 0x80 = 0"
  shows "syscall_handler s p \<noteq> None \<longleftrightarrow> args_fit c (sys_args s p)"
  using syscall_returns_lemma [OF assms] .

theorem syscall_returns_iff_witness:
  "\<exists>s p. kinv s \<and> running s p \<and> validators SYS_CAP_READ (sys_args s p) = SUCCESS
    \<and> syscall_handler s p = None"
proof -
  let ?s = "(call0 SYS_CAP_READ 0x10000 0 0)\<lparr>reads := 0\<rparr>"
  have s: "kinv ?s" "running ?s 0" "timer_fires ?s" "cap_lock ?s = 0" "mip ?s (reads ?s) AND 0x80 = 0"
    by (simp_all add: call0_facts irq0_def)
  have r: "get_reg ?s 0 = get_reg (call0 SYS_CAP_READ 0x10000 0 0) 0" by (simp add: fun_eq_iff get_reg_def)
  have a: "sys_args ?s 0 = sys_args (call0 SYS_CAP_READ 0x10000 0 0) 0" by (simp add: sys_args_def r)
  have v: "validators SYS_CAP_READ (sys_args ?s 0) = SUCCESS"
    by (simp add: a validate_cap_read_def valid_idx_def call0_args config_defs)
  have c: "syscall_of (get_reg ?s 0 REG_T0) = Some SYS_CAP_READ" by (simp add: r call0_syscall)
  have "\<not> args_fit SYS_CAP_READ (sys_args ?s 0)" by (simp add: a call0_args)
  then have "\<not> syscall_handler ?s 0 \<noteq> None"
    unfolding syscall_returns_iff [OF s(1) config_values(1) s(2-4) c v s(5)] .
  then have "syscall_handler ?s 0 = None" by (simp only: not_not)
  with s(1,2) v show ?thesis by (intro exI conjI)
qed

text \<open>C25. A system call that does not pass validation, or whose number is unknown, changes nothing but
  the program counter of the caller and its register \<open>t0\<close>, which receives the error code.\<close>

theorem invalid_call_harmless:
  assumes "p < length (procs s)"
    and "case syscall_of (get_reg s p REG_T0) of None \<Rightarrow> e = ERR_INVALID_SYSCALL
      | Some c \<Rightarrow> e = validators c (sys_args s p)" "e \<noteq> SUCCESS"
  shows "\<exists>s'. syscall_handler s p = Some (Some p, s') \<and> s' = s\<lparr>procs := (procs s)[p := (procs s ! p)\<lparr>regs :=
    (regs (procs s ! p))(REG_PC := get_reg s p REG_PC + 4, REG_T0 := err_code e)\<rparr>]\<rparr>"
  using assms
  by (auto simp: syscall_handler_def inc_pc_def set_reg_def upd_proc_def get_reg_def split: option.splits)

theorem invalid_call_harmless_witness:
  "\<exists>s'. syscall_handler (call0 SYS_CAP_READ 99 0 0) 0 = Some (Some 0, s')
    \<and> ctable s' = ctable (call0 SYS_CAP_READ 99 0 0)"
proof -
  let ?s = "call0 SYS_CAP_READ 99 0 0"
  have "(0 :: nat) < length (procs ?s)" using kinv_lengths(2) [OF call0_facts(1)] config_values(1) by simp
  moreover have "validators SYS_CAP_READ (sys_args ?s 0) = ERR_INVALID_INDEX"
    by (simp add: validate_cap_read_def valid_idx_def call0_args config_defs)
  ultimately show ?thesis
    using invalid_call_harmless [of 0 ?s ERR_INVALID_INDEX] by (auto simp: call0_syscall)
qed

text \<open>C8. Integrity: a system call that works on the caller's own capabilities (everything but the
  monitor calls, communication and revocation) changes neither the control block of another
  process, its registers, state and memory protection included, nor another process's
  capabilities.\<close>

theorem syscall_integrity:
  assumes "kinv s" "p < S3K_PROC_CNT" "cap_lock s = 0" "syscall_handler s p = Some (n, s')"
    and "syscall_of (get_reg s p REG_T0) = Some c" "c \<in> local_calls"
  shows "(\<forall>q. q \<noteq> p \<longrightarrow> procs s' ! q = procs s ! q)
    \<and> (\<forall>d < length (ctable s). cte_pid d \<noteq> p \<longrightarrow> cte_cap (ctable s') d = cte_cap (ctable s) d)"
  using syscall_others [OF assms(1-3,5,6,4)] by (simp add: others_kept_def)

theorem syscall_integrity_witness:
  "\<exists>n s'. syscall_handler (call0 SYS_CAP_DELETE 8 0 0) 0 = Some (n, s')
    \<and> procs s' ! 1 = procs (call0 SYS_CAP_DELETE 8 0 0) ! 1"
proof -
  let ?s = "call0 SYS_CAP_DELETE 8 0 0"
  have "args_fit c (sys_args ?s 0)" if "syscall_of (get_reg ?s 0 REG_T0) = Some c" for c
    using that by (auto simp: call0_syscall call0_args)
  from okD [OF syscall_handler_ok [OF call0_facts(1) config_values(1) call0_facts(2-4) this]] obtain n s'
    where h: "syscall_handler ?s 0 = Some (n, s')" by auto
  have "SYS_CAP_DELETE \<in> local_calls" by (simp add: local_calls_def)
  from syscall_integrity [OF call0_facts(1) config_values(1) call0_facts(4) h call0_syscall this] h
  show ?thesis by auto
qed

text \<open>C26. The capability operations are atomic: one of them that reports an error has changed nothing.\<close>

theorem failed_operation_harmless:
  "(cap_move s src dst = Some (e, s') \<longrightarrow> e \<noteq> SUCCESS \<longrightarrow> s' = s)
  \<and> (cap_delete s src = Some (e, s') \<longrightarrow> e \<noteq> SUCCESS \<longrightarrow> s' = s)
  \<and> (cap_derive s src dst cp = Some (e, s') \<longrightarrow> e \<noteq> SUCCESS \<longrightarrow> s' = s)
  \<and> (cap_pmp_load s src k = Some (e, s') \<longrightarrow> e \<noteq> SUCCESS \<longrightarrow> s' = s)
  \<and> (cap_pmp_unload s src = Some (e, s') \<longrightarrow> e \<noteq> SUCCESS \<longrightarrow> s' = s)"
proof (intro conjI impI)
  assume "cap_derive s src dst cp = Some (e, s')" "e \<noteq> SUCCESS"
  then show "s' = s"
    by (cases "cte_cap (ctable s) src"; cases cp)
      (auto simp: cap_derive_def cap_derive_time_def cap_derive_memory_def cap_derive_pmp_def
        cap_derive_monitor_def cap_derive_channel_def cap_derive_socket_def bind_eq_Some_conv Let_def
        case_prod_beta split: if_splits)
next
  assume "cap_delete s src = Some (e, s')" "e \<noteq> SUCCESS"
  then show "s' = s"
    by (cases "cte_cap (ctable s) src")
      (auto simp: cap_delete_def bind_eq_Some_conv cap_delete_time_def cap_delete_memory_def cap_delete_pmp_def
      cap_delete_monitor_def cap_delete_channel_def cap_delete_socket_def split: if_splits)
qed (cases "cte_cap (ctable s) src"; auto simp: cap_move_def cap_pmp_load_def cap_pmp_unload_def bind_eq_Some_conv split: if_splits)+

theorem failed_operation_harmless_witness:
  "\<exists>s'. cap_move boot0 30 31 = Some (ERR_SRC_EMPTY, s') \<and> s' = boot0"
proof -
  have "cte_is_empty (ctable boot0) 30"
    using boot0_facts(4) [of 30] kinv_lengths(1) [OF boot0_facts(1)] by (simp add: cte_is_empty_def config_defs)
  then have m: "\<exists>s'. cap_move boot0 30 31 = Some (ERR_SRC_EMPTY, s')" by (simp add: cap_move_def)
  then obtain s' where s': "cap_move boot0 30 31 = Some (ERR_SRC_EMPTY, s')" by blast
  with failed_operation_harmless [of boot0 30 31 ERR_SRC_EMPTY s'] have "s' = boot0" by blast
  with s' show ?thesis by blast
qed

section \<open>Traps\<close>



text \<open>C27. An exception and the return instruction after it are a round trip: the program counter and the
  stack pointer are those of the exception, and the registers that describe the exception are
  cleared; in between the process is at its trap handler.\<close>

theorem exception_roundtrip:
  assumes "p < length (procs s)" "mcause \<noteq> ILLEGAL_INSTRUCTION" "w \<in> {MRET, SRET, URET}"
    and "exception_handler s p mcause mtval = (q, t)"
    and "exception_handler t p ILLEGAL_INSTRUCTION w = (q', u)"
  shows "q = p \<and> q' = p \<and> get_reg t p REG_PC = get_reg s p REG_TPC \<and> get_reg t p REG_SP = get_reg s p REG_TSP
    \<and> get_reg t p REG_ECAUSE = mcause \<and> get_reg t p REG_EVAL = mtval
    \<and> (\<forall>r. r \<notin> {REG_ECAUSE, REG_EVAL, REG_EPC, REG_ESP} \<longrightarrow> get_reg u p r = get_reg s p r)
    \<and> (\<forall>r. r \<in> {REG_ECAUSE, REG_EVAL, REG_EPC, REG_ESP} \<longrightarrow> get_reg u p r = 0)"
proof -
  have "exception_delegate s p mcause mtval = (q, t)" using assms(2,4) by (simp add: exception_handler_def)
  then have t: "q = p" "get_reg t p r = (if r = REG_SP then get_reg s p REG_TSP else if r = REG_PC then get_reg s p REG_TPC
      else if r = REG_ESP then get_reg s p REG_SP else if r = REG_EPC then get_reg s p REG_PC
      else if r = REG_EVAL then mtval else if r = REG_ECAUSE then mcause else get_reg s p r)"
    "length (procs t) = length (procs s)" for r
    using assms(1) by (auto simp: exception_delegate_def Let_def get_set_reg)
  have "exception_trap_return t p = (q', u)" using assms(3,5) by (auto simp: exception_handler_def)
  then have u: "q' = p" "get_reg u p r = (if r \<in> {REG_ESP, REG_EPC, REG_EVAL, REG_ECAUSE} then 0
      else if r = REG_SP then get_reg t p REG_ESP else if r = REG_PC then get_reg t p REG_EPC else get_reg t p r)" for r
    using assms(1) t(3) by (auto simp: exception_trap_return_def Let_def get_set_reg)
  show ?thesis by (simp add: t u)
qed

theorem exception_roundtrip_witness:
  "\<exists>t u. exception_handler run0 0 5 0x1000 = (0, t) \<and> exception_handler t 0 ILLEGAL_INSTRUCTION MRET = (0, u)
    \<and> get_reg u 0 REG_PC = get_reg run0 0 REG_PC"
proof -
  obtain q t where t: "exception_handler run0 0 5 0x1000 = (q, t)" by fastforce
  obtain q' u where u: "exception_handler t 0 ILLEGAL_INSTRUCTION MRET = (q', u)" by fastforce
  have "(0 :: nat) < length (procs run0)" using kinv_lengths(2) [OF run0_facts(1)] config_values(1) by simp
  from exception_roundtrip [OF this _ _ t u] t u show ?thesis by (auto simp: ILLEGAL_INSTRUCTION_def)
qed

section \<open>Derivation and revocation\<close>

text \<open>C11. A derivation hands out a part of what it is derived from: if the kernel accepts it, the new
  capability grants nothing that the source does not grant, and the source keeps its rights.\<close>

theorem derive_weakens:
  assumes "kinv s" "src < length (ctable s)" "dst < length (ctable s)"
    and "cap_derive s src dst cp = Some (SUCCESS, s')"
  shows "cte_cap (ctable s') dst = cp
    \<and> (\<forall>r. grants cp r \<longrightarrow> grants (cte_cap (ctable s) src) r)
    \<and> (\<forall>r. grants (cte_cap (ctable s') src) r \<longleftrightarrow> grants (cte_cap (ctable s) src) r)"
proof -
  have "src \<noteq> dst" using assms(4) by (auto simp: cap_derive_def split: if_splits)
  with cap_derive_shape [OF assms(1,2,4)] assms(2,3) show ?thesis
    by (auto simp: weaker_def cte_cap_ops cte_get_set)
qed

theorem derive_weakens_witness:
  "\<exists>s'. cap_derive boot0 4 30 (TimeCap 0 0 0 0 8) = Some (SUCCESS, s') \<and> cte_cap (ctable s') 30 = TimeCap 0 0 0 0 8"
proof -
  have len: "length (ctable boot0) = 64" using kinv_lengths(1) [OF boot0_facts(1)] by (simp add: config_defs)
  have "cte_cap (ctable boot0) 4 = TimeCap 0 0 0 0 32" "cte_is_empty (ctable boot0) 30"
    using boot0_facts(3) [of 4] boot0_facts(4) [of 30] len by (simp_all add: init_list_def pad0_def cte_is_empty_def)
  with derive_time_step [OF boot0_facts(1), of 4 30 0 0 0 32 8 0] len obtain s'
    where d: "cap_derive boot0 4 30 (TimeCap 0 0 0 0 8) = Some (SUCCESS, s')" by simp
  with derive_weakens [OF boot0_facts(1), of 4 30] len show ?thesis by auto
qed

text \<open>C15. Deriving a time slice from a fresh one and revoking it again is a round trip: both succeed,
  afterwards every slot of the schedule has the owner it had before, every entry of the table its
  capability, and the table its ring.\<close>

theorem time_derive_revoke:
  assumes inv: "kinv s" and r: "ring (ctable s) xs" "src \<in> set xs" "dst < length (ctable s)" "cte_cap (ctable s) dst = NoCap 0"
    and cap: "cte_cap (ctable s) src = TimeCap pad h bgn bgn end'" and n: "bgn < nend" "nend \<le> end'"
    and own: "\<And>i. unat bgn \<le> i \<Longrightarrow> i < unat end' \<Longrightarrow> slot_owner (slots s) (unat h) i = Some (cte_pid src, unat end' - i)"
  shows "\<exists>s1 s2. cap_derive s src dst (TimeCap npad h bgn bgn nend) = Some (SUCCESS, s1)
    \<and> slot_owner (slots s1) (unat h) (unat bgn) = Some (cte_pid dst, unat nend - unat bgn)
    \<and> cap_revoke s1 src = Some (SUCCESS, s2) \<and> ring (ctable s2) xs
    \<and> (\<forall>c < length (ctable s). cte_cap (ctable s2) c = cte_cap (ctable s) c)
    \<and> (\<forall>h' i. hart_ok h' \<longrightarrow> i < S3K_SLOT_CNT \<longrightarrow> slot_owner (slots s2) h' i = slot_owner (slots s) h' i)"
proof -
  let ?n = "TimeCap npad h bgn bgn nend" and ?m = "TimeCap pad h bgn nend end'"
  have src: "src < length (ctable s)" using ringD(3) [OF r(1,2)] .
  have empty: "cte_is_empty (ctable s) dst" using r(4) by (simp add: cte_is_empty_def)
  then have ne: "src \<noteq> dst" "dst \<notin> set xs"
    using cap r(4) unfolding ringD(2) [OF r(1)] occupied_def by (metis cap.distinct(1), blast)
  have ok: "hart_ok (unat h)" "unat end' \<le> S3K_SLOT_CNT" using kinv_cap_ok [OF inv src] cap by simp_all
  have nn: "unat nend \<le> unat end'" "unat bgn \<le> unat nend" "unat bgn < unat nend"
    using n by (simp_all add: word_le_nat_alt word_less_nat_alt)
  have pids: "cte_pid src < 256" "cte_pid dst < 256"
    using kinv_pid [OF inv src] kinv_pid [OF inv r(3)] config_bounds(2) by simp_all
  have per: "unat end' < 256" "unat end' \<le> length (slots s)" "unat nend < 256"
    using ok(2) nn(1) config_bounds(6) kinv_lengths(4) [OF inv] by simp_all
  define s1 where "s1 = s\<lparr>slots := assign_hart (unat h) (cte_pid dst) (unat nend) (unat bgn) (unat nend) (slots s),
      ctable := cte_insert (cte_set_cap (ctable s) src ?m) dst ?n src\<rparr>"
  have d: "cap_derive s src dst ?n = Some (SUCCESS, s1)"
    unfolding s1_def by (rule derive_time_step [OF inv src r(3) cap empty n])
  have "cap_is_valid ?n" using n by simp
  from cap_derive_ok [OF inv src r(3) this] d have inv1: "kinv s1" by simp
  have r1: "ring (cte_set_cap (ctable s) src ?m) xs" by (rule ct.rep_put [OF r(1,2)]) simp
  note i = ct.next_after_ins [OF r1 r(2) _ ne(2), of ?n]
  have caps1: "cte_cap (ctable s1) x = (if x = dst then ?n else if x = src then ?m else cte_cap (ctable s) x)" for x
    using src r(3) by (simp add: s1_def cte_cap_ops cte_get_set)
  have rev: "cap_revoke s1 src = Some (SUCCESS,
    s1\<lparr>slots := assign_hart (unat h) (cte_pid src) (unat end') (unat bgn) (unat nend) (slots s1),
      ctable := cte_set_cap (cte_delete (ctable s1) dst) src (TimeCap pad h bgn bgn end')\<rparr>)" (is "_ = Some (_, ?s2)")
    by (rule revoke_time_step [OF inv1]) (use src r(3) ne n(2) i caps1 in \<open>simp_all add: s1_def\<close>)
  have "slot_owner (slots s1) (unat h) (unat bgn) = Some (cte_pid dst, unat nend - unat bgn)"
    using nn per by (simp add: s1_def sl.owner_assign ok(1) pids)
  moreover have "ring (ctable ?s2) xs"
    using ct.rep_put [OF ct.rep_ins_del [OF r1 r(2) _ ne(2), of ?n] r(2)] r(3) by (simp add: s1_def)
  moreover have "cte_cap (ctable ?s2) c = cte_cap (ctable s) c" for c
    using src r(3,4) cap ne(1) caps1 by (simp add: cte_get_set cte_cap_ops s1_def)
  moreover have "slot_owner (slots ?s2) h' i = slot_owner (slots s) h' i" if "hart_ok h'" "i < S3K_SLOT_CNT" for h' i
    using sl.owner_merge [OF ok(1) pids per(1) nn(2,1) per(2) own that(1)] that(2) kinv_lengths(4) [OF inv]
    by (simp add: s1_def)
  ultimately show ?thesis using d rev by blast
qed

theorem time_derive_revoke_witness:
  "\<exists>s1 s2. cap_derive boot0 4 30 (TimeCap 0 0 0 0 8) = Some (SUCCESS, s1) \<and> cap_revoke s1 4 = Some (SUCCESS, s2)"
proof -
  have len: "length (ctable boot0) = 64" using kinv_lengths(1) [OF boot0_facts(1)] by (simp add: config_defs)
  have "cte_cap (ctable boot0) 30 = NoCap 0" using boot0_facts(4) [of 30] len by simp
  moreover have "cte_cap (ctable boot0) 4 = TimeCap 0 0 0 0 32"
    using boot0_facts(3) [of 4] by (simp add: init_list_def pad0_def)
  moreover have "slot_owner (slots boot0) (unat (0 :: hart_t)) i = Some (cte_pid 4, unat (32 :: time_slot_t) - i)"
    if "i < unat (32 :: time_slot_t)" for i
    using boot0_facts(6) [of 0 i] that by (simp add: config_defs hart_ok_def cte_pid_def)
  ultimately show ?thesis
    using time_derive_revoke [OF boot0_facts(1,2), of 4 30 0 0 0 32 8 0] len by auto
qed



text \<open>C14. A revocation that is not preempted leaves the parent as if nothing had been derived from it:
  its mark is back at its begin and, for memory, it is not locked.\<close>

theorem revoke_resets_parent:
  assumes "cap_revoke s p = Some (SUCCESS, s')" "p < length (ctable s)" "cap_ok (cte_cap (ctable s) p)"
    and "cap_type (cte_cap (ctable s) p) \<in> {CAPTY_TIME, CAPTY_MEMORY, CAPTY_MONITOR, CAPTY_CHANNEL}"
  shows "mark_reset (cte_cap (ctable s') p)"
  using assms loop_resets [OF resets_handlers(1), of s p SUCCESS s'] loop_resets [OF resets_handlers(2), of s p SUCCESS s']
    loop_resets [OF resets_handlers(3), of s p SUCCESS s'] loop_resets [OF resets_handlers(4), of s p SUCCESS s']
  by (auto simp: cap_revoke_def Let_def)

theorem revoke_resets_parent_witness:
  "\<exists>s s'. cte_cap (ctable s) 8 = MonCap 0 0 1 2 \<and> cap_revoke s 8 = Some (SUCCESS, s')
    \<and> mark_reset (cte_cap (ctable s') 8)"
proof -
  let ?s = "set_ctable boot0 (cte_set_cap (ctable boot0) 8 (MonCap 0 0 1 2))"
  have len: "length (ctable boot0) = 64" using kinv_lengths(1) [OF boot0_facts(1)] by (simp add: config_defs)
  have "cte_next (ctable boot0) 8 = 7" using ringD(4) [OF boot0_facts(2), of 8] by (simp add: ring_next_def)
  then have n: "cte_next (ctable ?s) 8 = 7" "cte_cap (ctable ?s) 8 = MonCap 0 0 1 2"
      "cte_cap (ctable ?s) 7 = TimeCap 0 3 0 0 32"
    using len boot0_facts(3) [of 7] by (simp_all add: cte_get_set init_list_def pad0_def)
  then obtain s' where r: "cap_revoke ?s 8 = Some (SUCCESS, s')"
    by (simp add: cap_revoke_def cap_revoke_loop.simps [of cap_revoke_monitor] cap_revoke_monitor_def)
  from revoke_resets_parent [OF r] n len have "mark_reset (cte_cap (ctable s') 8)" by (simp add: config_defs)
  with r n show ?thesis by blast
qed

text \<open>C37. Revoking a memory slice does not look at the end of the slice when the next entry of the ring is a
  PMP frame: a frame that lies entirely behind the slice is deleted all the same, and the memory
  protection of its holder is changed.\<close>

theorem revoke_memory_beyond_end:
  assumes "kinv s" "p < length (ctable s)" "cte_cap (ctable s) p = MemCap rwx lck tag bgn mrk end'"
    and "cte_cap (ctable s) c = PmpCap crwx True slot addr" "cte_next (ctable s) p = c" "c < length (ctable s)"
    and "tag_block_to_addr tag end' \<le> fst (pmp_napot_decode (ucast addr))"
  shows "\<exists>s'. cap_revoke_memory s p (cte_cap (ctable s) p) = Some (CONTINUE, s')
    \<and> cte_cap (ctable s') c = NoCap 0 \<and> pmpcfg (procs s' ! cte_pid c) ! unat slot = 0"
proof -
  have "bgn < end'" "unat slot < S3K_PMP_CNT"
    using kinv_cap_ok [OF assms(1,2)] kinv_cap_ok [OF assms(1,6)] assms(3,4) by simp_all
  then have "tag_block_to_addr tag bgn \<le> tag_block_to_addr tag end'"
    using tag_block_mono [OF less_imp_le, of bgn end' tag] by (simp add: word_le_nat_alt)
  with assms(7) have lo: "tag_block_to_addr tag bgn \<le> fst (pmp_napot_decode (ucast addr))" by (rule order_trans [rotated])
  have q: "cte_pid c < S3K_PROC_CNT" "cte_pid c < length (procs s)"
    using kinv_pid [OF assms(1,6)] kinv_lengths(2) [OF assms(1)] by simp_all
  let ?t = "set_ctable s (cte_delete (ctable s) c)"
  have "proc_get ?t (cte_pid c) = Some (cte_pid c)"
    using kinv_proc_get [OF assms(1) q(1)] by (simp add: proc_get_def)
  with lo assms(3-6) \<open>unat slot < S3K_PMP_CNT\<close> q kinv_proc_ok [OF assms(1) q(1)] show ?thesis
    by (simp add: cap_revoke_memory_def proc_pmp_unload_def cte_cap_delete procs_upd_proc proc_ok_def)
qed

theorem revoke_memory_beyond_end_witness:
  "\<exists>s s'. cap_revoke_memory s 2 (cte_cap (ctable s) 2) = Some (CONTINUE, s') \<and> cte_cap (ctable s') 0 = NoCap 0"
proof -
  let ?s = "set_ctable boot0 (cte_delete (ctable boot0) 1)"
  have len: "length (ctable boot0) = 64" using kinv_lengths(1) [OF boot0_facts(1)] by (simp add: config_defs)
  have cap: "cte_cap (ctable boot0) 1 = MemCap 7 False 16 0x20 0x20 0x8000" "cte_cap (ctable boot0) 2 = MemCap 3 False 2 0 0 2"
    using boot0_facts(3) [of 1] boot0_facts(3) [of 2] by (simp_all add: init_list_def)
  have inv: "kinv ?s" by (rule kinv_delete [OF boot0_facts(1)]) (use len cap in simp_all)
  have "ring (ctable ?s) [0, 25, 9, 8, 7, 6, 5, 4, 3, 2]"
    using ct.rep_del [OF boot0_facts(2), of 1] by simp
  then have "cte_next (ctable ?s) 2 = ring_next [0, 25, 9, 8, 7, 6, 5, 4, 3, 2] 2" by (rule ringD(4)) simp
  then have n: "cte_next (ctable ?s) 2 = 0" by (simp add: ring_next_def)
  have c: "cte_cap (ctable ?s) 2 = MemCap 3 False 2 0 0 2" "cte_cap (ctable ?s) 0 = PmpCap 7 True 0 0x2007ffff"
    using cap boot0_facts(5) len by (simp_all add: cte_cap_delete)
  have l: "2 < length (ctable ?s)" "0 < length (ctable ?s)" using len by simp_all
  have "tag_block_to_addr 2 2 \<le> fst (pmp_napot_decode (ucast (0x2007ffff :: 48 word)))" by code_simp
  from revoke_memory_beyond_end [OF inv l(1) c n l(2) this] show ?thesis by blast
qed

section \<open>Scheduling\<close>

text \<open>C16. The scheduler gives a hart only to the owner of a slot of that hart, the slot of a time it
  has read from the clock, only when the process is not running elsewhere, and only until the end of
  the slice: the timeout of the process and the timer of the hart are set to the end of the slice
  less the time the scheduler needs.\<close>

theorem sched_gives_owner:
  assumes "sched s = Some (p, s')" "kinv s" "hart_ok (mhartid s)"
  shows "kinv s' \<and> p < S3K_PROC_CNT \<and> running s' p \<and> \<not> running s p
    \<and> (\<forall>q < S3K_PROC_CNT. running s q \<longrightarrow> running s' q)
    \<and> (\<exists>k l. owner_at s (mhartid s) (slot_at (mtime s k)) = Some (p, l)
        \<and> timeout (procs s' ! p) = (slot_at (mtime s k) + of_nat l) * S3K_SLOT_LEN - S3K_SCHED_TIME)
    \<and> mtimecmp s' (mhartid s) = timeout (procs s' ! p)"
  using sched_ok [OF assms] unfolding scheduled_def runs_on_def owner_at_def slot_at_def by blast

theorem sched_gives_owner_witness:
  "\<exists>s'. sched idle0 = Some (0, s') \<and> timeout (procs s' ! 0) = 32 * S3K_SLOT_LEN - S3K_SCHED_TIME"
proof -
  from idle0_sched obtain s' where s': "sched idle0 = Some (0, s')" by blast
  from sched_gives_owner [OF this] idle0_facts idle0_owner [of 0] s' show ?thesis
    by (auto simp: hart_ok_def config_defs slot_at_def)
qed



text \<open>C18. The harts agree on who runs a process: of two harts that own the same process at the same time
  at most one takes it, if the higher one is not the last hart.\<close>

theorem harts_agree:
  assumes "kinv s" "hart_ok h" "h < h'" "h' < S3K_MAX_HART"
    and "sched_fetch s h slot = Some (Some p, t)"
  shows "\<not> (\<exists>u. sched_fetch s h' slot = Some (Some p, u))"
proof
  assume "\<exists>u. sched_fetch s h' slot = Some (Some p, u)"
  then obtain u where u: "sched_fetch s h' slot = Some (Some p, u)" ..
  have "hart_ok h'" using assms(2-4) by (simp add: hart_ok_def)
  from sched_takes [OF assms(1,2,5)] sched_takes [OF assms(1) this u] obtain l l' where
    own: "owner_at s h slot = Some (p, l)" "\<not> gives_way s h slot p l"
      "owner_at s h' slot = Some (p, l')" "\<not> gives_way s h' slot p l'" by blast
  then have "\<not> l < l'" "\<not> l' \<le> l" using assms(2-4) unfolding gives_way_def hart_ok_def by blast+
  then show False by simp
qed

theorem harts_agree_witness: "\<not> (\<exists>u. sched_fetch idle0 1 0 = Some (Some 0, u))"
proof -
  obtain t where "sched_fetch idle0 0 0 = Some (Some 0, t)" using idle0_fetch by blast
  from harts_agree [OF idle0_facts(1) config_values(2) _ _ this, of 1] show ?thesis by (simp add: config_defs)
qed

text \<open>C38. The loop over the higher harts stops before the last one: a hart does not give way to the last
  hart even if the process has a longer slice there, and the last hart does not give way to it, so
  both try to run the process.\<close>

theorem last_hart_ignored:
  assumes "kinv s" "S3K_MIN_HART \<le> h" "h < S3K_MAX_HART"
    and "\<And>h' l'. hart_ok h' \<Longrightarrow> h' \<noteq> h \<Longrightarrow> h' \<noteq> S3K_MAX_HART \<Longrightarrow> owner_at s h' slot \<noteq> Some (p, l')"
    and "owner_at s h slot = Some (p, l)" "owner_at s S3K_MAX_HART slot = Some (p, l')" "l < l'"
    and "pstate (procs s ! p) AND (PSF_BUSY OR PSF_SUSPENDED) = 0" "timeout (procs s ! p) \<le> mtime s (reads s)"
  shows "(\<exists>t. sched_fetch s h slot = Some (Some p, t)) \<and> (\<exists>t. sched_fetch s S3K_MAX_HART slot = Some (Some p, t))"
proof -
  have "hart_ok h" "hart_ok S3K_MAX_HART" using assms(2,3) by (simp_all add: hart_ok_def)
  moreover have "\<not> gives_way s h slot p l"
  proof -
    have "owner_at s h' slot \<noteq> Some (p, l')" if "S3K_MIN_HART \<le> h'" "h' \<noteq> h" "h' < S3K_MAX_HART" for h' l'
      using assms(4) [of h'] that by (simp add: hart_ok_def)
    with assms(2,3) show ?thesis unfolding gives_way_def by fastforce
  qed
  moreover have "\<not> gives_way s S3K_MAX_HART slot p l'"
  proof -
    have "l'' = l" if "S3K_MIN_HART \<le> h'" "h' < S3K_MAX_HART" "owner_at s h' slot = Some (p, l'')" for h' l''
      using assms(4) [of h' l''] that assms(5) by (cases "h' = h") (auto simp: hart_ok_def)
    with assms(7) show ?thesis unfolding gives_way_def by fastforce
  qed
  ultimately show ?thesis using sched_fetch_free assms(1,5,6,8,9) by blast
qed

theorem last_hart_ignored_witness:
  "\<exists>s. (\<exists>t. sched_fetch s 0 0 = Some (Some 0, t)) \<and> (\<exists>t. sched_fetch s 3 0 = Some (Some 0, t))"
proof -
  let ?s = "idle0\<lparr>slots := replicate 32 0x0020000000000010\<rparr>"
  have hs: "h = 0 \<or> h = 1 \<or> h = 2 \<or> h = 3" if "hart_ok h" for h using that by (auto simp: hart_ok_def config_defs)
  have own: "slot_owner (replicate 32 0x0020000000000010) h i = (if h = 0 then Some (0, 16) else if h = 3 then Some (0, 32) else None)"
    if "hart_ok h" "i < 32" for h i
  proof -
    have "drop_bit 16 (0x0020000000000010 :: u64) = 0x002000000000" "drop_bit 32 (0x0020000000000010 :: u64) = 0x00200000"
      "drop_bit 48 (0x0020000000000010 :: u64) = 0x0020" "(ucast (0x002000000000 :: u64) :: u8) = 0"
      "(ucast (0x00200000 :: u64) :: u8) = 0" "(ucast (0x0020 :: u64) :: u8) = 32"
      "(ucast (0x0020000000000010 :: u64) :: u8) = 16" "(ucast (drop_bit 8 (0x0020000000000010 :: u64)) :: u8) = 0"
      "(ucast (drop_bit 8 (0x0020 :: u64)) :: u8) = 0" by code_simp+
    with hs [OF that(1)] that(2) show ?thesis by (auto simp: slot_owner_def Let_def offset_of_def config_defs)
  qed
  then have "slots_ok (replicate 32 0x0020000000000010)"
    unfolding slots_ok_def by (auto simp: config_defs split: if_splits)
  with idle0_facts(1) have inv: "kinv ?s" by (simp add: kinv_def)
  have "owner_at ?s h 0 = (if h = 0 then Some (0, 16) else if h = 3 then Some (0, 32) else None)" if "hart_ok h" for h
    using own [OF that] by (simp add: owner_at_def config_defs)
  with last_hart_ignored [OF inv, of 0 0 0 16 32] show ?thesis
    by (intro exI [of _ ?s]) (auto simp: hart_ok_def config_defs idle0_facts)
qed

section \<open>Monitors, memory protection, messages\<close>

text \<open>C19. A monitor capability is needed to control another process: suspending, resuming and writing a
  register succeed only if the capability is a monitor that covers the process (and, for registers,
  the process is suspended); they change nothing but the control block of that process, and an
  operation that fails changes nothing at all.\<close>

theorem monitor_authority:
  assumes "kinv s" "mon < length (ctable s)"
    and "cap_monitor_suspend s mon p = Some (e, s') \<and> \<not> b \<or> cap_monitor_resume s mon p = Some (e, s') \<and> \<not> b
      \<or> cap_monitor_reg_write s mon p reg v = Some (e, s') \<and> b"
  shows "(e = SUCCESS \<longleftrightarrow> monitors s mon (unat p) \<and> (b \<longrightarrow> proc_is_suspended s (unat p)))
    \<and> (e \<noteq> SUCCESS \<longrightarrow> s' = s) \<and> ctable s' = ctable s \<and> (\<forall>q. q \<noteq> unat p \<longrightarrow> procs s' ! q = procs s ! q)"
proof -
  from check_monitor_iff [OF assms(1,2)] obtain e' where e': "check_monitor s mon p b = Some e'" by blast
  have get: "proc_get s (unat p) = Some q \<Longrightarrow> q = unat p" for q
    by (auto simp: proc_get_def KASSERT_def split: if_splits)
  have frame: "ctable (proc_suspend s q) = ctable s" "ctable (proc_resume s q) = ctable s"
    "r \<noteq> q \<Longrightarrow> procs (proc_suspend s q) ! r = procs s ! r" "r \<noteq> q \<Longrightarrow> procs (proc_resume s q) ! r = procs s ! r"
    "r \<noteq> q \<Longrightarrow> procs (set_reg s q x v) ! r = procs s ! r" for q r x
    by (simp_all add: proc_suspend_def proc_resume_def Let_def set_reg_def upd_proc_def)
  have "e = e' \<and> (e \<noteq> SUCCESS \<longrightarrow> s' = s) \<and> ctable s' = ctable s \<and> (\<forall>q. q \<noteq> unat p \<longrightarrow> procs s' ! q = procs s ! q)"
    using assms(3) e'
    by (cases b) (auto simp: cap_monitor_suspend_def cap_monitor_resume_def cap_monitor_reg_write_def bind_eq_Some_conv
        frame split: if_splits dest!: get)
  with check_monitor_authority [OF assms(1,2) e'] show ?thesis by blast
qed

theorem monitor_authority_witness:
  "\<exists>e s'. cap_monitor_suspend boot0 8 1 = Some (e, s') \<and> e = SUCCESS \<and> ctable s' = ctable boot0"
proof -
  have c: "8 < length (ctable boot0)" using kinv_lengths(1) [OF boot0_facts(1)] by (simp add: config_defs)
  from monitor_state_ok(1) [OF boot0_facts(1) c, of 1] obtain e s' where h: "cap_monitor_suspend boot0 8 1 = Some (e, s')"
    by (auto simp: ok_iff)
  moreover have "monitors boot0 8 (unat (1 :: pid_t))"
    using boot0_facts(3) [of 8] by (simp add: monitors_def init_list_def)
  ultimately show ?thesis
    using monitor_authority [OF boot0_facts(1) c, of 1 e s' False] by auto
qed



text \<open>C22. Loading a PMP frame in a free slot and unloading it is a round trip: in between the slot of the
  process has the permissions, the NAPOT mode and the address of the frame; afterwards the
  capability and the configuration are as before.\<close>

theorem pmp_load_unload:
  assumes inv: "kinv s" and c: "c < length (ctable s)" "cte_cap (ctable s) c = PmpCap rwx False 0 addr"
    and k: "unat k < S3K_PMP_CNT" "pmpcfg (procs s ! cte_pid c) ! unat k = 0"
  shows "\<exists>s1 s2. cap_pmp_load s c k = Some (SUCCESS, s1)
    \<and> pmpcfg (procs s1 ! cte_pid c) ! unat k = ucast rwx OR 0x18 \<and> pmpaddr (procs s1 ! cte_pid c) ! unat k = ucast addr
    \<and> cte_cap (ctable s1) c = PmpCap rwx True k addr
    \<and> cap_pmp_unload s1 c = Some (SUCCESS, s2) \<and> ctable s2 = ctable s
    \<and> (\<forall>q. pmpcfg (procs s2 ! q) = pmpcfg (procs s ! q))"
proof -
  let ?p = "cte_pid c"
  have p: "?p < S3K_PROC_CNT" "?p < length (procs s)" using kinv_pid [OF inv c(1)] kinv_lengths(2) [OF inv] by simp_all
  note q = kinv_proc_ok [OF inv p(1)]
  define s1 where "s1 = set_ctable (upd_proc s ?p (\<lambda>q. q\<lparr>pmpcfg := (pmpcfg q)[unat k := ucast rwx OR 0x18],
      pmpaddr := (pmpaddr q)[unat k := ucast addr]\<rparr>)) (cte_set_cap (ctable s) c (PmpCap rwx True k addr))"
  have l: "cap_pmp_load s c k = Some (SUCCESS, s1)"
    using c k by (simp add: cap_pmp_load_def kinv_proc_get_cte [OF inv c(1)] proc_pmp_avail_def proc_pmp_load_def s1_def)
  have cap1: "cte_cap (ctable s1) c = PmpCap rwx True k addr" using c(1) by (simp add: s1_def cte_get_set)
  have get: "proc_get s1 ?p = Some ?p"
    using cap_pmp_load_ok [OF inv c(1) k(1)] l kinv_proc_get [OF _ p(1)] by simp
  have un: "cap_pmp_unload s1 c = Some (SUCCESS, set_ctable (upd_proc s1 ?p (\<lambda>q. q\<lparr>pmpcfg := (pmpcfg q)[unat k := 0]\<rparr>))
      (cte_set_cap (ctable s1) c (PmpCap rwx False 0 addr)))" (is "_ = Some (_, ?s2)")
    using cap1 k(1) by (simp add: cap_pmp_unload_def get proc_pmp_unload_def)
  have "ctable ?s2 = cte_set_cap (ctable s) c (PmpCap rwx False 0 addr)"
    using c(1) by (simp add: s1_def cte_set_cap_def)
  also have "\<dots> = ctable s" using cte_set_cap_id [of "ctable s" c] c(2) by simp
  finally have "ctable ?s2 = ctable s" .
  moreover have "pmpcfg (procs ?s2 ! r) = pmpcfg (procs s ! r)" for r
    using p(2) k q list_update_id [of "pmpcfg (procs s ! ?p)" "unat k"] by (auto simp: s1_def procs_upd_proc proc_ok_def)
  moreover have "pmpcfg (procs s1 ! ?p) ! unat k = ucast rwx OR 0x18" "pmpaddr (procs s1 ! ?p) ! unat k = ucast addr"
    using p(2) k q by (simp_all add: s1_def procs_upd_proc proc_ok_def)
  ultimately show ?thesis using l un cap1 by blast
qed

theorem pmp_load_unload_witness:
  "\<exists>s s1. cap_pmp_load s 30 3 = Some (SUCCESS, s1) \<and> pmpcfg (procs s1 ! 0) ! 3 = 0x1f"
proof -
  have len: "length (ctable boot0) = 64" using kinv_lengths(1) [OF boot0_facts(1)] by (simp add: config_defs)
  let ?s = "set_ctable boot0 (cte_insert (ctable boot0) 30 (PmpCap 7 False 0 0x20003fff) 1)"
  have e: "cte_is_empty (ctable boot0) 30" using boot0_facts(4) [of 30] len by (simp add: cte_is_empty_def)
  have inv: "kinv ?s" by (rule kinv_insert [OF boot0_facts(1) _ _ e]) (use len in simp_all)
  have c: "30 < length (ctable ?s)" "cte_cap (ctable ?s) 30 = PmpCap 7 False 0 0x20003fff"
    using len by (simp_all add: cte_cap_insert)
  have none: "\<forall>cp \<in> set (init_list pad0). used_of cp = None" by (simp add: init_list_def)
  have "pmp_used (ctable ?s) d \<noteq> Some (r, 3, a)" for d r a
  proof -
    have "used_of (cte_cap (ctable ?s) d) \<noteq> Some (r, 3, a)" if "d < 64"
    proof -
      consider "d = 0" | "d = 30" | "0 < d" "d < 26" | "26 \<le> d" "d \<noteq> 30" by linarith
      then show ?thesis
      proof cases
        case 3
        then have "used_of (init_list pad0 ! d) = None" using none init_list_ok(1) [of pad0] by simp
        with 3 boot0_facts(3) len show ?thesis by (simp add: cte_cap_insert)
      qed (use len that boot0_facts(4,5) in \<open>simp_all add: cte_cap_insert\<close>)
    qed
    then show ?thesis using len by (simp add: pmp_used_cap)
  qed
  moreover have "0 < length (procs ?s)" "3 < S3K_PMP_CNT"
    unfolding kinv_lengths(2) [OF inv] by (simp_all add: config_defs)
  ultimately have "pmpcfg (procs ?s ! 0) ! 3 = 0" using pmp_invD(3) [OF kinvD(5) [OF inv], of 0 3] by blast
  moreover have "cte_pid 30 = 0" by (simp add: cte_pid_def config_defs)
  moreover have "unat (3 :: pmp_slot_t) < S3K_PMP_CNT" by (simp add: config_defs)
  moreover have "(ucast (7 :: rwx_t) :: u8) OR 0x18 = 0x1f" by code_simp
  ultimately obtain s1 where "cap_pmp_load ?s 30 3 = Some (SUCCESS, s1)" "pmpcfg (procs s1 ! 0) ! 3 = 0x1f"
    using pmp_load_unload [OF inv c, of 3] by auto
  then show ?thesis by blast
qed

text \<open>C21. Message passing: when a client sends words to a server that waits on the channel, the call
  succeeds and the server has the client's tag, the error code for success and the words in its
  registers. In the mode that yields, the server runs next, with the timeout of the client;
  otherwise it is ready to be scheduled at any time and the client goes on. Nobody else is
  affected.\<close>

theorem client_send:
  assumes inv: "kinv s" and p: "p < S3K_PROC_CNT" "pstate (procs s ! p) = PSF_BUSY"
    and sock: "sock < length (ctable s)" "cte_cap (ctable s) sock = SockCap mode perm chan tag" "tag \<noteq> 0"
    and srv: "server (channels s ! unat chan) = Some q" "pstate (procs s ! q) = blocked_on chan" "q \<noteq> p"
    and now: "mtime s (reads s) < mtimecmp s (mhartid s)" "mtime s (Suc (reads s)) < timeout (procs s ! q)"
    and yield: "mode = IPC_YIELD \<Longrightarrow> mtime s (reads s) + get_reg s q REG_SERVTIME < mtimecmp s (mhartid s)"
    and msg: "\<not> msg_send_cap msg"
  shows "\<exists>s'. cap_sock_send s sock msg p = Some (SUCCESS, if mode = IPC_YIELD then Some q else Some p, s')
    \<and> delivered s' q tag (msg_data msg)
    \<and> pstate (procs s' ! q) = (if mode = IPC_YIELD then PSF_BUSY else 0)
    \<and> timeout (procs s' ! q) = (if mode = IPC_YIELD then timeout (procs s ! p) else 0)
    \<and> ctable s' = ctable s \<and> (\<forall>r. r \<noteq> q \<longrightarrow> procs s' ! r = procs s ! r)"
proof -
  have ch: "unat chan < S3K_CHAN_CNT" and mode: "mode = IPC_YIELD \<or> mode = IPC_NOYIELD"
    using kinv_cap_ok [OF inv sock(1)] sock(2) by auto
  have chan: "get_chan s chan = Some (channels s ! unat chan)" "chan_ok (channels s ! unat chan)"
    using kinv_get_chan [OF inv ch] by auto
  then have q: "q < S3K_PROC_CNT" using srv(1) by (simp add: chan_ok_def)
  then have ql: "q < length (procs s)" using kinv_lengths(2) [OF inv] by simp
  let ?cap = "SockCap mode perm chan tag"
  let ?t = "upd_proc (s\<lparr>reads := Suc (Suc (reads s))\<rparr>) q (\<lambda>q. q\<lparr>pstate := PSF_BUSY\<rparr>)"
  have acq: "proc_ipc_acquire (s\<lparr>reads := Suc (reads s)\<rparr>) q chan = (True, ?t)"
    using srv(2) now(2) by (simp add: proc_ipc_acquire_def not_le)
  have "q < length (procs ?t)" using ql by simp
  from deliver_regs [OF this msg, of ?cap "cap_buf (channels s ! unat chan)"] obtain u where
    u: "deliver ?t ?cap msg (cap_buf (channels s ! unat chan)) q = Some u" "delivered u q tag (msg_data msg)"
    "ctable u = ctable s" "length (procs u) = length (procs s)" "pstate (procs u ! q) = PSF_BUSY"
    "\<forall>r. r \<noteq> q \<longrightarrow> procs u ! r = procs s ! r"
    using ql by (auto simp: procs_upd_proc)
  have kept: "delivered (upd_proc u q f) q tag (msg_data msg)" if "\<And>x. regs (f x) = regs x" for f
    using u(2,4) ql that by (simp add: delivered_def get_reg_def procs_upd_proc)
  have send: "cap_sock_send s sock msg p = send_to (s\<lparr>reads := Suc (reads s)\<rparr>) ?cap msg (cap_buf (channels s ! unat chan)) q (Some p)"
    using sock p msg now(1) yield srv(1) chan(1)
    by (auto simp: Let_def cap_sock_send_def send_def do_send_def and_PSF_iff bit_PSF timeout_get_def get_chan_def get_reg_def not_le
        split: if_splits)
  show ?thesis
  proof (cases "mode = IPC_YIELD")
    case True
    with send acq u kept [of "\<lambda>x. x\<lparr>timeout := timeout (procs u ! p)\<rparr>"] ql srv(3) show ?thesis
      by (simp add: send_to_def procs_upd_proc)
  next
    case False
    let ?v = "upd_proc u q (\<lambda>x. x\<lparr>timeout := 0, pstate := PSF_BUSY XOR PSF_BUSY\<rparr>)"
    have "proc_release (upd_proc u q (\<lambda>x. x\<lparr>timeout := 0\<rparr>)) q = Some ?v"
      using u(4,5) ql by (simp add: proc_release_def KASSERT_def upd_proc_def PSF_BUSY_def config_defs)
    with False mode send acq u kept [of "\<lambda>x. x\<lparr>timeout := 0, pstate := PSF_BUSY XOR PSF_BUSY\<rparr>"] ql show ?thesis
      by (simp add: send_to_def procs_upd_proc)
  qed
qed

theorem client_send_witness:
  "\<exists>s'. cap_sock_send talk0 9 \<lparr>msg_cap_buf = 30, msg_send_cap = False, msg_data = [1, 2, 3, 4]\<rparr> 0 = Some (SUCCESS, Some 0, s')
    \<and> get_reg s' 1 REG_A0 = 7 \<and> get_reg s' 1 REG_A3 = 2"
proof -
  have m: "IPC_NOYIELD \<noteq> IPC_YIELD" by (simp add: IPC_NOYIELD_def IPC_YIELD_def)
  have "server (channels talk0 ! unat (0 :: chan_t)) = Some 1" using talk0_facts(7) by simp
  from client_send [OF talk0_facts(1) config_values(1) talk0_facts(2,4,3) _ this talk0_facts(5),
      of "\<lparr>msg_cap_buf = 30, msg_send_cap = False, msg_data = [1, 2, 3, 4]\<rparr>"] m
  show ?thesis by (auto simp: talk0_facts(6,8,9) talk0_facts(6) [unfolded One_nat_def] delivered_def)
qed

end
